(* ===== verification/Sgr_Prelude.thy ===== *)
theory Sgr_Prelude
  imports Complex_Main "HOL-Library.AList"
begin

text \<open>
  What the component theories share: the lemma collections of the development, Python
  dictionaries as insertion-ordered association lists, Python exceptions as values, and the
  interface of a component that is driven by a sequence of events.
\<close>

section \<open>Collections\<close>

named_theorems numeric
  "facts on the arithmetic of decimal and float values"

named_theorems frame
  "fields that an operation leaves unchanged"

named_theorems preserves
  "operations keep the invariant of their component"

section \<open>Python dictionaries\<close>

text \<open>
  A \<open>dict\<close> keeps its keys in insertion order, and the code iterates over its dictionaries. An
  association list with distinct keys is that structure: \<open>AList.update\<close> replaces the value of a
  present key in place and appends a new key at the end, \<open>AList.delete\<close> removes a key, and
  \<open>map_of\<close> looks a key up.
\<close>

type_synonym ('k, 'v) dict = "('k \<times> 'v) list"

definition dict_ok :: "('k, 'v) dict \<Rightarrow> bool" where
  "dict_ok d \<longleftrightarrow> distinct (map fst d)"

definition dict_values :: "('k, 'v) dict \<Rightarrow> 'v list" where
  "dict_values d = map snd d"

lemma dict_ok_Nil [simp]: "dict_ok []"
  by (simp add: dict_ok_def)

lemma dict_ok_Cons [simp]:
  "dict_ok ((k, v) # d) \<longleftrightarrow> k \<notin> fst ` set d \<and> dict_ok d"
  by (simp add: dict_ok_def)

lemma dict_ok_lookup: "dict_ok d \<Longrightarrow> map_of d k = Some v \<longleftrightarrow> (k, v) \<in> set d"
  by (simp add: dict_ok_def)

lemma dict_ok_update [simp]: "dict_ok d \<Longrightarrow> dict_ok (AList.update k v d)"
  by (simp add: dict_ok_def distinct_update)

lemma dict_ok_delete [simp]: "dict_ok d \<Longrightarrow> dict_ok (AList.delete k d)"
  by (simp add: dict_ok_def distinct_delete)

lemma map_of_update [simp]:
  "map_of (AList.update k v d) = (map_of d)(k \<mapsto> v)"
  by (rule ext) (simp add: update_conv')

lemma map_of_delete [simp]:
  "map_of (AList.delete k d) = (map_of d)(k := None)"
  by (rule ext) (simp add: delete_conv')

lemma update_new_key:
  "map_of d k = None \<Longrightarrow> AList.update k v d = d @ [(k, v)]"
  by (induction d) (auto split: if_splits)

lemma update_same: "map_of d k = Some v \<Longrightarrow> AList.update k v d = d"
  by (induction d) (auto split: if_splits)

lemma update_twice [simp]: "AList.update k w (AList.update k v d) = AList.update k w d"
  by (induction d) auto

lemma set_update_dict:
  "dict_ok d \<Longrightarrow> set (AList.update k w d) = insert (k, w) {e \<in> set d. fst e \<noteq> k}"
proof (induction d)
  case (Cons e d)
  then show ?case by (cases e) (auto simp: image_iff)
qed simp

lemma set_delete_dict: "set (AList.delete k d) = {e \<in> set d. fst e \<noteq> k}"
  by (auto simp: AList.delete_eq)

text \<open>Replacing or removing one value changes a sum over the dictionary by that value only.\<close>

lemma sum_list_update_key:
  fixes f :: "'v \<Rightarrow> rat"
  assumes "map_of d k = Some v"
  shows "sum_list (map (f \<circ> snd) (AList.update k w d)) =
         sum_list (map (f \<circ> snd) d) - f v + f w"
  using assms by (induction d) auto

lemma sum_list_delete_key:
  fixes f :: "'v \<Rightarrow> rat"
  assumes "dict_ok d" and "map_of d k = Some v"
  shows "sum_list (map (f \<circ> snd) (AList.delete k d)) = sum_list (map (f \<circ> snd) d) - f v"
  using assms
proof (induction d)
  case Nil
  then show ?case by simp
next
  case (Cons x d)
  obtain a b where x: "x = (a, b)" by (cases x)
  show ?case
  proof (cases "a = k")
    case True
    with Cons.prems x have "k \<notin> fst ` set d" by (simp add: dict_ok_def)
    with True Cons.prems x show ?thesis by (simp add: delete_id)
  next
    case False
    with Cons x show ?thesis by (simp add: dict_ok_def)
  qed
qed

lemma dict_value_in:
  "map_of d k = Some v \<Longrightarrow> v \<in> set (dict_values d)"
  by (force simp: dict_values_def dest: map_of_SomeD)

lemma dict_values_update:
  "set (dict_values (AList.update k v d)) \<subseteq> insert v (set (dict_values d))"
  by (induction d) (auto simp: dict_values_def)

lemma dict_values_delete:
  "set (dict_values (AList.delete k d)) \<subseteq> set (dict_values d)"
  by (induction d) (auto simp: dict_values_def)

section \<open>Texts of numbers\<close>

text \<open>\<open>str(n)\<close>\<close>

fun nat_str :: "nat \<Rightarrow> string" where
  "nat_str n = (if n < 10 then [char_of (48 + n)] else nat_str (n div 10) @ [char_of (48 + n mod 10)])"

declare nat_str.simps [simp del]

fun int_str :: "int \<Rightarrow> string" where
  "int_str i = (if i < 0 then CHR ''-'' # nat_str (nat (- i)) else nat_str (nat i))"

declare int_str.simps [simp del]

lemma nat_str_digits: "set (nat_str n) \<subseteq> char_of ` {48..57 :: nat}"
proof (induction n rule: nat_str.induct)
  case (1 n)
  then show ?case by (subst nat_str.simps) auto
qed

lemma int_str_no_colon: "CHR '':'' \<notin> set (int_str i)"
proof -
  have "CHR '':'' \<noteq> char_of k" if "k \<in> {48..57}" for k :: nat
  proof
    assume "CHR '':'' = char_of k"
    then have "of_char (CHR '':'') = (of_char (char_of k) :: nat)" by simp
    then have "(58::nat) = k mod 256" by (simp add: of_char_of)
    with that show False by simp
  qed
  then have "CHR '':'' \<notin> set (nat_str n)" for n using nat_str_digits [of n] by blast
  then show ?thesis by (simp add: int_str.simps)
qed

section \<open>Python exceptions\<close>

text \<open>
  A call that can raise returns \<open>Inl\<close> of the exception. The constructors are the exceptions the
  modelled code raises or lets through; the ones of services outside the repository arrive as
  \<open>ServiceError\<close> with an error number.
\<close>

datatype py_exc =
    ValueError
  | KeyError
  | RuntimeError
  | InvalidOperation
  | DivisionByZero
  | NotSupportedFeature
  | ExchangeError nat
  | ServiceError nat

type_synonym 'a result = "py_exc + 'a"

definition bind_result :: "'a result \<Rightarrow> ('a \<Rightarrow> 'b result) \<Rightarrow> 'b result" where
  "bind_result r f = (case r of Inl e \<Rightarrow> Inl e | Inr a \<Rightarrow> f a)"

lemma bind_result_simps [simp]:
  "bind_result (Inl e) f = Inl e"
  "bind_result (Inr a) f = f a"
  by (simp_all add: bind_result_def)

lemma bind_result_Inr:
  "bind_result r f = Inr b \<longleftrightarrow> (\<exists>a. r = Inr a \<and> f a = Inr b)"
  by (cases r) simp_all

section \<open>Components driven by events\<close>

text \<open>
  A component handles its events one after the other, each handler running to its end before the
  next starts. A property that every handler keeps holds after any sequence of events.
\<close>

definition run :: "('s \<Rightarrow> 'e \<Rightarrow> 's) \<Rightarrow> 's \<Rightarrow> 'e list \<Rightarrow> 's" where
  "run step s es = foldl step s es"

lemma run_simps [simp]:
  "run step s [] = s"
  "run step s (e # es) = run step (step s e) es"
  by (simp_all add: run_def)

lemma run_append [simp]: "run step s (es @ fs) = run step (run step s es) fs"
  by (simp add: run_def)

locale stateful =
  fixes step :: "'s \<Rightarrow> 'e \<Rightarrow> 's"
    and ok :: "'s \<Rightarrow> bool"
  assumes step_ok: "ok s \<Longrightarrow> ok (step s e)"
begin

lemma run_ok: "ok s \<Longrightarrow> ok (run step s es)"
proof (induction es arbitrary: s)
  case Nil
  then show ?case by simp
next
  case (Cons e es)
  from Cons.prems have "ok (step s e)" by (rule step_ok)
  then have "ok (run step (step s e) es)" by (rule Cons.IH)
  then show ?case by simp
qed

lemma run_prefix_ok: "ok s \<Longrightarrow> \<exists>n < length es. t = run step s (take n es) \<Longrightarrow> ok t"
  using run_ok by blast

end

text \<open>
  A quantity that no event lets fall: peaks, accumulated losses, counters of a run.
\<close>

locale monotone_measure =
  fixes step :: "'s \<Rightarrow> 'e \<Rightarrow> 's"
    and level :: "'s \<Rightarrow> 'a::linorder"
  assumes step_level: "level s \<le> level (step s e)"
begin

lemma run_level: "level s \<le> level (run step s es)"
proof (induction es arbitrary: s)
  case Nil
  show ?case by simp
next
  case (Cons e es)
  have "level s \<le> level (step s e)" by (rule step_level)
  also have "\<dots> \<le> level (run step (step s e) es)" by (rule Cons.IH)
  finally show ?case by simp
qed

lemma run_level_prefix: "level (run step s es) \<le> level (run step s (es @ fs))"
  by (simp add: run_level)

end

text \<open>
  A latch: something that is switched on with a reason, keeps the first reason however often it is
  switched on again, and is left on by everything else.
\<close>

locale latch =
  fixes is_on :: "'s \<Rightarrow> bool"
    and switch_on :: "'r \<Rightarrow> 's \<Rightarrow> 's"
    and why :: "'s \<Rightarrow> 'r option"
  assumes on_after: "is_on (switch_on r s)"
    and on_again: "is_on s \<Longrightarrow> switch_on r s = s"
    and why_first: "\<not> is_on s \<Longrightarrow> why (switch_on r s) = Some r"
begin

lemma fold_on: "is_on s \<Longrightarrow> fold switch_on rs s = s"
  by (induction rs) (simp_all add: on_again)

lemma first_reason_kept:
  "\<not> is_on s \<Longrightarrow> why (fold switch_on (r # rs) s) = Some r"
  by (simp add: fold_on on_after why_first)

lemma switch_on_idem: "switch_on r' (switch_on r s) = switch_on r s"
  by (simp add: on_after on_again)

end

end
