(* ===== verification/Py_Numbers.thy ===== *)
theory Py_Numbers
  imports Sgr_Prelude
begin

text \<open>
  Python's two inexact number types. A \<open>decimal.Decimal\<close> operation computes the exact result and
  rounds it to the 28 significant decimal digits of the default context, half to even; a \<open>float\<close>
  operation rounds to 53 significant binary digits, half to even. Both are one definition,
  \<open>rnd_sig base digits\<close>, so both have the same laws: monotone, odd, idempotent, exact on values of
  few digits. Values are exact rationals. Not modelled: exponent limits (a value of the code never
  comes near \<open>10 ^ 999999\<close> or \<open>2 ^ 1023\<close>), NaN, infinities, negative zero.
\<close>

section \<open>Digits and exponents\<close>

fun ndigits :: "nat \<Rightarrow> nat \<Rightarrow> nat" where
  "ndigits b n = (if b < 2 \<or> n = 0 then 0 else Suc (ndigits b (n div b)))"

declare ndigits.simps [simp del]

definition bpow :: "nat \<Rightarrow> int \<Rightarrow> rat" where
  "bpow b e = (if 0 \<le> e then of_nat b ^ nat e else 1 / of_nat b ^ nat (- e))"

text \<open>The exponent of the leading digit of a positive number.\<close>

definition flog :: "nat \<Rightarrow> rat \<Rightarrow> int" where
  "flog b x =
     (if 1 \<le> x then int (ndigits b (nat \<lfloor>x\<rfloor>)) - 1
      else - int (ndigits b (nat \<lceil>1 / x\<rceil> - 1)))"

text \<open>Round half to even, to an integer.\<close>

definition rhe :: "rat \<Rightarrow> int" where
  "rhe y =
     (let f = \<lfloor>y\<rfloor>; d = y - of_int f
      in if d < 1 / 2 \<or> (d = 1 / 2 \<and> even f) then f else f + 1)"

definition rnd_sig :: "nat \<Rightarrow> nat \<Rightarrow> rat \<Rightarrow> rat" where
  "rnd_sig b p x =
     (if x = 0 then 0
      else let u = bpow b (flog b \<bar>x\<bar> - int p + 1) in of_int (rhe (x / u)) * u)"

lemma ndigits_bounds:
  assumes "2 \<le> b" and "0 < n"
  shows "b ^ (ndigits b n - 1) \<le> n" and "n < b ^ ndigits b n" and "0 < ndigits b n"
proof -
  have "0 < n \<longrightarrow> 0 < ndigits b n \<and> b ^ (ndigits b n - 1) \<le> n \<and> n < b ^ ndigits b n"
    using assms(1)
  proof (induction b n rule: ndigits.induct)
    case (1 b n)
    show ?case
    proof (cases "n < b")
      case True
      with 1(2) show ?thesis by (simp add: ndigits.simps [of b n] ndigits.simps [of b 0])
    next
      case False
      with 1(2) have pos: "0 < n div b" and b: "0 < b" by (auto simp: div_greater_zero_iff)
      with 1 False have IH: "0 < ndigits b (n div b)" "b ^ (ndigits b (n div b) - 1) \<le> n div b"
        "n div b < b ^ ndigits b (n div b)" by auto
      have eq: "ndigits b n = Suc (ndigits b (n div b))"
        using 1(2) False by (simp add: ndigits.simps [of b n])
      have "b ^ ndigits b (n div b) = b * b ^ (ndigits b (n div b) - 1)"
        using IH(1) by (simp add: power_eq_if)
      also have "\<dots> \<le> b * (n div b)" using IH(2) by simp
      also have "\<dots> \<le> n" by simp
      finally have lo: "b ^ ndigits b (n div b) \<le> n" .
      have "n < (n div b + 1) * b" using b by (metis Suc_eq_plus1 dividend_less_div_times mult.commute mult_Suc)
      also have "\<dots> \<le> b ^ ndigits b (n div b) * b" using IH(3) by (intro mult_right_mono) auto
      finally have "n < b ^ ndigits b n" using eq by (simp add: mult.commute)
      with lo eq show ?thesis by simp
    qed
  qed
  with assms(2) show "b ^ (ndigits b n - 1) \<le> n" "n < b ^ ndigits b n" "0 < ndigits b n"
    by auto
qed

lemma bpow_pos: "0 < b \<Longrightarrow> 0 < bpow b e"
  by (simp add: bpow_def)

lemma bpow_0 [simp]: "bpow b 0 = 1"
  by (simp add: bpow_def)

lemma bpow_of_nat: "bpow b (int n) = of_nat b ^ n"
  by (simp add: bpow_def)

lemma bpow_pred: "0 < p \<Longrightarrow> bpow b (int p - 1) = of_nat b ^ (p - 1)"
  by (cases p) (simp_all add: bpow_of_nat)

lemma bpow_add:
  assumes "0 < b"
  shows "bpow b (d + e) = bpow b d * bpow b e"
proof -
  have b: "(of_nat b :: rat) \<noteq> 0" using assms by simp
  have *: "bpow b e = of_nat b powi e" for e
    by (simp add: bpow_def power_int_def divide_inverse power_inverse)
  show ?thesis unfolding * by (rule power_int_add) (use b in simp)
qed

lemma bpow_le:
  assumes "0 < b" and "d \<le> e"
  shows "bpow b d \<le> bpow b e"
proof -
  have "bpow b e = bpow b d * bpow b (int (nat (e - d)))"
    using assms bpow_add [of b d "e - d"] by simp
  moreover have "1 \<le> bpow b (int (nat (e - d)))"
    unfolding bpow_of_nat using assms(1) by (intro one_le_power) simp
  ultimately show ?thesis
    using bpow_pos [OF assms(1), of d] by simp
qed

lemma flog_bounds:
  assumes "2 \<le> b" and "0 < x"
  shows "bpow b (flog b x) \<le> x" and "x < bpow b (flog b x + 1)"
proof -
  have "bpow b (flog b x) \<le> x \<and> x < bpow b (flog b x + 1)"
  proof (cases "1 \<le> x")
    case True
    define n where "n = nat \<lfloor>x\<rfloor>"
    have n: "0 < n" "of_nat n \<le> x" "x < of_nat n + 1"
      using True by (auto simp: n_def) linarith+
    note nd = ndigits_bounds [OF assms(1) n(1)]
    have e: "flog b x = int (ndigits b n - 1)" "flog b x + 1 = int (ndigits b n)"
      using True nd(3) by (auto simp: flog_def n_def)
    have "bpow b (flog b x) \<le> of_nat n"
      unfolding e(1) bpow_of_nat using nd(1) by (metis of_nat_le_iff of_nat_power)
    moreover have "of_nat n + 1 \<le> bpow b (flog b x + 1)"
      unfolding e(2) bpow_of_nat using nd(2) by (metis Suc_eq_plus1 Suc_leI of_nat_Suc of_nat_le_iff of_nat_power add.commute)
    ultimately show ?thesis using n by linarith
  next
    case False
    define m where "m = nat \<lceil>1 / x\<rceil>"
    have gt: "1 < 1 / x" using False assms(2) by simp
    then have m: "1 < m" unfolding m_def by linarith
    have ceil: "1 / x \<le> of_nat m" "of_nat m < 1 / x + 1"
      unfolding m_def using gt by (simp_all) linarith+
    note nd = ndigits_bounds [OF assms(1), of "m - 1"]
    define k where "k = ndigits b (m - 1)"
    have k: "0 < k" "b ^ (k - 1) \<le> m - 1" "m - 1 < b ^ k"
      using nd m by (auto simp: k_def)
    have e: "flog b x = - int k" "flog b x + 1 = - int (k - 1)"
      using False k(1) by (auto simp: flog_def m_def k_def)
    have b: "(0::rat) < of_nat b ^ j" for j using assms(1) by simp
    have "m \<le> b ^ k" using k(3) by simp
    then have "1 / x \<le> of_nat b ^ k" using ceil(1) by (metis of_nat_le_iff of_nat_power order_trans)
    then have lo: "bpow b (flog b x) \<le> x"
      using assms(2) b [of k] k(1) by (simp add: e(1) bpow_def field_simps)
    have "of_nat b ^ (k - 1) \<le> (of_nat (m - 1) :: rat)" using k(2) by (metis of_nat_le_iff of_nat_power)
    also have "\<dots> < 1 / x" using ceil(2) m by (simp add: of_nat_diff)
    finally have "x < 1 / of_nat b ^ (k - 1)" using assms(2) b [of "k - 1"] by (simp add: field_simps)
    then have "x < bpow b (flog b x + 1)"
      unfolding e(2) by (cases "k - 1 = 0") (auto simp: bpow_def nat_diff_distrib)
    with lo show ?thesis by simp
  qed
  then show "bpow b (flog b x) \<le> x" "x < bpow b (flog b x + 1)" by auto
qed

lemma flog_mono:
  assumes "2 \<le> b" and "0 < x" and "x \<le> y"
  shows "flog b x \<le> flog b y"
proof (rule ccontr)
  assume "\<not> flog b x \<le> flog b y"
  then have "bpow b (flog b y + 1) \<le> bpow b (flog b x)" using assms(1) by (intro bpow_le) auto
  also have "\<dots> \<le> x" using flog_bounds [OF assms(1,2)] by simp
  finally have "bpow b (flog b y + 1) \<le> y" using assms(3) by simp
  with flog_bounds(2) [OF assms(1), of y] assms(2,3) show False by simp
qed


section \<open>Laws of rounding\<close>

lemma rhe_of_int [simp]: "rhe (of_int k) = k"
  by (simp add: rhe_def)

lemma rhe_cases: "rhe y = \<lfloor>y\<rfloor> \<or> rhe y = \<lfloor>y\<rfloor> + 1"
  by (simp add: rhe_def Let_def)

lemma rhe_close: "\<bar>of_int (rhe y) - y\<bar> \<le> 1 / 2"
proof -
  have "of_int \<lfloor>y\<rfloor> \<le> y" "y < of_int \<lfloor>y\<rfloor> + 1" by linarith+
  then show ?thesis by (auto simp: rhe_def Let_def)
qed

lemma rhe_mono:
  assumes "x \<le> y"
  shows "rhe x \<le> rhe y"
proof (cases "\<lfloor>x\<rfloor> = \<lfloor>y\<rfloor>")
  case True
  with assms show ?thesis by (auto simp: rhe_def Let_def)
next
  case False
  with assms have "\<lfloor>x\<rfloor> + 1 \<le> \<lfloor>y\<rfloor>" using floor_mono [OF assms] by linarith
  with rhe_cases [of x] rhe_cases [of y] show ?thesis by linarith
qed

lemma rhe_minus: "rhe (- y) = - rhe y"
proof (cases "y = of_int \<lfloor>y\<rfloor>")
  case True
  then show ?thesis by (metis of_int_minus rhe_of_int)
next
  case False
  have fl: "\<lfloor>- y\<rfloor> = - \<lfloor>y\<rfloor> - 1"
  proof -
    have "of_int \<lfloor>y\<rfloor> < y" using False by linarith
    then show ?thesis by linarith
  qed
  show ?thesis unfolding rhe_def Let_def fl by (auto simp: field_simps)
qed

text \<open>A value of at most \<open>p\<close> significant digits is not changed.\<close>

lemma rnd_sig_exact_pos:
  assumes b: "2 \<le> b" and p: "0 < p" and k: "0 < k" "k \<le> int b ^ p"
  shows "rnd_sig b p (of_int k * bpow b q) = of_int k * bpow b q"
proof -
  let ?x = "of_int k * bpow b q"
  have b0: "0 < b" using b by simp
  have pos: "0 < bpow b d" for d by (rule bpow_pos [OF b0])
  have x: "0 < ?x" using k(1) pos by simp
  define e where "e = flog b ?x"
  define u where "u = e - int p + 1"
  have lo: "bpow b e \<le> ?x" unfolding e_def using flog_bounds(1) [OF b x] .
  have "(of_int k :: rat) \<le> bpow b (int p)"
    using k(2) by (simp add: bpow_of_nat) (metis of_int_le_iff of_int_of_nat_eq of_int_power)
  then have hi: "?x \<le> bpow b (int p + q)" using pos [of q] by (simp add: bpow_add [OF b0])
  have "\<exists>j. ?x = of_int j * bpow b u"
  proof (cases "e < int p + q")
    case True
    then have "bpow b q = bpow b u * bpow b (int (nat (q - u)))"
      using bpow_add [OF b0, of u "q - u"] by (simp add: u_def)
    then have "?x = of_int (k * int b ^ nat (q - u)) * bpow b u"
      unfolding bpow_of_nat by (simp add: mult_ac)
    then show ?thesis by blast
  next
    case False
    then have "bpow b (int p + q) \<le> bpow b e" by (intro bpow_le [OF b0]) simp
    with lo hi have eq: "?x = bpow b e" by simp
    have "bpow b e = bpow b (int (p - 1)) * bpow b u"
      using p bpow_add [OF b0, of "int (p - 1)" u] by (simp add: of_nat_diff u_def)
    with eq have "?x = of_int (int b ^ (p - 1)) * bpow b u"
      by (simp add: bpow_of_nat)
    then show ?thesis by blast
  qed
  then obtain j where j: "?x = of_int j * bpow b u" by blast
  then have div: "?x / bpow b u = of_int j" using pos [of u] by simp
  have "rnd_sig b p ?x = of_int (rhe (?x / bpow b u)) * bpow b u"
    using x by (simp only: rnd_sig_def Let_def u_def e_def abs_of_pos if_not_P less_irrefl
      less_imp_neq [THEN not_sym] not_False_eq_True if_False)
  also have "\<dots> = ?x" unfolding div rhe_of_int using j by simp
  finally show ?thesis .
qed

lemma rnd_sig_0 [simp]: "rnd_sig b p 0 = 0"
  by (simp add: rnd_sig_def)

lemma rnd_sig_minus: "rnd_sig b p (- x) = - rnd_sig b p x"
  by (simp add: rnd_sig_def Let_def rhe_minus)

lemma rnd_sig_exact:
  assumes "2 \<le> b" and "0 < p" and "\<bar>k\<bar> \<le> int b ^ p"
  shows "rnd_sig b p (of_int k * bpow b q) = of_int k * bpow b q"
proof (cases k "0 :: int" rule: linorder_cases)
  case less
  then have "rnd_sig b p (of_int (- k) * bpow b q) = of_int (- k) * bpow b q"
    using assms by (intro rnd_sig_exact_pos) auto
  then show ?thesis using rnd_sig_minus [of b p "of_int k * bpow b q"] by simp
next
  case equal
  then show ?thesis by simp
next
  case greater
  then show ?thesis using assms by (intro rnd_sig_exact_pos) auto
qed

text \<open>A rounded value has at most \<open>p\<close> digits, and it lies between the powers around the value.\<close>

lemma rnd_sig_pos_bounds:
  assumes b: "2 \<le> b" and p: "0 < p" and x: "0 < x"
  defines "e \<equiv> flog b x"
  shows "bpow b e \<le> rnd_sig b p x" and "rnd_sig b p x \<le> bpow b (e + 1)"
    and "\<exists>k. rnd_sig b p x = of_int k * bpow b (e - int p + 1) \<and> 0 < k \<and> k \<le> int b ^ p"
proof -
  define u where "u = bpow b (e - int p + 1)"
  have b0: "0 < b" using b by simp
  have u: "0 < u" unfolding u_def by (rule bpow_pos [OF b0])
  have r: "rnd_sig b p x = of_int (rhe (x / u)) * u"
    using x by (simp add: rnd_sig_def Let_def u_def e_def)
  have lo: "bpow b e = of_int (int b ^ (p - 1)) * u"
    using p bpow_add [OF b0, of "int (p - 1)" "e - int p + 1"]
    by (simp add: u_def bpow_pred)
  have hi: "bpow b (e + 1) = of_int (int b ^ p) * u"
    using bpow_add [OF b0, of "int p" "e - int p + 1"] by (simp add: u_def bpow_of_nat algebra_simps)
  from flog_bounds [OF b x] have *: "of_int (int b ^ (p - 1)) \<le> x / u" "x / u \<le> of_int (int b ^ p)"
    using u lo hi by (simp_all add: e_def field_simps)
  have k: "int b ^ (p - 1) \<le> rhe (x / u)" "rhe (x / u) \<le> int b ^ p"
    using rhe_mono [OF *(1)] rhe_mono [OF *(2)] by (simp_all only: rhe_of_int)
  then show "bpow b e \<le> rnd_sig b p x" "rnd_sig b p x \<le> bpow b (e + 1)"
    unfolding r lo hi using u by (simp_all only: of_int_le_iff mult_le_cancel_right_pos)
  have "0 < int b ^ (p - 1)" using b0 by simp
  with k have "0 < rhe (x / u)" by linarith
  with k r show "\<exists>k. rnd_sig b p x = of_int k * bpow b (e - int p + 1) \<and> 0 < k \<and> k \<le> int b ^ p"
    by (intro exI [of _ "rhe (x / u)"]) (auto simp: u_def)
qed

lemma rnd_sig_mono_pos:
  assumes b: "2 \<le> b" and p: "0 < p" and x: "0 < x" "x \<le> y"
  shows "rnd_sig b p x \<le> rnd_sig b p y"
proof (cases "flog b x = flog b y")
  case True
  define u where "u = bpow b (flog b y - int p + 1)"
  have u: "0 < u" unfolding u_def using b by (intro bpow_pos) simp
  have "x / u \<le> y / u" using x(2) u by (simp add: divide_right_mono)
  then have "rhe (x / u) \<le> rhe (y / u)" by (rule rhe_mono)
  with True x u show ?thesis by (simp add: rnd_sig_def Let_def flip: u_def)
next
  case False
  with flog_mono [OF b x] have "flog b x + 1 \<le> flog b y" by simp
  then have "bpow b (flog b x + 1) \<le> bpow b (flog b y)" using b by (intro bpow_le) auto
  moreover have "0 < y" using x by simp
  ultimately show ?thesis
    using rnd_sig_pos_bounds(2) [OF b p x(1)] rnd_sig_pos_bounds(1) [OF b p, of y] by linarith
qed

lemma rnd_sig_nonneg: "2 \<le> b \<Longrightarrow> 0 < p \<Longrightarrow> 0 \<le> x \<Longrightarrow> 0 \<le> rnd_sig b p x"
  using rnd_sig_pos_bounds(1) [of b p x] bpow_pos [of b "flog b x"] by (cases "x = 0") fastforce+

lemma rnd_sig_mono:
  assumes b: "2 \<le> b" and p: "0 < p" and le: "x \<le> y"
  shows "rnd_sig b p x \<le> rnd_sig b p y"
proof -
  consider "0 < x" | "x \<le> 0" "0 \<le> y" | "y < 0" using le by linarith
  then show ?thesis
  proof cases
    case 1
    with assms show ?thesis by (intro rnd_sig_mono_pos)
  next
    case 2
    have "rnd_sig b p x \<le> 0"
      using rnd_sig_nonneg [OF b p, of "- x"] 2(1) by (simp add: rnd_sig_minus)
    with rnd_sig_nonneg [OF b p 2(2)] show ?thesis by linarith
  next
    case 3
    with le have "rnd_sig b p (- y) \<le> rnd_sig b p (- x)" by (intro rnd_sig_mono_pos [OF b p]) auto
    then show ?thesis by (simp add: rnd_sig_minus)
  qed
qed

lemma rnd_sig_idem:
  assumes b: "2 \<le> b" and p: "0 < p"
  shows "rnd_sig b p (rnd_sig b p x) = rnd_sig b p x"
proof -
  have pos: "rnd_sig b p (rnd_sig b p x) = rnd_sig b p x" if "0 < x" for x
    using rnd_sig_pos_bounds(3) [OF b p that] rnd_sig_exact [OF b p] by fastforce
  show ?thesis
  proof (cases x "0 :: rat" rule: linorder_cases)
    case less
    then have "rnd_sig b p (rnd_sig b p (- x)) = rnd_sig b p (- x)" by (intro pos) simp
    then show ?thesis by (simp add: rnd_sig_minus)
  next
    case equal
    then show ?thesis by simp
  next
    case greater
    then show ?thesis by (rule pos)
  qed
qed

text \<open>The interface the components rely on.\<close>

locale rounding =
  fixes rnd :: "rat \<Rightarrow> rat"
  assumes rnd_mono: "x \<le> y \<Longrightarrow> rnd x \<le> rnd y"
    and rnd_zero: "rnd 0 = 0"
    and rnd_minus: "rnd (- x) = - rnd x"
    and rnd_idem: "rnd (rnd x) = rnd x"
begin

lemma rnd_nonneg: "0 \<le> x \<Longrightarrow> 0 \<le> rnd x"
  using rnd_mono [of 0 x] by (simp add: rnd_zero)

lemma rnd_nonpos: "x \<le> 0 \<Longrightarrow> rnd x \<le> 0"
  using rnd_mono [of x 0] by (simp add: rnd_zero)

lemma rnd_pos_imp: "0 < rnd x \<Longrightarrow> 0 < x"
  using rnd_nonpos [of x] by linarith

lemma rnd_le_exact: "x \<le> y \<Longrightarrow> rnd y = y \<Longrightarrow> rnd x \<le> y"
  using rnd_mono [of x y] by simp

lemma rnd_ge_exact: "y \<le> x \<Longrightarrow> rnd y = y \<Longrightarrow> y \<le> rnd x"
  using rnd_mono [of y x] by simp

lemma rnd_less_cancel: "rnd x < rnd y \<Longrightarrow> x < y"
  using rnd_mono [of y x] by linarith

lemma rnd_mult_le:
  "0 \<le> x \<Longrightarrow> c \<le> 1 \<Longrightarrow> rnd x = x \<Longrightarrow> rnd (x * c) \<le> x"
  by (rule rnd_le_exact) (simp_all add: mult_left_le)

end


section \<open>Decimal\<close>

text \<open>
  \<open>Dec x\<close> is a \<open>Decimal\<close> of value \<open>x\<close>. A literal may have any number of digits, the
  operations round their result. Comparison is exact.
\<close>

definition rnd_dec :: "rat \<Rightarrow> rat" where
  "rnd_dec = rnd_sig 10 28"

definition rnd_flt :: "rat \<Rightarrow> rat" where
  "rnd_flt = rnd_sig 2 53"

interpretation dec: rounding rnd_dec
  by unfold_locales (simp_all add: rnd_dec_def rnd_sig_mono rnd_sig_minus rnd_sig_idem)

interpretation flt: rounding rnd_flt
  by unfold_locales (simp_all add: rnd_flt_def rnd_sig_mono rnd_sig_minus rnd_sig_idem)

datatype dec = Dec (dval: rat)

datatype flt = Flt (fval: rat)

instantiation dec :: "{zero, one, plus, minus, uminus, times, inverse, linorder}"
begin

definition "0 = Dec 0"
definition "1 = Dec 1"
definition "a + b = Dec (rnd_dec (dval a + dval b))"
definition "a - b = Dec (rnd_dec (dval a - dval b))"
definition "- a = Dec (rnd_dec (- dval a))"
definition "a * b = Dec (rnd_dec (dval a * dval b))"
definition "a div b = Dec (rnd_dec (dval a / dval b))"
definition "inverse (a :: dec) = Dec (rnd_dec (1 / dval a))"
definition "a \<le> b \<longleftrightarrow> dval a \<le> dval b"
definition "a < b \<longleftrightarrow> dval a < dval b"

instance
  by standard (auto simp: less_eq_dec_def less_dec_def dec.expand)

end

instantiation flt :: "{zero, one, plus, minus, uminus, times, inverse, linorder}"
begin

definition "0 = Flt 0"
definition "1 = Flt 1"
definition "a + b = Flt (rnd_flt (fval a + fval b))"
definition "a - b = Flt (rnd_flt (fval a - fval b))"
definition "- a = Flt (- fval a)"
definition "a * b = Flt (rnd_flt (fval a * fval b))"
definition "a div b = Flt (rnd_flt (fval a / fval b))"
definition "inverse (a :: flt) = Flt (rnd_flt (1 / fval a))"
definition "a \<le> b \<longleftrightarrow> fval a \<le> fval b"
definition "a < b \<longleftrightarrow> fval a < fval b"

instance
  by standard (auto simp: less_eq_flt_def less_flt_def flt.expand)

end

lemma dval_simps [simp]:
  "dval 0 = 0" "dval 1 = 1"
  "dval (a + b) = rnd_dec (dval a + dval b)"
  "dval (a - b) = rnd_dec (dval a - dval b)"
  "dval (- a) = rnd_dec (- dval a)"
  "dval (a * b) = rnd_dec (dval a * dval b)"
  "dval (a / b) = rnd_dec (dval a / dval b)"
  by (simp_all add: zero_dec_def one_dec_def plus_dec_def minus_dec_def uminus_dec_def
      times_dec_def divide_dec_def)

lemma fval_simps [simp]:
  "fval 0 = 0" "fval 1 = 1"
  "fval (a + b) = rnd_flt (fval a + fval b)"
  "fval (a - b) = rnd_flt (fval a - fval b)"
  "fval (- a) = - fval a"
  "fval (a * b) = rnd_flt (fval a * fval b)"
  "fval (a / b) = rnd_flt (fval a / fval b)"
  by (simp_all add: zero_flt_def one_flt_def plus_flt_def minus_flt_def uminus_flt_def
      times_flt_def divide_flt_def)

lemmas dec_order [simp] = less_eq_dec_def less_dec_def
lemmas flt_order [simp] = less_eq_flt_def less_flt_def

lemma dec_eq_iff: "a = b \<longleftrightarrow> dval a = dval b"
  by (cases a; cases b) simp

lemma flt_eq_iff: "a = b \<longleftrightarrow> fval a = fval b"
  by (cases a; cases b) simp

lemma dval_min [simp]: "dval (min a b) = min (dval a) (dval b)"
  by (simp add: min_def)

lemma dval_max [simp]: "dval (max a b) = max (dval a) (dval b)"
  by (simp add: max_def)

lemma fval_min [simp]: "fval (min a b) = min (fval a) (fval b)"
  by (simp add: min_def)

lemma fval_max [simp]: "fval (max a b) = max (fval a) (fval b)"
  by (simp add: max_def)

text \<open>
  Values with at most \<open>s\<close> decimal places. A sum or difference of two of them is again one, and it
  is computed exactly while it has at most 28 digits.
\<close>

definition on_grid :: "nat \<Rightarrow> rat \<Rightarrow> bool" where
  "on_grid s x \<longleftrightarrow> x * 10 ^ s \<in> \<int>"

lemma on_grid_0 [simp]: "on_grid s 0"
  by (simp add: on_grid_def)

lemma on_grid_add [intro]: "on_grid s x \<Longrightarrow> on_grid s y \<Longrightarrow> on_grid s (x + y)"
  by (simp add: on_grid_def distrib_right)

lemma on_grid_diff [intro]: "on_grid s x \<Longrightarrow> on_grid s y \<Longrightarrow> on_grid s (x - y)"
  by (simp add: on_grid_def left_diff_distrib)

lemma on_grid_minus [intro]: "on_grid s x \<Longrightarrow> on_grid s (- x)"
  by (simp add: on_grid_def)

lemma on_grid_of_int [intro]: "on_grid s (of_int k / 10 ^ s)"
  by (simp add: on_grid_def)

lemma rnd_dec_exact [numeric]:
  assumes "on_grid s x" and "\<bar>x\<bar> \<le> 10 ^ 28 / 10 ^ s"
  shows "rnd_dec x = x"
proof -
  obtain k where k: "x * 10 ^ s = of_int k" using assms(1) by (auto simp: on_grid_def elim: Ints_cases)
  have s: "(0::rat) < 10 ^ s" by simp
  have "bpow 10 (- int s) = 1 / 10 ^ s" by (cases "s = 0") (simp_all add: bpow_def)
  then have x: "x = of_int k * bpow 10 (- int s)" unfolding k [symmetric] using s by simp
  have "\<bar>x * 10 ^ s\<bar> \<le> 10 ^ 28" using assms(2) s by (simp add: abs_mult field_simps)
  then have "of_int \<bar>k\<bar> \<le> (of_int (10 ^ 28) :: rat)" unfolding k by simp
  then have "\<bar>k\<bar> \<le> 10 ^ 28" by (simp only: of_int_le_iff)
  then have "\<bar>k\<bar> \<le> int 10 ^ 28" by simp
  then show ?thesis unfolding x rnd_dec_def by (intro rnd_sig_exact) simp_all
qed

lemma rnd_dec_grid_0 [numeric]: "x \<in> \<int> \<Longrightarrow> \<bar>x\<bar> \<le> 10 ^ 28 \<Longrightarrow> rnd_dec x = x"
  using rnd_dec_exact [of 0 x] by (simp add: on_grid_def)


section \<open>Quantizing\<close>

text \<open>
  \<open>Decimal.quantize\<close> to a number of decimal places, in the rounding modes the code uses. It
  raises \<open>InvalidOperation\<close> when the result would need more than 28 digits. A negative number of
  places rounds to tens, hundreds and so on, as \<open>Decimal("1").scaleb(-places)\<close> does.
\<close>

datatype rounding_mode = ROUND_DOWN | ROUND_UP | ROUND_HALF_EVEN

definition trunc :: "rat \<Rightarrow> int" where
  "trunc x = (if 0 \<le> x then \<lfloor>x\<rfloor> else \<lceil>x\<rceil>)"

definition away :: "rat \<Rightarrow> int" where
  "away x = (if 0 \<le> x then \<lceil>x\<rceil> else \<lfloor>x\<rfloor>)"

fun to_int :: "rounding_mode \<Rightarrow> rat \<Rightarrow> int" where
  "to_int ROUND_DOWN x = trunc x"
| "to_int ROUND_UP x = away x"
| "to_int ROUND_HALF_EVEN x = rhe x"

definition quantize :: "dec \<Rightarrow> int \<Rightarrow> rounding_mode \<Rightarrow> dec result" where
  "quantize a places mode =
     (let k = to_int mode (dval a * bpow 10 places)
      in if \<bar>k\<bar> < 10 ^ 28 then Inr (Dec (of_int k / bpow 10 places)) else Inl InvalidOperation)"

lemma bpow10_pos [simp]: "0 < bpow 10 e"
  by (simp add: bpow_pos)

lemma bpow10_nonneg [simp]: "0 \<le> bpow 10 e"
  by (rule less_imp_le) simp

lemma bpow10_nz [simp]: "bpow 10 e \<noteq> 0"
  using bpow10_pos [of e] by linarith

lemma quantize_Inr:
  "quantize a places mode = Inr b \<Longrightarrow>
   dval b * bpow 10 places = of_int (to_int mode (dval a * bpow 10 places))"
  by (auto simp: quantize_def Let_def split: if_splits)

lemma quantize_down:
  assumes "quantize a places ROUND_DOWN = Inr b" and "0 \<le> dval a"
  shows "0 \<le> dval b" and "dval b \<le> dval a" and "dval a < dval b + 1 / bpow 10 places"
proof -
  let ?u = "bpow 10 places"
  have k: "dval b * ?u = of_int \<lfloor>dval a * ?u\<rfloor>"
    using quantize_Inr [OF assms(1)] assms(2) bpow10_pos [of places] by (simp add: trunc_def)
  have "0 \<le> dval a * ?u" using assms(2) bpow10_pos [of places] by (intro mult_nonneg_nonneg) auto
  then have "0 \<le> dval b * ?u" "dval b * ?u \<le> dval a * ?u" "dval a * ?u < dval b * ?u + 1"
    unfolding k by simp_all linarith+
  then show "0 \<le> dval b" "dval b \<le> dval a" "dval a < dval b + 1 / ?u"
    using bpow10_pos [of places] by (simp_all add: zero_le_mult_iff field_simps)
qed

lemma quantize_up:
  assumes "quantize a places ROUND_UP = Inr b" and "0 \<le> dval a"
  shows "dval a \<le> dval b" and "dval b < dval a + 1 / bpow 10 places"
proof -
  let ?u = "bpow 10 places"
  have k: "dval b * ?u = of_int \<lceil>dval a * ?u\<rceil>"
    using quantize_Inr [OF assms(1)] assms(2) bpow10_pos [of places] by (simp add: away_def)
  have "dval a * ?u \<le> dval b * ?u" "dval b * ?u < dval a * ?u + 1"
    unfolding k by linarith+
  then show "dval a \<le> dval b" "dval b < dval a + 1 / ?u"
    using bpow10_pos [of places] by (simp_all add: field_simps)
qed

lemma quantize_half_even:
  assumes "quantize a places ROUND_HALF_EVEN = Inr b"
  shows "\<bar>dval b - dval a\<bar> \<le> 1 / (2 * bpow 10 places)"
proof -
  let ?u = "bpow 10 places"
  have "\<bar>dval b * ?u - dval a * ?u\<bar> \<le> 1 / 2"
    using quantize_Inr [OF assms] rhe_close [of "dval a * ?u"] by simp
  then have "\<bar>dval b - dval a\<bar> * ?u \<le> 1 / 2"
    using bpow10_pos [of places] by (simp add: abs_mult flip: left_diff_distrib)
  then show ?thesis using bpow10_pos [of places] by (simp add: field_simps)
qed

lemma quantize_multiple:
  "quantize a places mode = Inr b \<Longrightarrow> dval b * bpow 10 places \<in> \<int>"
  by (simp add: quantize_Inr)

section \<open>Conversions between the two types\<close>

text \<open>
  \<open>float(d)\<close> rounds a \<open>Decimal\<close> to a float. \<open>str(x)\<close> of a float is the shortest decimal numeral
  that reads back as \<open>x\<close> (the nearer one if there are two of that length); \<open>Decimal(str(x))\<close> is
  its value. At most 17 digits are needed.
\<close>

definition float_of :: "dec \<Rightarrow> flt" where
  "float_of d = Flt (rnd_flt (dval d))"

text \<open>A float literal: the double nearest to the number written.\<close>

definition flit :: "rat \<Rightarrow> flt" where
  "flit x = Flt (rnd_flt x)"

definition repr_at :: "nat \<Rightarrow> rat \<Rightarrow> rat list" where
  "repr_at n x =
     (let u = bpow 10 (flog 10 x - int n + 1); k = \<lfloor>x / u\<rfloor>;
          cs = filter (\<lambda>c. rnd_flt c = x) [of_int k * u, of_int (k + 1) * u]
      in case cs of [c, d] \<Rightarrow> [if x - c \<le> d - x then c else d] | _ \<Rightarrow> cs)"

fun repr_from :: "nat \<Rightarrow> nat \<Rightarrow> rat \<Rightarrow> rat" where
  "repr_from 0 n x = x"
| "repr_from (Suc m) n x = (case repr_at n x of [] \<Rightarrow> repr_from m (Suc n) x | c # _ \<Rightarrow> c)"

definition repr_pos :: "rat \<Rightarrow> rat" where
  "repr_pos x = repr_from 17 1 x"

definition dec_of_float :: "flt \<Rightarrow> dec" where
  "dec_of_float f =
     (if fval f = 0 then 0
      else if 0 < fval f then Dec (repr_pos (fval f)) else Dec (- repr_pos (- fval f)))"

definition is_float :: "flt \<Rightarrow> bool" where
  "is_float f \<longleftrightarrow> rnd_flt (fval f) = fval f"

lemma repr_at_reads_back: "c \<in> set (repr_at n x) \<Longrightarrow> rnd_flt c = x"
proof -
  define cs where "cs = filter (\<lambda>c. rnd_flt c = x)
    [of_int \<lfloor>x / bpow 10 (flog 10 x - int n + 1)\<rfloor> * bpow 10 (flog 10 x - int n + 1),
     of_int (\<lfloor>x / bpow 10 (flog 10 x - int n + 1)\<rfloor> + 1) * bpow 10 (flog 10 x - int n + 1)]"
  have cs: "\<forall>c \<in> set cs. rnd_flt c = x" unfolding cs_def by simp
  have "repr_at n x = (case cs of [c, d] \<Rightarrow> [if x - c \<le> d - x then c else d] | _ \<Rightarrow> cs)"
    by (simp only: repr_at_def Let_def cs_def)
  then have "set (repr_at n x) \<subseteq> set cs" by (auto split: list.splits)
  with cs show "c \<in> set (repr_at n x) \<Longrightarrow> rnd_flt c = x" by blast
qed

lemma repr_from_reads_back: "rnd_flt x = x \<Longrightarrow> rnd_flt (repr_from m n x) = x"
proof (induction m arbitrary: n)
  case 0
  then show ?case by simp
next
  case (Suc m)
  then show ?case using repr_at_reads_back [of _ n x] by (cases "repr_at n x") auto
qed

lemma repr_pos_reads_back: "rnd_flt x = x \<Longrightarrow> rnd_flt (repr_pos x) = x"
  by (simp add: repr_pos_def repr_from_reads_back)

lemma float_dec_roundtrip:
  "is_float f \<Longrightarrow> float_of (dec_of_float f) = f"
  using repr_pos_reads_back [of "fval f"] repr_pos_reads_back [of "- fval f"]
  by (auto simp: is_float_def float_of_def dec_of_float_def flt_eq_iff flt.rnd_zero flt.rnd_minus)

text \<open>So the conversion keeps sign and order.\<close>

lemma dec_of_float_mono:
  assumes "is_float f" and "is_float g" and "fval f < fval g"
  shows "dval (dec_of_float f) < dval (dec_of_float g)"
proof (rule ccontr)
  assume "\<not> ?thesis"
  then have "rnd_flt (dval (dec_of_float g)) \<le> rnd_flt (dval (dec_of_float f))"
    by (intro flt.rnd_mono) simp
  with float_dec_roundtrip [OF assms(1)] float_dec_roundtrip [OF assms(2)] assms(3) show False
    by (simp add: float_of_def flt_eq_iff)
qed

lemma dec_of_float_0 [simp]: "dec_of_float (Flt 0) = 0"
  by (simp add: dec_of_float_def)

lemma is_float_0 [simp]: "is_float (Flt 0)"
  by (simp add: is_float_def flt.rnd_zero)

lemma dec_of_float_pos: "is_float f \<Longrightarrow> 0 < fval f \<Longrightarrow> 0 < dval (dec_of_float f)"
  using dec_of_float_mono [of "Flt 0" f] by simp

lemma dec_of_float_nonneg: "is_float f \<Longrightarrow> 0 \<le> fval f \<Longrightarrow> 0 \<le> dval (dec_of_float f)"
  using dec_of_float_pos [of f] by (cases "fval f = 0") (auto simp: dec_of_float_def)

lemma float_of_is_float [simp]: "is_float (float_of d)"
  by (simp add: is_float_def float_of_def flt.rnd_idem)

lemma flit_is_float [simp]: "is_float (flit x)"
  by (simp add: is_float_def flit_def flt.rnd_idem)

lemma flit_mono: "x \<le> y \<Longrightarrow> flit x \<le> flit y"
  by (simp add: flit_def flt.rnd_mono)

lemma float_op_is_float [simp]:
  "is_float (a + b)" "is_float (a - b)" "is_float (a * b)" "is_float (a / b)" for a b :: flt
  by (simp_all add: is_float_def flt.rnd_idem)

text \<open>Nothing positive rounds to zero (there is no underflow in the model).\<close>

lemma rnd_pos: "0 < x \<Longrightarrow> 0 < rnd_dec x" "0 < x \<Longrightarrow> 0 < rnd_flt x"
  unfolding rnd_dec_def rnd_flt_def
  by (rule less_le_trans [OF bpow_pos rnd_sig_pos_bounds(1)]; simp)+

lemma flit_pos: "0 < x \<Longrightarrow> 0 < fval (flit x)"
  by (simp add: flit_def rnd_pos)

text \<open>A decimal that fits the context: every result of an operation is one.\<close>

definition is_dec :: "dec \<Rightarrow> bool" where
  "is_dec d \<longleftrightarrow> rnd_dec (dval d) = dval d"

lemma is_dec_op [simp]:
  "is_dec (a + b)" "is_dec (a - b)" "is_dec (a * b)" "is_dec (a / b)" for a b :: dec
  by (simp_all add: is_dec_def dec.rnd_idem)

lemma is_dec_0 [simp]: "is_dec 0"
  by (simp add: is_dec_def dec.rnd_zero)

lemma is_dec_min [simp]: "is_dec a \<Longrightarrow> is_dec b \<Longrightarrow> is_dec (min a b)"
  by (simp add: min_def)

lemma dec_mult_le:
  "is_dec a \<Longrightarrow> 0 \<le> dval a \<Longrightarrow> dval c \<le> 1 \<Longrightarrow> dval (a * c) \<le> dval a"
  by (simp add: is_dec_def dec.rnd_mult_le)

lemma dec_mult_nonneg: "0 \<le> dval a \<Longrightarrow> 0 \<le> dval b \<Longrightarrow> 0 \<le> dval (a * b)"
  by (simp add: dec.rnd_nonneg)

lemma rnd_dec_nonneg_imp: "0 \<le> rnd_dec x \<Longrightarrow> 0 \<le> x"
  using rnd_pos(1) [of "- x"] dec.rnd_minus [of x] by linarith

lemma dec_add_ge: "is_dec a \<Longrightarrow> 0 \<le> dval b \<Longrightarrow> dval a \<le> dval (a + b)"
  using dec.rnd_ge_exact [of "dval a" "dval a + dval b"] by (simp add: is_dec_def)

lemma dec_diff_le: "is_dec a \<Longrightarrow> 0 \<le> dval b \<Longrightarrow> dval (a - b) \<le> dval a"
  using dec.rnd_le_exact [of "dval a - dval b" "dval a"] by (simp add: is_dec_def)

lemma dec_mult_ge:
  assumes "is_dec a" and "0 \<le> dval a" and "1 \<le> dval c"
  shows "dval a \<le> dval (a * c)"
  using dec.rnd_ge_exact [of "dval a" "dval a * dval c"] mult_left_mono [OF assms(3,2)] assms(1)
  by (simp add: is_dec_def)

lemma dec_div_mono:
  "0 < dval p \<Longrightarrow> dval a \<le> dval b \<Longrightarrow> dval (a / p) \<le> dval (b / p)"
  by (simp add: dec.rnd_mono divide_right_mono)

lemma dec_div_pos_imp: "0 < dval p \<Longrightarrow> 0 < dval (a / p) \<Longrightarrow> 0 < dval a"
  using dec.rnd_pos_imp [of "dval a / dval p"] by (simp add: zero_less_divide_iff)

text \<open>Some literals that examples use.\<close>

lemma rnd_flt_dyadic:
  "x = of_int k * bpow 2 e \<Longrightarrow> \<bar>k\<bar> \<le> 2 ^ 53 \<Longrightarrow> rnd_flt x = x"
  using rnd_sig_exact [of 2 53 k e] by (simp add: rnd_flt_def)

lemma rnd_flt_literals [simp]: "rnd_flt 0 = 0" "rnd_flt 1 = 1" "rnd_flt (1/2) = 1/2" "rnd_flt (1/4) = 1/4"
  using rnd_flt_dyadic [of 1 1 0] rnd_flt_dyadic [of "1/2" 1 "- 1"] rnd_flt_dyadic [of "1/4" 1 "- 2"]
  by (simp_all add: flt.rnd_zero bpow_def)

lemma dec_of_float_literals [simp]:
  "dec_of_float 0 = 0" "dec_of_float 1 = Dec 1"
  "dec_of_float (Flt (1/2)) = Dec (1/2)" "dec_of_float (Flt (1/4)) = Dec (1/4)"
  by (simp add: zero_flt_def) code_simp+

lemma rnd_dec_numerals [simp]:
  "rnd_dec 0 = 0" "rnd_dec 1 = 1" "n < 10 ^ 28 \<Longrightarrow> rnd_dec (of_nat n) = of_nat n"
  by (simp_all add: rnd_dec_grid_0)

lemma is_dec_1 [simp]: "is_dec 1"
  by (simp add: is_dec_def)

lemma dec_of_float_le_1:
  assumes "is_float f" and "fval f \<le> 1"
  shows "dval (dec_of_float f) \<le> 1"
proof -
  have one: "is_float (Flt 1)" by (simp add: is_float_def)
  have v: "dec_of_float (Flt 1) = Dec 1" using dec_of_float_literals(2) by (simp add: one_flt_def)
  show ?thesis
  proof (cases "fval f = 1")
    case True
    then have "f = Flt 1" by (cases f) simp
    with v show ?thesis by simp
  next
    case False
    with assms dec_of_float_mono [OF assms(1) one] v show ?thesis by simp
  qed
qed

lemma rnd_flt_int: "\<bar>k\<bar> \<le> 2 ^ 53 \<Longrightarrow> rnd_flt (of_int k) = of_int k"
  using rnd_flt_dyadic [of "of_int k" k 0] by simp

lemma rnd_dec_int: "\<bar>i\<bar> \<le> 10 ^ 28 \<Longrightarrow> rnd_dec (of_int i) = of_int i"
  by (rule rnd_dec_grid_0) (simp_all flip: of_int_abs)

lemma rnd_flt_dyadics: "rnd_flt (1/256) = 1/256" "rnd_flt (11/128) = 11/128" "rnd_flt (5/64) = 5/64"
  "rnd_flt (23/256) = 23/256" "rnd_flt (23/512) = 23/512" "rnd_flt (1/16) = 1/16" "rnd_flt (1/32) = 1/32"
  using rnd_flt_dyadic [of "1/256" 1 "- 8"] rnd_flt_dyadic [of "11/128" 11 "- 7"] rnd_flt_dyadic [of "5/64" 5 "- 6"]
    rnd_flt_dyadic [of "23/256" 23 "- 8"] rnd_flt_dyadic [of "23/512" 23 "- 9"] rnd_flt_dyadic [of "1/16" 1 "- 4"]
    rnd_flt_dyadic [of "1/32" 1 "- 5"]
  by (simp_all add: bpow_def)

lemma quantize_int: "\<bar>i\<bar> < 10 ^ 20 \<Longrightarrow> quantize (Dec (of_int i)) 8 m = Inr (Dec (of_int i))"
proof -
  assume i: "\<bar>i\<bar> < 10 ^ 20"
  have b: "bpow 10 8 = of_int (10 ^ 8)" using bpow_of_nat [of 10 8] by simp
  have t: "to_int m (of_int k) = k" for k by (cases m) (simp_all add: trunc_def away_def)
  have "to_int m (of_int i * 100000000) = i * 100000000" using t [of "i * 100000000"] by simp
  moreover have "\<bar>i * 100000000\<bar> < 10 ^ 28" using i by (simp add: abs_mult)
  ultimately show ?thesis by (simp add: quantize_def Let_def b)
qed

section \<open>Decimal numerals\<close>

text \<open>
  \<open>Decimal(s)\<close> of a string: an optional sign, digits with an optional point, an optional exponent. The
  value is exact. Anything else raises \<open>InvalidOperation\<close> (the special values \<open>NaN\<close> and \<open>Infinity\<close>,
  which the constructor also reads, are no values of the model).
\<close>

definition digit_val :: "char \<Rightarrow> nat option" where
  "digit_val c = (let n = of_char c in if 48 \<le> n \<and> n \<le> (57 :: nat) then Some (n - 48) else None)"

fun digits_val :: "nat \<Rightarrow> string \<Rightarrow> nat" where
  "digits_val acc [] = acc"
| "digits_val acc (c # cs) = digits_val (10 * acc + the (digit_val c)) cs"

definition span_digits :: "string \<Rightarrow> string \<times> string" where
  "span_digits s = (takeWhile (\<lambda>c. digit_val c \<noteq> None) s, dropWhile (\<lambda>c. digit_val c \<noteq> None) s)"

definition strip_sign :: "string \<Rightarrow> int \<times> string" where
  "strip_sign s =
     (case s of
        CHR ''-'' # t \<Rightarrow> (- 1, t)
      | CHR ''+'' # t \<Rightarrow> (1, t)
      | _ \<Rightarrow> (1, s))"

definition exponent_of :: "string \<Rightarrow> int option" where
  "exponent_of s =
     (case s of
        [] \<Rightarrow> Some 0
      | c # t \<Rightarrow>
          if c \<in> {CHR ''e'', CHR ''E''}
          then let (g, u) = strip_sign t; (d, rest) = span_digits u
               in if d \<noteq> [] \<and> rest = [] then Some (g * int (digits_val 0 d)) else None
          else None)"

definition decimal_of_string :: "string \<Rightarrow> dec result" where
  "decimal_of_string s =
     (let (g, r) = strip_sign s;
          (ip, r1) = span_digits r;
          (fp, r2) = (case r1 of CHR ''.'' # t \<Rightarrow> span_digits t | _ \<Rightarrow> ([], r1))
      in if ip = [] \<and> fp = [] then Inl InvalidOperation
         else case exponent_of r2 of
                None \<Rightarrow> Inl InvalidOperation
              | Some e \<Rightarrow> Inr (Dec (of_int g * of_nat (digits_val 0 (ip @ fp)) * bpow 10 (e - int (length fp)))))"

end
