(* ===== verification/Core_Types.thy ===== *)
theory Core_Types
  imports Py_Numbers
begin

text \<open>
  The shared domain types of \<open>sgr/core/types.py\<close>: enumerations as datatypes, value objects as
  records. Identifiers (UUIDs) are natural numbers, a point in time is its number of microseconds
  (the resolution of \<open>datetime\<close>), and the clock is an argument of every operation that reads it.
  A dictionary of type \<open>dict[str, Any]\<close> maps names to the values of \<open>pyval\<close>.
\<close>

section \<open>Enumerations\<close>

datatype trading_mode = PAPER | LIVE

datatype exchange_id = BINANCE | PIONEX | BYBIT | OKX | KRAKEN

datatype margin_mode = CROSS | ISOLATED

datatype grid_direction = GRID_LONG | GRID_SHORT | GRID_NEUTRAL

datatype grid_spacing_mode = ARITHMETIC | GEOMETRIC

datatype grid_status = GRID_PENDING | GRID_ACTIVE | GRID_PAUSED | GRID_CLOSING | GRID_CLOSED | GRID_ERROR

datatype side = BUY | SELL

datatype order_type = MARKET | LIMIT | STOP_MARKET | STOP_LIMIT | TAKE_PROFIT_MARKET | TWAP

datatype order_status =
  PENDING | SUBMITTED | PARTIALLY_FILLED | FILLED | CANCELLED | REJECTED | EXPIRED

datatype position_side = LONG | SHORT | FLAT

datatype market_regime =
  TRENDING_UP | TRENDING_DOWN | RANGING | BREAKOUT | HIGH_VOLATILITY | LOW_VOLATILITY | CRISIS
| UNKNOWN_REGIME

datatype signal_direction = SIG_LONG | SIG_SHORT | SIG_CLOSE | SIG_NEUTRAL

datatype risk_decision = APPROVED | RISK_REJECTED | REDUCED

fun exchange_value :: "exchange_id \<Rightarrow> string" where
  "exchange_value BINANCE = ''binance''"
| "exchange_value PIONEX = ''pionex''"
| "exchange_value BYBIT = ''bybit''"
| "exchange_value OKX = ''okx''"
| "exchange_value KRAKEN = ''kraken''"

fun regime_value :: "market_regime \<Rightarrow> string" where
  "regime_value TRENDING_UP = ''trending_up''"
| "regime_value TRENDING_DOWN = ''trending_down''"
| "regime_value RANGING = ''ranging''"
| "regime_value BREAKOUT = ''breakout''"
| "regime_value HIGH_VOLATILITY = ''high_volatility''"
| "regime_value LOW_VOLATILITY = ''low_volatility''"
| "regime_value CRISIS = ''crisis''"
| "regime_value UNKNOWN_REGIME = ''unknown''"

definition all_regimes :: "market_regime list" where
  "all_regimes = [TRENDING_UP, TRENDING_DOWN, RANGING, BREAKOUT, HIGH_VOLATILITY, LOW_VOLATILITY, CRISIS,
     UNKNOWN_REGIME]"

text \<open>\<open>MarketRegime(value)\<close>\<close>

definition regime_of_value :: "string \<Rightarrow> market_regime option" where
  "regime_of_value v = find (\<lambda>r. regime_value r = v) all_regimes"

lemma regime_of_value [simp]: "regime_of_value (regime_value r) = Some r"
  by (cases r) (simp_all add: regime_of_value_def all_regimes_def)

section \<open>Values of untyped dictionaries\<close>

datatype pyval =
    PyNone
  | PyBool bool
  | PyStr string
  | PyInt int
  | PyFloat flt
  | PyDec dec
  | PyRegime market_regime

type_synonym py_dict = "(string, pyval) dict"

definition py_get :: "py_dict \<Rightarrow> string \<Rightarrow> pyval \<Rightarrow> pyval" where
  "py_get d k dflt = (case map_of d k of Some v \<Rightarrow> v | None \<Rightarrow> dflt)"

text \<open>Truth of a value, as in \<open>if d.get(k)\<close>.\<close>

fun truthy :: "pyval \<Rightarrow> bool" where
  "truthy PyNone = False"
| "truthy (PyBool b) = b"
| "truthy (PyStr s) = (s \<noteq> [])"
| "truthy (PyInt i) = (i \<noteq> 0)"
| "truthy (PyFloat x) = (fval x \<noteq> 0)"
| "truthy (PyDec d) = (dval d \<noteq> 0)"
| "truthy (PyRegime r) = True"

text \<open>\<open>Decimal(str(v))\<close> of such a value.\<close>

fun decimal_of_pyval :: "pyval \<Rightarrow> dec result" where
  "decimal_of_pyval (PyDec d) = Inr d"
| "decimal_of_pyval (PyInt i) = Inr (Dec (of_int i))"
| "decimal_of_pyval (PyFloat x) = Inr (dec_of_float x)"
| "decimal_of_pyval (PyStr s) = decimal_of_string s"
| "decimal_of_pyval _ = Inl InvalidOperation"

text \<open>\<open>{**d, **e}\<close>: the entries of \<open>e\<close> override those of \<open>d\<close>.\<close>

definition merge_dict :: "py_dict \<Rightarrow> py_dict \<Rightarrow> py_dict" where
  "merge_dict d e = foldl (\<lambda>acc (k, v). AList.update k v acc) d e"

lemma map_of_merge_dict:
  "dict_ok e \<Longrightarrow> map_of (merge_dict d e) k = (case map_of e k of Some v \<Rightarrow> Some v | None \<Rightarrow> map_of d k)"
  unfolding merge_dict_def
proof (induction e arbitrary: d)
  case Nil
  then show ?case by simp
next
  case (Cons x e)
  obtain a b where x: "x = (a, b)" by (cases x)
  with Cons.prems have e: "dict_ok e" "map_of e a = None"
    by (simp_all add: dict_ok_def map_of_eq_None_iff)
  from Cons.IH [OF e(1), of "AList.update a b d"] e(2) show ?case
    by (auto simp: x split: option.splits)
qed

section \<open>Symbols\<close>

datatype asset_class = ASSET_SPOT | ASSET_FUTURES | ASSET_OPTIONS

record symbol =
  base :: string
  quote :: string
  sym_exchange :: exchange_id
  asset :: asset_class

definition ccxt_symbol :: "symbol \<Rightarrow> string" where
  "ccxt_symbol s = base s @ ''/'' @ quote s"

definition symbol_str :: "symbol \<Rightarrow> string" where
  "symbol_str s = base s @ ''/'' @ quote s @ '':'' @ exchange_value (sym_exchange s)"

definition symbol_switch_key :: "symbol \<Rightarrow> string" where
  "symbol_switch_key s = exchange_value (sym_exchange s) @ '':'' @ ccxt_symbol s"

section \<open>Orders, positions, signals\<close>

type_synonym time = int

definition seconds :: "int \<Rightarrow> int" where
  "seconds n = n * 1000000"

record order_request =
  oid :: nat
  signal_id :: nat
  osymbol :: symbol
  oside :: side
  otype :: order_type
  quantity :: dec
  limit_price :: "dec option"
  omode :: trading_mode
  reduce_only :: bool
  metadata :: py_dict

record order_result =
  request_id :: nat
  exchange_order_id :: string
  rsymbol :: symbol
  status :: order_status
  filled_quantity :: dec
  average_fill_price :: "dec option"
  fees :: dec
  submitted_at :: time
  filled_at :: "time option"
  rmode :: trading_mode
  raw_response :: py_dict

record position =
  pid :: nat
  psymbol :: symbol
  pside :: position_side
  pquantity :: dec
  entry_price :: dec
  current_price :: dec
  leverage :: dec
  unrealized_pnl :: dec
  realized_pnl :: dec
  opened_at :: time
  strategy_name :: string
  pmode :: trading_mode
  stop_loss_price :: "dec option"
  take_profit_price :: "dec option"
  max_holding_until :: "time option"
  sl_order_id :: "string option"
  tp_order_id :: "string option"
  entry_regime :: "market_regime option"

definition notional_value :: "position \<Rightarrow> dec" where
  "notional_value p = pquantity p * current_price p"

record signal =
  sid :: nat
  sig_strategy :: string
  sig_symbol :: symbol
  direction :: signal_direction
  confidence :: flt
  size_hint :: flt
  regime :: market_regime
  sig_metadata :: py_dict

text \<open>The statuses after which an order does not change any more.\<close>

definition terminal :: "order_status \<Rightarrow> bool" where
  "terminal s \<longleftrightarrow> s \<in> {FILLED, CANCELLED, REJECTED, EXPIRED}"

lemma terminal_simps [simp]:
  "\<not> terminal PENDING" "\<not> terminal SUBMITTED" "\<not> terminal PARTIALLY_FILLED"
  "terminal FILLED" "terminal CANCELLED" "terminal REJECTED" "terminal EXPIRED"
  by (simp_all add: terminal_def)

end
