(* ===== verification/Symbol_Kill_Switch.thy ===== *)
theory Symbol_Kill_Switch
  imports Core_Types
begin

text \<open>
  \<open>sgr/risk/symbol_kill_switch.py\<close>: the registry that disables single symbols. The repository and
  the deactivation hooks are outside; what is recorded of them is which calls are made, in order.
  The interface its clients (orchestrator and grid controller) rely on is the locale
  \<open>symbol_switch\<close>, discharged here for the registry.
\<close>

section \<open>Registry\<close>

record sks_entry =
  symbol_key :: string
  enabled :: bool
  deactivated_at :: "time option"
  off_reason :: "string option"
  deactivated_by :: "string option"

datatype sks_call = Persist string bool "string option" | Hook nat string string

record sks =
  entries :: "(string, sks_entry) dict"
  has_repo :: bool
  hooks :: nat
  calls :: "sks_call list"

definition new_entry :: "string \<Rightarrow> sks_entry" where
  "new_entry k = \<lparr>symbol_key = k, enabled = True, deactivated_at = None, off_reason = None,
     deactivated_by = None\<rparr>"

definition new_sks :: sks where
  "new_sks = \<lparr>entries = [], has_repo = False, hooks = 0, calls = []\<rparr>"

definition symbol_active :: "sks \<Rightarrow> string \<Rightarrow> bool" where
  "symbol_active s k = (case map_of (entries s) k of Some e \<Rightarrow> enabled e | None \<Rightarrow> True)"

definition get_deactivated :: "sks \<Rightarrow> string list" where
  "get_deactivated s = map fst (filter (\<lambda>(k, e). \<not> enabled e) (entries s))"

definition register_deactivation_hook :: "sks \<Rightarrow> sks" where
  "register_deactivation_hook s = s\<lparr>hooks := Suc (hooks s)\<rparr>"

definition persist_symbol :: "string \<Rightarrow> bool \<Rightarrow> string option \<Rightarrow> sks \<Rightarrow> sks" where
  "persist_symbol k on r s = (if has_repo s then s\<lparr>calls := calls s @ [Persist k on r]\<rparr> else s)"

definition inject_sks_repository :: "sks \<Rightarrow> sks" where
  "inject_sks_repository s = s\<lparr>has_repo := True\<rparr>"

text \<open>One registry per tenant, created on first use.\<close>

definition get_symbol_kill_switch ::
  "(string option, sks) dict \<Rightarrow> string option \<Rightarrow> sks \<times> (string option, sks) dict" where
  "get_symbol_kill_switch reg t =
     (case map_of reg t of
        Some s \<Rightarrow> (s, reg)
      | None \<Rightarrow> (new_sks, AList.update t new_sks reg))"

text \<open>Every hook is called, a failing one is logged and the next one still runs.\<close>

definition deactivate :: "time \<Rightarrow> string \<Rightarrow> string \<Rightarrow> string \<Rightarrow> sks \<Rightarrow> sks" where
  "deactivate now k r by_whom s =
     (let e = (case map_of (entries s) k of Some e \<Rightarrow> e | None \<Rightarrow> new_entry k);
          e' = e\<lparr>enabled := False, deactivated_at := Some now, off_reason := Some r,
                 deactivated_by := Some by_whom\<rparr>;
          s1 = persist_symbol k False (Some r) (s\<lparr>entries := AList.update k e' (entries s)\<rparr>)
      in s1\<lparr>calls := calls s1 @ map (\<lambda>h. Hook h k r) [0..<hooks s1]\<rparr>)"

definition activate :: "string \<Rightarrow> sks \<Rightarrow> sks" where
  "activate k s =
     (case map_of (entries s) k of
        None \<Rightarrow> s
      | Some e \<Rightarrow>
          if enabled e then s
          else persist_symbol k True None
            (s\<lparr>entries := AList.update k (e\<lparr>enabled := True, deactivated_at := None,
                off_reason := None, deactivated_by := None\<rparr>) (entries s)\<rparr>))"

section \<open>Interface\<close>

locale symbol_switch =
  fixes allowed :: "'s \<Rightarrow> string \<Rightarrow> bool"
    and switch_off :: "string \<Rightarrow> 's \<Rightarrow> 's"
    and switch_on :: "string \<Rightarrow> 's \<Rightarrow> 's"
  assumes off: "allowed (switch_off k s) j \<longleftrightarrow> j \<noteq> k \<and> allowed s j"
    and on: "allowed (switch_on k s) j \<longleftrightarrow> j = k \<or> allowed s j"
begin

lemma off_stays_off:
  "\<not> allowed s k \<Longrightarrow> k \<notin> set js \<Longrightarrow> \<not> allowed (fold switch_on js s) k"
  by (induction js arbitrary: s) (simp_all add: on)

lemma fold_off: "allowed (fold switch_off ks s) j \<longleftrightarrow> j \<notin> set ks \<and> allowed s j"
  by (induction ks arbitrary: s) (auto simp: off)

lemma off_on: "allowed (switch_on k (switch_off k s)) j \<longleftrightarrow> j = k \<or> allowed s j"
  by (auto simp: off on)

end

lemma persist_entries [simp]: "entries (persist_symbol k on r s) = entries s"
  by (simp add: persist_symbol_def)

lemma deactivate_active:
  "symbol_active (deactivate now k r u s) j \<longleftrightarrow> j \<noteq> k \<and> symbol_active s j"
  by (auto simp: deactivate_def symbol_active_def Let_def)

lemma activate_active:
  "symbol_active (activate k s) j \<longleftrightarrow> j = k \<or> symbol_active s j"
  by (auto simp: activate_def symbol_active_def split: option.split)

interpretation sks: symbol_switch symbol_active "\<lambda>k. deactivate now k r u" activate for now r u
  by unfold_locales (rule deactivate_active, rule activate_active)

section \<open>Runs\<close>

datatype sks_op = Deactivate time string string string | Activate string

fun sks_step :: "sks \<Rightarrow> sks_op \<Rightarrow> sks" where
  "sks_step s (Deactivate now k r u) = deactivate now k r u s"
| "sks_step s (Activate k) = activate k s"

text \<open>The contract: the set of disabled symbols.\<close>

fun abs_step :: "string set \<Rightarrow> sks_op \<Rightarrow> string set" where
  "abs_step A (Deactivate now k r u) = insert k A"
| "abs_step A (Activate k) = A - {k}"

definition sks_ok :: "sks \<Rightarrow> bool" where
  "sks_ok s \<longleftrightarrow> dict_ok (entries s)"

interpretation sks_inv: stateful sks_step sks_ok
proof
  fix s e assume "sks_ok s"
  then show "sks_ok (sks_step s e)"
    by (cases e) (auto simp: sks_ok_def deactivate_def activate_def Let_def split: option.split)
qed

lemma get_deactivated_iff:
  "sks_ok s \<Longrightarrow> k \<in> set (get_deactivated s) \<longleftrightarrow> \<not> symbol_active s k"
proof -
  assume "sks_ok s"
  then have d: "distinct (map fst (entries s))" by (simp add: sks_ok_def dict_ok_def)
  have "k \<in> set (get_deactivated s) \<longleftrightarrow> (\<exists>e. (k, e) \<in> set (entries s) \<and> \<not> enabled e)"
    by (force simp: get_deactivated_def)
  also have "\<dots> \<longleftrightarrow> (\<exists>e. map_of (entries s) k = Some e \<and> \<not> enabled e)"
    using map_of_eq_Some_iff [OF d] by blast
  also have "\<dots> \<longleftrightarrow> \<not> symbol_active s k"
    by (simp add: symbol_active_def split: option.split)
  finally show ?thesis .
qed

lemma abs_run:
  "{k. \<not> symbol_active (run sks_step s ops) k} =
   run abs_step {k. \<not> symbol_active s k} ops"
proof (induction ops arbitrary: s)
  case Nil
  then show ?case by simp
next
  case (Cons e ops)
  have "{k. \<not> symbol_active (sks_step s e) k} = abs_step {k. \<not> symbol_active s k} e"
    by (cases e) (auto simp: deactivate_active activate_active)
  with Cons [of "sks_step s e"] show ?case by simp
qed

text \<open>
  The registry implements a set of disabled symbols: after any sequence of deactivations and
  activations a symbol may trade exactly if the abstract run leaves it out of the set, and
  \<open>get_deactivated\<close> lists that set without repetition.
\<close>

theorem symbol_switch_refines_set:
  "(\<forall>k. symbol_active (run sks_step new_sks ops) k \<longleftrightarrow> k \<notin> run abs_step {} ops)
   \<and> set (get_deactivated (run sks_step new_sks ops)) = run abs_step {} ops
   \<and> distinct (get_deactivated (run sks_step new_sks ops))"
proof -
  have start: "{k. \<not> symbol_active new_sks k} = {}"
    by (simp add: symbol_active_def new_sks_def)
  have ok: "sks_ok (run sks_step new_sks ops)"
    by (rule sks_inv.run_ok) (simp add: sks_ok_def new_sks_def)
  have eq: "\<not> symbol_active (run sks_step new_sks ops) k \<longleftrightarrow> k \<in> run abs_step {} ops" for k
    using abs_run [of new_sks ops] unfolding start by blast
  have "distinct (get_deactivated (run sks_step new_sks ops))"
    using ok unfolding get_deactivated_def sks_ok_def dict_ok_def
    by (simp add: distinct_map_filter)
  with eq get_deactivated_iff [OF ok] show ?thesis by auto
qed

end
