(* ===== verification/Circuit_Breaker.thy ===== *)
theory Circuit_Breaker
  imports Core_Types
begin

text \<open>
  \<open>CircuitBreaker\<close> of \<open>sgr/core/resilience.py\<close>. \<open>call\<close> awaits the guarded function, so several
  calls can be under way at once; its code before the await is \<open>cb_enter\<close>, the code after it
  \<open>cb_success\<close> or \<open>cb_failure\<close>, and the events of the step function interleave freely.
\<close>

datatype cb_state = CB_CLOSED | CB_OPEN | CB_HALF_OPEN

record circuit_breaker =
  failure_threshold :: int
  recovery_timeout_seconds :: int
  success_threshold :: int
  cb_st :: cb_state
  failure_count :: int
  success_count :: int
  last_failure_time :: "time option"

definition new_circuit_breaker :: "int \<Rightarrow> int \<Rightarrow> int \<Rightarrow> circuit_breaker" where
  "new_circuit_breaker f r s = \<lparr>failure_threshold = f, recovery_timeout_seconds = r,
     success_threshold = s, cb_st = CB_CLOSED, failure_count = 0, success_count = 0,
     last_failure_time = None\<rparr>"

definition should_attempt_reset :: "time \<Rightarrow> circuit_breaker \<Rightarrow> bool" where
  "should_attempt_reset now c =
     (case last_failure_time c of
        None \<Rightarrow> False
      | Some t \<Rightarrow> seconds (recovery_timeout_seconds c) \<le> now - t)"

definition cb_reset :: "circuit_breaker \<Rightarrow> circuit_breaker" where
  "cb_reset c = c\<lparr>cb_st := CB_CLOSED, failure_count := 0, success_count := 0\<rparr>"

text \<open>\<open>None\<close>: the call is refused with \<open>CircuitBreakerError\<close>.\<close>

definition cb_enter :: "time \<Rightarrow> circuit_breaker \<Rightarrow> circuit_breaker option" where
  "cb_enter now c =
     (if cb_st c = CB_OPEN
      then if should_attempt_reset now c
           then Some (c\<lparr>cb_st := CB_HALF_OPEN, success_count := 0\<rparr>)
           else None
      else Some c)"

definition cb_success :: "circuit_breaker \<Rightarrow> circuit_breaker" where
  "cb_success c =
     (if cb_st c = CB_HALF_OPEN
      then let c1 = c\<lparr>success_count := success_count c + 1\<rparr>
           in if success_threshold c1 \<le> success_count c1 then cb_reset c1 else c1
      else c)"

definition cb_failure :: "time \<Rightarrow> circuit_breaker \<Rightarrow> circuit_breaker" where
  "cb_failure now c =
     (let c1 = c\<lparr>failure_count := failure_count c + 1, last_failure_time := Some now\<rparr>
      in if cb_st c1 = CB_HALF_OPEN then c1\<lparr>cb_st := CB_OPEN\<rparr>
         else if failure_threshold c1 \<le> failure_count c1 then c1\<lparr>cb_st := CB_OPEN\<rparr>
         else c1)"

datatype cb_outcome = Returns | Raises time

datatype cb_result = Refused | Returned | Failed

text \<open>One call with nothing else under way; \<open>out\<close> is what the guarded function does.\<close>

definition cb_call :: "time \<Rightarrow> cb_outcome \<Rightarrow> circuit_breaker \<Rightarrow> circuit_breaker \<times> cb_result" where
  "cb_call now out c =
     (case cb_enter now c of
        None \<Rightarrow> (c, Refused)
      | Some c1 \<Rightarrow> (case out of Returns \<Rightarrow> (cb_success c1, Returned)
                              | Raises t \<Rightarrow> (cb_failure t c1, Failed)))"

datatype cb_event = Enter time | Success | Failure time

fun cb_step :: "circuit_breaker \<Rightarrow> cb_event \<Rightarrow> circuit_breaker" where
  "cb_step c (Enter now) = (case cb_enter now c of None \<Rightarrow> c | Some c1 \<Rightarrow> c1)"
| "cb_step c Success = cb_success c"
| "cb_step c (Failure now) = cb_failure now c"

lemmas cb_defs = cb_enter_def cb_success_def cb_failure_def cb_reset_def Let_def

lemma cb_success_frame [frame]:
  "failure_threshold (cb_success c) = failure_threshold c"
  "recovery_timeout_seconds (cb_success c) = recovery_timeout_seconds c"
  "success_threshold (cb_success c) = success_threshold c"
  by (simp_all add: cb_defs)

section \<open>Invariant\<close>

text \<open>
  Both thresholds are at least one in the code's configurations; then a closed breaker has seen
  fewer failures than its threshold, a half-open one fewer successes than it needs, and an open one
  knows when it opened.
\<close>

definition cb_ok :: "circuit_breaker \<Rightarrow> bool" where
  "cb_ok c \<longleftrightarrow> 1 \<le> failure_threshold c \<and> 1 \<le> success_threshold c \<and>
     0 \<le> failure_count c \<and> 0 \<le> success_count c \<and>
     (case cb_st c of
        CB_CLOSED \<Rightarrow> failure_count c < failure_threshold c
      | CB_OPEN \<Rightarrow> last_failure_time c \<noteq> None
      | CB_HALF_OPEN \<Rightarrow> success_count c < success_threshold c \<and> last_failure_time c \<noteq> None)"

interpretation cb: stateful cb_step cb_ok
proof
  fix c e assume "cb_ok c"
  then show "cb_ok (cb_step c e)"
    by (cases e) (auto simp: cb_ok_def cb_defs split: cb_state.splits)
qed

lemma new_circuit_breaker_ok: "1 \<le> f \<Longrightarrow> 1 \<le> s \<Longrightarrow> cb_ok (new_circuit_breaker f r s)"
  by (simp add: cb_ok_def new_circuit_breaker_def)

lemma cb_ok_enter: "cb_ok c \<Longrightarrow> cb_enter now c = Some c1 \<Longrightarrow> cb_ok c1"
  using cb.step_ok [of c "Enter now"] by simp

section \<open>Properties\<close>

text \<open>A successful call of a breaker that is half open, or open with its timeout over.\<close>

lemma success_call:
  assumes "cb_ok c" and "cb_st c = CB_HALF_OPEN"
  shows "cb_call now Returns c =
    (if success_count c + 1 = success_threshold c then cb_reset c
     else c\<lparr>success_count := success_count c + 1\<rparr>, Returned)"
  using assms by (auto simp: cb_call_def cb_ok_def cb_defs)

lemma half_open_closes:
  assumes "cb_ok c" and "cb_st c = CB_HALF_OPEN"
    and "int (length ts) = success_threshold c - success_count c"
  shows "cb_st (fold (\<lambda>t c. fst (cb_call t Returns c)) ts c) = CB_CLOSED"
  using assms
proof (induction ts arbitrary: c)
  case Nil
  then show ?case by (simp add: cb_ok_def)
next
  case (Cons t ts)
  show ?case
  proof (cases "success_count c + 1 = success_threshold c")
    case True
    with Cons.prems(3) have "int (length ts) = 0" unfolding list.size by linarith
    then have "ts = []" by simp
    with True Cons.prems success_call [OF Cons.prems(1,2), of t] show ?thesis
      by (simp add: cb_reset_def)
  next
    case False
    let ?c = "c\<lparr>success_count := success_count c + 1\<rparr>"
    have "cb_st (fold (\<lambda>t c. fst (cb_call t Returns c)) ts ?c) = CB_CLOSED"
      by (rule Cons.IH) (use Cons.prems False in \<open>auto simp: cb_ok_def\<close>)
    with False success_call [OF Cons.prems(1,2), of t] show ?thesis by simp
  qed
qed

definition calls_return :: "time list \<Rightarrow> circuit_breaker \<Rightarrow> circuit_breaker" where
  "calls_return ts c = fold (\<lambda>t c. fst (cb_call t Returns c)) ts c"

text \<open>
  C38. The breaker protects and recovers: while it is open and its recovery timeout is not over it
  refuses every call and does not change; once the timeout is over and the service answers again, as
  many calls as the success threshold demands all get through and close it.
\<close>

theorem breaker_protects_and_recovers:
  assumes "cb_ok c" and "cb_st c = CB_OPEN" and "last_failure_time c = Some t0"
  shows "(if now - t0 < seconds (recovery_timeout_seconds c)
          then cb_call now out c = (c, Refused)
          else int (length ts) + 1 = success_threshold c \<longrightarrow>
               cb_st (calls_return (now # ts) c) = CB_CLOSED)"
proof (cases "now - t0 < seconds (recovery_timeout_seconds c)")
  case True
  with assms show ?thesis by (simp add: cb_call_def cb_enter_def should_attempt_reset_def)
next
  case False
  let ?c = "c\<lparr>cb_st := CB_HALF_OPEN, success_count := 0\<rparr>"
  have e: "cb_enter now c = Some ?c"
    using False assms by (simp add: cb_enter_def should_attempt_reset_def)
  then have "cb_call now Returns c = cb_call now Returns ?c"
    by (simp add: cb_call_def) (simp add: cb_enter_def)
  then have "calls_return (now # ts) c = calls_return (now # ts) ?c" by (simp add: calls_return_def)
  with False half_open_closes [OF cb_ok_enter [OF assms(1) e], of "now # ts"] show ?thesis
    by (simp add: calls_return_def)
qed

definition demo_breaker :: circuit_breaker where
  "demo_breaker = run cb_step (new_circuit_breaker 2 60 2) [Failure 5, Success, Failure 7]"

lemma demo_breaker_facts:
  "cb_ok demo_breaker" "cb_st demo_breaker = CB_OPEN" "last_failure_time demo_breaker = Some 7"
  "recovery_timeout_seconds demo_breaker = 60" "success_threshold demo_breaker = 2"
  by (simp_all add: demo_breaker_def cb_ok_def new_circuit_breaker_def cb_defs)

theorem breaker_protects_and_recovers_witness:
  "cb_call 1000 Returns demo_breaker = (demo_breaker, Refused) \<and>
   cb_st (calls_return [60000007, 60000008] demo_breaker) = CB_CLOSED"
  using breaker_protects_and_recovers [OF demo_breaker_facts(1-3), of 1000 Returns "[]"]
    breaker_protects_and_recovers [OF demo_breaker_facts(1-3), of 60000007 Returns "[60000008]"]
  by (simp add: demo_breaker_facts seconds_def)

definition failures :: "cb_event list \<Rightarrow> nat" where
  "failures es = length (filter (\<lambda>e. case e of Failure t \<Rightarrow> True | _ \<Rightarrow> False) es)"

lemma closed_counts:
  assumes "cb_st c = CB_CLOSED" and "failure_count c + int (failures es) < failure_threshold c"
  shows "cb_st (run cb_step c es) = CB_CLOSED \<and>
    failure_count (run cb_step c es) = failure_count c + int (failures es) \<and>
    failure_threshold (run cb_step c es) = failure_threshold c"
  using assms
proof (induction es arbitrary: c)
  case Nil
  then show ?case by (simp add: failures_def)
next
  case (Cons e es)
  show ?case
  proof (cases e)
    case (Failure t)
    let ?c = "c\<lparr>failure_count := failure_count c + 1, last_failure_time := Some t\<rparr>"
    have c: "cb_step c e = ?c" using Failure Cons.prems by (simp add: cb_defs failures_def)
    have "cb_st (run cb_step ?c es) = CB_CLOSED \<and>
        failure_count (run cb_step ?c es) = failure_count ?c + int (failures es) \<and>
        failure_threshold (run cb_step ?c es) = failure_threshold ?c"
      by (rule Cons.IH) (use Cons.prems Failure in \<open>simp_all add: failures_def\<close>)
    with c Failure show ?thesis by (simp add: failures_def)
  qed (use Cons.IH [of c] Cons.prems in \<open>simp_all add: cb_defs failures_def\<close>)
qed

text \<open>
  The failures of a breaker add up over its whole closed time, whatever successes lie between
  them: as long as there are fewer than the threshold it stays closed, and one more opens it exactly
  when the threshold is reached.
\<close>

theorem breaker_counts_total_failures:
  assumes "int (failures es) < f" and "c = run cb_step (new_circuit_breaker f r s) es"
  shows "cb_st c = CB_CLOSED \<and>
    (cb_st (cb_step c (Failure t)) = CB_OPEN \<longleftrightarrow> int (failures es) + 1 = f)"
  using closed_counts [of "new_circuit_breaker f r s" es] assms
  by (auto simp: new_circuit_breaker_def cb_failure_def Let_def)

theorem breaker_counts_total_failures_witness:
  "cb_st (run cb_step (new_circuit_breaker 2 60 2) [Enter 1, Failure 1, Success, Success, Success]) =
     CB_CLOSED"
proof -
  have "int (failures [Enter 1, Failure 1, Success, Success, Success]) < 2"
    by (simp add: failures_def)
  from breaker_counts_total_failures [OF this refl] show ?thesis by blast
qed

end
