(* ===== verification/Kill_Switch.thy ===== *)
theory Kill_Switch
  imports Core_Types
begin

text \<open>
  \<open>sgr/risk/kill_switch.py\<close> and \<open>KillSwitchState\<close> of \<open>sgr/risk/types.py\<close>: the emergency stop of
  one (tenant, trading mode), with its Redis key and channel, the order cancellation that follows a
  trigger, and the background task by which another process takes the state over. Redis, the
  exchange adapters and the event bus are outside; whether a call to them succeeds is part of the
  world record. The asyncio lock makes each state change atomic.
\<close>

section \<open>State\<close>

record ks_state =
  is_active :: bool
  triggered_at :: "time option"
  reason :: "string option"
  ks_mode :: trading_mode

definition ks_init :: "trading_mode \<Rightarrow> ks_state" where
  "ks_init m = \<lparr>is_active = False, triggered_at = None, reason = None, ks_mode = m\<rparr>"

definition ks_state_trigger :: "time \<Rightarrow> string \<Rightarrow> trading_mode \<Rightarrow> ks_state \<Rightarrow> ks_state" where
  "ks_state_trigger now r m s =
     s\<lparr>is_active := True, triggered_at := Some now, reason := Some r, ks_mode := m\<rparr>"

definition ks_state_reset :: "ks_state \<Rightarrow> ks_state" where
  "ks_state_reset s = s\<lparr>is_active := False, triggered_at := None, reason := None\<rparr>"

record kill_switch =
  mode :: trading_mode
  tenant :: "string option"
  st :: ks_state
  pool :: "(exchange_id \<times> trading_mode) list option"
  has_redis :: bool
  subscribed :: bool

definition new_kill_switch :: "trading_mode \<Rightarrow> string option \<Rightarrow> kill_switch" where
  "new_kill_switch m t =
     \<lparr>mode = m, tenant = t, st = ks_init m, pool = None, has_redis = False, subscribed = False\<rparr>"

definition inject_exchange_pool :: "(exchange_id \<times> trading_mode) list \<Rightarrow> kill_switch \<Rightarrow> kill_switch" where
  "inject_exchange_pool p k = k\<lparr>pool := Some p\<rparr>"

definition inject_redis :: "kill_switch \<Rightarrow> kill_switch" where
  "inject_redis k = k\<lparr>has_redis := True\<rparr>"

text \<open>
  \<open>subscribed\<close> stands for \<open>_subscriber_task is not None\<close>. The task object stays there when the task
  has ended, so a second start after the end of the loop returns early.
\<close>

definition start_remote_sync :: "kill_switch \<Rightarrow> kill_switch \<times> bool" where
  "start_remote_sync k =
     (if \<not> has_redis k then (k, False)
      else if subscribed k then (k, False)
      else (k\<lparr>subscribed := True\<rparr>, True))"

definition stop_remote_sync :: "kill_switch \<Rightarrow> kill_switch" where
  "stop_remote_sync k = (if subscribed k then k\<lparr>subscribed := False\<rparr> else k)"

definition trading_allowed :: "kill_switch \<Rightarrow> bool" where
  "trading_allowed k \<longleftrightarrow> \<not> is_active (st k)"

section \<open>Redis keys\<close>

fun mode_value :: "trading_mode \<Rightarrow> string" where
  "mode_value PAPER = ''paper''"
| "mode_value LIVE = ''live''"

definition redis_key :: "trading_mode \<Rightarrow> string option \<Rightarrow> string" where
  "redis_key m t =
     (case t of
        None \<Rightarrow> ''sgr:kill_switch:state:'' @ mode_value m
      | Some tid \<Rightarrow> ''sgr:kill_switch:state:'' @ tid @ '':'' @ mode_value m)"

definition redis_channel :: "trading_mode \<Rightarrow> string option \<Rightarrow> string" where
  "redis_channel m t =
     (case t of
        None \<Rightarrow> ''sgr:kill_switch:changes:'' @ mode_value m
      | Some tid \<Rightarrow> ''sgr:kill_switch:changes:'' @ tid @ '':'' @ mode_value m)"

section \<open>The world around it\<close>

record payload =
  p_active :: bool
  p_reason :: "string option"
  p_triggered_at :: "time option"

record ks_event =
  ev_reason :: string
  ev_mode :: trading_mode
  ev_tenant :: "string option"
  ev_close_positions :: bool

text \<open>
  \<open>set_ok\<close> and \<open>publish_ok\<close> say whether the two Redis calls succeed, \<open>cancel_ok\<close> whether an
  adapter's \<open>cancel_all_orders\<close> does, \<open>bus_ok\<close> whether the event bus accepts an event. The rest is
  what the calls have done so far.
\<close>

record world =
  set_ok :: bool
  publish_ok :: bool
  cancel_ok :: "exchange_id \<Rightarrow> bool"
  bus_ok :: bool
  store :: "string \<rightharpoonup> payload"
  messages :: "(string \<times> payload) list"
  cancelled :: "(exchange_id \<times> trading_mode) list"
  events :: "ks_event list"

definition payload_of :: "ks_state \<Rightarrow> payload" where
  "payload_of s = \<lparr>p_active = is_active s, p_reason = reason s, p_triggered_at = triggered_at s\<rparr>"

section \<open>Operations\<close>

text \<open>\<open>_publish_to_redis\<close>: one \<open>try\<close> block, so a failing \<open>set\<close> also skips the \<open>publish\<close>.\<close>

definition publish_to_redis :: "kill_switch \<Rightarrow> world \<Rightarrow> world" where
  "publish_to_redis k w =
     (if \<not> has_redis k \<or> \<not> set_ok w then w
      else let w1 = w\<lparr>store := (store w)(redis_key (mode k) (tenant k) \<mapsto> payload_of (st k))\<rparr>
           in if publish_ok w
              then w1\<lparr>messages := messages w1 @ [(redis_channel (mode k) (tenant k), payload_of (st k))]\<rparr>
              else w1)"

text \<open>\<open>_cancel_all_orders\<close>: every adapter of the switch's own mode, each failure caught.\<close>

definition cancel_all_orders :: "kill_switch \<Rightarrow> world \<Rightarrow> world" where
  "cancel_all_orders k w =
     (case pool k of
        None \<Rightarrow> w
      | Some as \<Rightarrow>
          w\<lparr>cancelled := cancelled w @ filter (\<lambda>(e, m). m = mode k \<and> cancel_ok w e) as\<rparr>)"

definition publish_event :: "string \<Rightarrow> bool \<Rightarrow> kill_switch \<Rightarrow> world \<Rightarrow> world" where
  "publish_event r close k w =
     (if bus_ok w
      then w\<lparr>events := events w @
             [\<lparr>ev_reason = r, ev_mode = mode k, ev_tenant = tenant k, ev_close_positions = close\<rparr>]\<rparr>
      else w)"

definition ks_trigger_local :: "time \<Rightarrow> string \<Rightarrow> kill_switch \<Rightarrow> kill_switch" where
  "ks_trigger_local now r k =
     (if is_active (st k) then k else k\<lparr>st := ks_state_trigger now r (mode k) (st k)\<rparr>)"

text \<open>
  \<open>trigger\<close>: the state first, then Redis, the cancellation and the event. Closing positions is only
  announced here; the event carries the request to the position liquidator.
\<close>

definition trigger ::
  "time \<Rightarrow> string \<Rightarrow> bool \<Rightarrow> kill_switch \<Rightarrow> world \<Rightarrow> kill_switch \<times> world" where
  "trigger now r close k w =
     (if is_active (st k) then (k, w)
      else let k1 = ks_trigger_local now r k
           in (k1, publish_event r close k1 (cancel_all_orders k1 (publish_to_redis k1 w))))"

definition reset :: "kill_switch \<Rightarrow> world \<Rightarrow> kill_switch \<times> world" where
  "reset k w =
     (if \<not> is_active (st k) then (k, w)
      else let k1 = k\<lparr>st := ks_state_reset (st k)\<rparr> in (k1, publish_to_redis k1 w))"

text \<open>\<open>_apply_remote_state\<close>: takes over another process's state without its side effects.\<close>

definition apply_remote_state :: "time \<Rightarrow> payload \<Rightarrow> kill_switch \<Rightarrow> kill_switch" where
  "apply_remote_state now p k =
     (if p_active p = is_active (st k) then k
      else if p_active p
      then k\<lparr>st := ks_state_trigger now
               (case p_reason p of Some r \<Rightarrow> if r = [] then ''remote_trigger'' else r
                                 | None \<Rightarrow> ''remote_trigger'') (mode k) (st k)\<rparr>
      else k\<lparr>st := ks_state_reset (st k)\<rparr>)"

text \<open>
  \<open>_remote_sync_loop\<close> over what the subscription yields: a message with a payload, a message whose
  data is no JSON, other Redis traffic (subscribe confirmations), or an error. An error, including
  the one a JSON value that is no object provokes, ends the loop; nothing starts it again.
\<close>

datatype sub_item = Message payload | BadJson | NoObject | OtherType | ConnectionError

fun remote_sync_loop :: "time \<Rightarrow> sub_item list \<Rightarrow> kill_switch \<Rightarrow> kill_switch" where
  "remote_sync_loop now [] k = k"
| "remote_sync_loop now (Message p # xs) k = remote_sync_loop now xs (apply_remote_state now p k)"
| "remote_sync_loop now (BadJson # xs) k = remote_sync_loop now xs k"
| "remote_sync_loop now (OtherType # xs) k = remote_sync_loop now xs k"
| "remote_sync_loop now (NoObject # xs) k = k"
| "remote_sync_loop now (ConnectionError # xs) k = k"

text \<open>The messages of a channel, as the process subscribed to it receives them.\<close>

definition received :: "string \<Rightarrow> (string \<times> payload) list \<Rightarrow> sub_item list" where
  "received ch ms = map (Message \<circ> snd) (filter (\<lambda>(c, _). c = ch) ms)"

text \<open>\<open>read_kill_switch_state_from_redis\<close>: \<open>None\<close> both for no entry and for a Redis error.\<close>

definition read_kill_switch_state_from_redis ::
  "bool \<Rightarrow> world \<Rightarrow> trading_mode \<Rightarrow> string option \<Rightarrow> payload option" where
  "read_kill_switch_state_from_redis get_ok w m t =
     (if get_ok then store w (redis_key m t) else None)"

text \<open>\<open>get_kill_switch\<close>: one instance per (tenant, mode), created on first use.\<close>

type_synonym ks_registry = "((string option \<times> trading_mode), kill_switch) dict"

definition get_kill_switch ::
  "trading_mode \<Rightarrow> string option \<Rightarrow> ks_registry \<Rightarrow> kill_switch \<times> ks_registry" where
  "get_kill_switch m t reg =
     (case map_of reg (t, m) of
        Some k \<Rightarrow> (k, reg)
      | None \<Rightarrow> let k = new_kill_switch m t in (k, AList.update (t, m) k reg))"

section \<open>Basic facts\<close>

lemmas ks_defs = ks_trigger_local_def ks_state_trigger_def ks_state_reset_def
  publish_to_redis_def cancel_all_orders_def publish_event_def Let_def

interpretation ks: latch "\<lambda>k. is_active (st k)" "ks_trigger_local now" "\<lambda>k. reason (st k)" for now
  by unfold_locales (simp_all add: ks_trigger_local_def ks_state_trigger_def)

lemma trigger_fst: "fst (trigger now r close k w) = ks_trigger_local now r k"
  by (simp add: trigger_def ks_trigger_local_def Let_def)

lemma trigger_frame [frame]:
  "mode (fst (trigger now r close k w)) = mode k"
  "tenant (fst (trigger now r close k w)) = tenant k"
  "has_redis (fst (trigger now r close k w)) = has_redis k"
  by (simp_all add: trigger_fst ks_trigger_local_def)

lemma reset_frame [frame]:
  "mode (fst (reset k w)) = mode k" "tenant (fst (reset k w)) = tenant k"
  "has_redis (fst (reset k w)) = has_redis k"
  by (simp_all add: reset_def Let_def)

lemma apply_remote_frame [frame]:
  "mode (apply_remote_state now p k) = mode k" "tenant (apply_remote_state now p k) = tenant k"
  by (simp_all add: apply_remote_state_def)

lemma publish_to_redis_up:
  "has_redis k \<Longrightarrow> set_ok w \<Longrightarrow> publish_ok w \<Longrightarrow>
   store (publish_to_redis k w) = (store w)(redis_key (mode k) (tenant k) \<mapsto> payload_of (st k)) \<and>
   messages (publish_to_redis k w) =
     messages w @ [(redis_channel (mode k) (tenant k), payload_of (st k))]"
  by (simp add: publish_to_redis_def)

lemma publish_to_redis_frame [frame]:
  "set_ok (publish_to_redis k w) = set_ok w" "publish_ok (publish_to_redis k w) = publish_ok w"
  "cancelled (publish_to_redis k w) = cancelled w" "events (publish_to_redis k w) = events w"
  "cancel_ok (publish_to_redis k w) = cancel_ok w" "bus_ok (publish_to_redis k w) = bus_ok w"
  by (simp_all add: publish_to_redis_def Let_def)

lemma cancel_all_orders_frame [frame]:
  "set_ok (cancel_all_orders k w) = set_ok w" "publish_ok (cancel_all_orders k w) = publish_ok w"
  "store (cancel_all_orders k w) = store w" "messages (cancel_all_orders k w) = messages w"
  "events (cancel_all_orders k w) = events w" "bus_ok (cancel_all_orders k w) = bus_ok w"
  by (simp_all add: cancel_all_orders_def split: option.splits)

lemma publish_event_frame [frame]:
  "set_ok (publish_event r c k w) = set_ok w" "publish_ok (publish_event r c k w) = publish_ok w"
  "store (publish_event r c k w) = store w" "messages (publish_event r c k w) = messages w"
  "cancelled (publish_event r c k w) = cancelled w"
  by (simp_all add: publish_event_def)

lemma remote_sync_loop_append_messages:
  "remote_sync_loop now (map Message ps @ xs) k =
   remote_sync_loop now xs (fold (apply_remote_state now) ps k)"
  by (induction ps arbitrary: k) simp_all

lemma apply_remote_active [simp]:
  "is_active (st (apply_remote_state now p k)) = p_active p"
  by (simp add: apply_remote_state_def ks_state_trigger_def ks_state_reset_def)


section \<open>Runs of one process\<close>

datatype ks_op = Trigger time string bool | Reset

fun ks_step :: "kill_switch \<times> world \<Rightarrow> ks_op \<Rightarrow> kill_switch \<times> world" where
  "ks_step (k, w) (Trigger now r close) = trigger now r close k w"
| "ks_step (k, w) Reset = reset k w"

text \<open>
  \<open>follows k0 ms0 b (k, w)\<close>: the messages that a process subscribed since \<open>ms0\<close> has received bring
  its switch \<open>b\<close> to the state of \<open>k\<close>, and Redis works for \<open>k\<close>.
\<close>

definition follows ::
  "time \<Rightarrow> (string \<times> payload) list \<Rightarrow> kill_switch \<Rightarrow> kill_switch \<times> world \<Rightarrow> bool" where
  "follows now ms0 b kw =
     (let k = fst kw; w = snd kw in
      has_redis k \<and> set_ok w \<and> publish_ok w \<and> mode k = mode b \<and> tenant k = tenant b \<and>
      (\<exists>ms. messages w = ms0 @ ms \<and>
        is_active (st (remote_sync_loop now
          (received (redis_channel (mode b) (tenant b)) ms) b)) = is_active (st k)))"

lemma received_append [simp]: "received c (xs @ ys) = received c xs @ received c ys"
  by (simp add: received_def)

lemma received_messages: "\<exists>ps. received c ms = map Message ps"
  by (metis received_def list.map_comp)

lemma follows_publish:
  assumes f: "follows now ms0 b (k, w)" and ch: "mode k' = mode k" "tenant k' = tenant k" "has_redis k'"
    and m: "messages w' = messages (publish_to_redis k' w)" "set_ok w'" "publish_ok w'"
  shows "follows now ms0 b (k', w')"
proof -
  from f obtain ms where ms: "messages w = ms0 @ ms" "set_ok w" "publish_ok w"
    and kb: "mode k = mode b" "tenant k = tenant b"
    by (auto simp: follows_def Let_def)
  let ?c = "redis_channel (mode b) (tenant b)"
  from publish_to_redis_up [OF ch(3) ms(2,3)] ms(1)
  have new: "messages w' = ms0 @ (ms @ [(?c, payload_of (st k'))])"
    using m(1) ch kb by simp
  obtain ps where ps: "received ?c ms = map Message ps" using received_messages by blast
  have "remote_sync_loop now (received ?c (ms @ [(?c, payload_of (st k'))])) b =
    apply_remote_state now (payload_of (st k')) (fold (apply_remote_state now) ps b)"
    by (simp add: ps remote_sync_loop_append_messages) (simp add: received_def)
  then have "is_active (st (remote_sync_loop now (received ?c (ms @ [(?c, payload_of (st k'))])) b))
    = is_active (st k')" by (simp add: payload_of_def)
  with new m ch kb show ?thesis unfolding follows_def Let_def by auto
qed

lemma follows_step: "follows now ms0 b kw \<Longrightarrow> follows now ms0 b (ks_step kw e)"
proof -
  assume f: "follows now ms0 b kw"
  obtain k w where kw: "kw = (k, w)" by (cases kw)
  have hr: "has_redis k" "set_ok w" "publish_ok w" using f kw by (auto simp: follows_def Let_def)
  show ?thesis
  proof (cases e)
    case (Trigger t r close)
    show ?thesis
    proof (cases "is_active (st k)")
      case True
      with f kw Trigger show ?thesis by (simp add: trigger_def)
    next
      case False
      then show ?thesis unfolding kw Trigger ks_step.simps trigger_def Let_def if_not_P
        using follows_publish [OF f [unfolded kw]] hr
        by (simp add: frame ks_trigger_local_def)
    qed
  next
    case Reset
    show ?thesis
    proof (cases "is_active (st k)")
      case False
      with f kw Reset show ?thesis by (simp add: reset_def)
    next
      case True
      then show ?thesis unfolding kw Reset ks_step.simps reset_def Let_def
        using follows_publish [OF f [unfolded kw]] hr by (simp add: frame)
    qed
  qed
qed

interpretation sync: stateful ks_step "follows now ms0 b" for now ms0 b
  by unfold_locales (rule follows_step)

lemma follows_start:
  "has_redis k \<Longrightarrow> set_ok w \<Longrightarrow> publish_ok w \<Longrightarrow> mode k = mode b \<Longrightarrow> tenant k = tenant b \<Longrightarrow>
   is_active (st b) = is_active (st k) \<Longrightarrow> follows now (messages w) b (k, w)"
  by (auto simp: follows_def received_def)

section \<open>Properties\<close>

lemma append_colon_eq:
  assumes "a @ '':'' @ b = c @ '':'' @ d" and "CHR '':'' \<notin> set b" and "CHR '':'' \<notin> set d"
  shows "a = c \<and> b = d"
proof -
  have pre: "takeWhile (\<lambda>x. x \<noteq> CHR '':'') (rev (a @ '':'' @ b)) = rev b"
    if "CHR '':'' \<notin> set b" for a b :: string
  proof -
    have "takeWhile (\<lambda>x. x \<noteq> CHR '':'') (rev b) = rev b" using that by (auto simp: takeWhile_eq_all_conv)
    then show ?thesis by (simp add: takeWhile_tail)
  qed
  have "rev b = rev d" by (metis pre assms)
  with assms(1) show ?thesis by simp
qed

lemma mode_value_no_colon [simp]: "CHR '':'' \<notin> set (mode_value m)"
  by (cases m) simp_all

lemma mode_value_eq [simp]: "mode_value m = mode_value m' \<longleftrightarrow> m = m'"
  by (cases m; cases m') simp_all

text \<open>
  C25. Kill-switch isolation: two (tenant, trading mode) pairs share their Redis key, or their
  Redis channel, only if they are the same pair. Neither another tenant's nor the other mode's
  trigger can reach a process through Redis.
\<close>

theorem redis_scope_injective:
  "(redis_key m t = redis_key m' t' \<longleftrightarrow> m = m' \<and> t = t') \<and>
   (redis_channel m t = redis_channel m' t' \<longleftrightarrow> m = m' \<and> t = t')"
proof -
  have ne: "mode_value m1 \<noteq> tid @ '':'' @ mode_value m2" for m1 m2 tid
  proof
    assume "mode_value m1 = tid @ '':'' @ mode_value m2"
    then have "CHR '':'' \<in> set (mode_value m1)" by simp
    then show False by simp
  qed
  have eq: "t1 @ '':'' @ mode_value m1 = t2 @ '':'' @ mode_value m2 \<longleftrightarrow> t1 = t2 \<and> m1 = m2"
    for t1 t2 m1 m2 using append_colon_eq [of t1 "mode_value m1" t2 "mode_value m2"] by auto
  have split: "c @ x = c @ y \<longleftrightarrow> x = y" for c x y :: string by simp
  show ?thesis
    unfolding redis_key_def redis_channel_def
    by (cases t; cases t'; simp only: option.case split ne ne [symmetric] eq mode_value_eq; auto)
qed


text \<open>
  C20. Convergence of the processes: a process subscribed to the channel of a switch, in agreement
  with it at the start, agrees with it again once it has received the messages of any sequence of
  triggers and resets, messages of other tenants and modes in between notwithstanding.
\<close>

theorem remote_process_converges:
  assumes redis: "has_redis k" "set_ok w" "publish_ok w"
    and scope: "mode k = mode b" "tenant k = tenant b"
    and agree: "is_active (st b) = is_active (st k)"
    and ops: "run ks_step (k, w) ops = (k', w')" and msgs: "messages w' = messages w @ new"
  shows "is_active (st (remote_sync_loop now (received (redis_channel (mode b) (tenant b)) new) b))
    = is_active (st k')"
proof -
  have "follows now (messages w) b (run ks_step (k, w) ops)"
    by (rule sync.run_ok) (rule follows_start [OF redis scope agree])
  with ops msgs show ?thesis by (simp add: follows_def Let_def)
qed

definition demo_world :: world where
  "demo_world = \<lparr>set_ok = True, publish_ok = True, cancel_ok = (\<lambda>e. e \<noteq> KRAKEN), bus_ok = True,
     store = Map.empty, messages = [(redis_channel PAPER (Some ''sumo''), payload_of (ks_init PAPER))],
     cancelled = [], events = []\<rparr>"

definition demo_switch :: kill_switch where
  "demo_switch = inject_redis (inject_exchange_pool
     [(BINANCE, PAPER), (PIONEX, LIVE), (KRAKEN, PAPER)] (new_kill_switch PAPER (Some ''gordon'')))"

theorem remote_process_converges_witness:
  "is_active (st (remote_sync_loop 9
     (received (redis_channel PAPER (Some ''gordon''))
        [(redis_channel PAPER (Some ''gordon''),
          \<lparr>p_active = True, p_reason = Some ''drawdown'', p_triggered_at = Some 5\<rparr>)])
     (new_kill_switch PAPER (Some ''gordon'')))) =
   is_active (st (fst (run ks_step (demo_switch, demo_world)
      [Trigger 5 ''drawdown'' False, Trigger 6 ''again'' True])))"
proof -
  let ?ops = "[Trigger 5 ''drawdown'' False, Trigger 6 ''again'' True]"
  let ?new = "[(redis_channel PAPER (Some ''gordon''),
      \<lparr>p_active = True, p_reason = Some ''drawdown'', p_triggered_at = Some 5\<rparr>)]"
  have ms: "messages (snd (run ks_step (demo_switch, demo_world) ?ops)) = messages demo_world @ ?new"
    by (simp add: demo_switch_def demo_world_def trigger_def ks_defs inject_redis_def payload_of_def
        inject_exchange_pool_def new_kill_switch_def ks_init_def)
  show ?thesis
    using remote_process_converges [of demo_switch demo_world "new_kill_switch PAPER (Some ''gordon'')"
        ?ops "fst (run ks_step (demo_switch, demo_world) ?ops)"
        "snd (run ks_step (demo_switch, demo_world) ?ops)" ?new 9, OF _ _ _ _ _ _ _ ms]
    by (simp add: demo_switch_def demo_world_def inject_redis_def inject_exchange_pool_def
        new_kill_switch_def ks_init_def del: run_simps)
qed

lemma trigger_all:
  assumes "\<not> is_active (st k)" and "trigger now r close k w = (k', w')"
  shows "\<not> trading_allowed k' \<and> reason (st k') = Some r
    \<and> (pool k = Some as \<longrightarrow>
        cancelled w' = cancelled w @ filter (\<lambda>(e, m). m = mode k \<and> cancel_ok w e) as)
    \<and> (has_redis k \<and> set_ok w \<longrightarrow>
        read_kill_switch_state_from_redis True w' (mode k) (tenant k) = Some (payload_of (st k')))
    \<and> trigger now' r' close' k' w' = (k', w')"
proof -
  from assms have k': "k' = ks_trigger_local now r k"
    and w': "w' = publish_event r close k' (cancel_all_orders k' (publish_to_redis k' w))"
    by (auto simp: trigger_def Let_def)
  have k: "is_active (st k')" "reason (st k') = Some r" "mode k' = mode k" "tenant k' = tenant k"
    "pool k' = pool k" "has_redis k' = has_redis k"
    using assms(1) by (simp_all add: k' ks_defs)
  have c: "pool k = Some as \<longrightarrow>
      cancelled w' = cancelled w @ filter (\<lambda>(e, m). m = mode k \<and> cancel_ok w e) as"
    by (simp add: w' frame cancel_all_orders_def k split: option.split)
  have s: "has_redis k \<and> set_ok w \<longrightarrow>
      read_kill_switch_state_from_redis True w' (mode k) (tenant k) = Some (payload_of (st k'))"
    by (simp add: w' frame publish_to_redis_def k read_kill_switch_state_from_redis_def Let_def)
  show ?thesis using k c s by (simp add: trading_allowed_def trigger_def)
qed

lemma trigger_persists:
  assumes "\<not> is_active (st k)" and "trigger now r close k w = (k', w')"
  shows "is_active (st k') \<and> reason (st k') = Some r \<and>
    (has_redis k \<and> set_ok w \<longrightarrow>
      read_kill_switch_state_from_redis True w' (mode k) (tenant k) = Some (payload_of (st k')))"
  using trigger_all [OF assms, of "[]"] by (simp add: trading_allowed_def)

text \<open>
  C22. A trigger of an inactive switch stops trading with its reason, whatever Redis, the adapters
  and the bus do; it cancels the orders of exactly those adapters of its own mode whose call
  succeeds; it writes the active state under its own key when Redis is there; and a second trigger
  changes nothing, neither the switch nor anything outside.
\<close>

theorem trigger_effects:
  assumes "\<not> is_active (st k)" and "trigger now r close k w = (k', w')"
  shows "\<not> trading_allowed k' \<and> reason (st k') = Some r
    \<and> (pool k = Some as \<longrightarrow>
        cancelled w' = cancelled w @ filter (\<lambda>(e, m). m = mode k \<and> cancel_ok w e) as)
    \<and> (has_redis k \<and> set_ok w \<longrightarrow>
        read_kill_switch_state_from_redis True w' (mode k) (tenant k) = Some (payload_of (st k')))
    \<and> trigger now' r' close' k' w' = (k', w')"
  using trigger_all [OF assms] .

theorem trigger_effects_witness:
  "\<not> trading_allowed (fst (trigger 5 ''drawdown'' True demo_switch demo_world)) \<and>
   cancelled (snd (trigger 5 ''drawdown'' True demo_switch demo_world)) = [(BINANCE, PAPER)]"
proof -
  have h: "\<not> is_active (st demo_switch)" "pool demo_switch = Some [(BINANCE, PAPER), (PIONEX, LIVE), (KRAKEN, PAPER)]"
    by (simp_all add: demo_switch_def inject_redis_def inject_exchange_pool_def new_kill_switch_def
        ks_init_def)
  have m: "mode demo_switch = PAPER"
    by (simp add: demo_switch_def inject_redis_def inject_exchange_pool_def new_kill_switch_def)
  show ?thesis
    using trigger_effects [OF h(1) prod.collapse [symmetric],
        of 5 "''drawdown''" True demo_world "[(BINANCE, PAPER), (PIONEX, LIVE), (KRAKEN, PAPER)]"] h m
    by (simp add: demo_world_def)
qed

lemma remote_sync_loop_subscribed [frame]:
  "subscribed (remote_sync_loop now xs k) = subscribed k"
proof (induction xs arbitrary: k)
  case Nil
  then show ?case by simp
next
  case (Cons x xs)
  then show ?case by (cases x) (simp_all add: apply_remote_state_def)
qed

lemma remote_sync_after_error:
  "e = ConnectionError \<or> e = NoObject \<Longrightarrow>
   remote_sync_loop now (xs @ e # ys) k = remote_sync_loop now (xs @ [e]) k"
proof (induction xs arbitrary: k)
  case Nil
  then show ?case by auto
next
  case (Cons x xs)
  then show ?case by (cases x) simp_all
qed

text \<open>
  The synchronisation task does not survive an error: whatever arrives after a lost connection,
  or after a message that is a JSON value but no object, leaves the switch of this process as it was,
  so a later trigger elsewhere does not stop it; and calling \<open>start_remote_sync\<close> again starts no new
  task.
\<close>

theorem remote_sync_stops_at_error:
  assumes "e = ConnectionError \<or> e = NoObject"
    and "start_remote_sync k0 = (k, True)"
  shows "remote_sync_loop now (xs @ e # ys) k = remote_sync_loop now (xs @ [e]) k \<and>
    start_remote_sync (remote_sync_loop now (xs @ [e]) k) =
      (remote_sync_loop now (xs @ [e]) k, False)"
proof -
  from assms(2) have "subscribed k" by (auto simp: start_remote_sync_def split: if_splits)
  with remote_sync_after_error [OF assms(1)] show ?thesis
    by (simp add: start_remote_sync_def frame)
qed

theorem remote_sync_stops_at_error_witness:
  "let k = fst (start_remote_sync (inject_redis (new_kill_switch PAPER None)))
   in trading_allowed (remote_sync_loop 3 ([] @ ConnectionError #
        [Message (payload_of (ks_state_trigger 1 ''x'' PAPER (ks_init PAPER)))]) k)"
proof -
  have "start_remote_sync (inject_redis (new_kill_switch PAPER None)) =
      (fst (start_remote_sync (inject_redis (new_kill_switch PAPER None))), True)"
    by (simp add: start_remote_sync_def inject_redis_def new_kill_switch_def)
  from remote_sync_stops_at_error [OF _ this, of ConnectionError 3 "[]"]
  show ?thesis
    by (simp add: start_remote_sync_def inject_redis_def new_kill_switch_def trading_allowed_def
        ks_init_def)
qed

end
