(* ===== verification/Strategy_Registry.thy ===== *)
theory Strategy_Registry
  imports Core_Types
begin

text \<open>
  \<open>sgr/strategy/registry.py\<close> with the value types of \<open>sgr/strategy/base.py\<close> and the operations of
  \<open>StrategyRepository\<close> (\<open>sgr/core/repositories.py\<close>) it calls: registration, activation, validation and
  automatic deactivation of strategies, with the best-effort copy of the activation in the database.
  The strategy objects themselves are values with a name, a version and the regimes they support.
  The locale \<open>activation\<close> is what crash recovery relies on.
\<close>

section \<open>Data\<close>

record strategy =
  strat_name :: string
  version :: string
  supported_regimes :: "market_regime list"

record strategy_performance =
  perf_trades :: int
  profit_factor :: flt
  sharpe_ratio :: flt
  perf_drawdown :: flt
  hit_rate :: flt

definition is_acceptable :: "strategy_performance \<Rightarrow> bool" where
  "is_acceptable p \<longleftrightarrow>
     flit 1 \<le> sharpe_ratio p \<and> flit (13/10) \<le> profit_factor p \<and> perf_drawdown p \<le> flit (1/5) \<and>
     flit (2/5) \<le> hit_rate p \<and> 30 \<le> perf_trades p"

definition should_deactivate :: "strategy_performance \<Rightarrow> bool" where
  "should_deactivate p \<longleftrightarrow>
     sharpe_ratio p < flit (1/2) \<or> hit_rate p < flit (7/20) \<or> profit_factor p < flit 1"

record validation_status =
  backtest_passed :: bool
  walk_forward_passed :: bool
  paper_trading_passed :: bool
  live_approved :: bool
  is_operator_override :: bool

definition no_validation :: validation_status where
  "no_validation = \<lparr>backtest_passed = False, walk_forward_passed = False,
     paper_trading_passed = False, live_approved = False, is_operator_override = False\<rparr>"

definition can_go_live :: "validation_status \<Rightarrow> bool" where
  "can_go_live v \<longleftrightarrow> backtest_passed v \<and> walk_forward_passed v \<and> paper_trading_passed v"

record strategy_entry =
  strat :: strategy
  strat_active :: bool
  strat_validated :: bool
  validation :: validation_status
  performance :: "strategy_performance option"
  deactivation_reason :: "string option"

definition new_strategy_entry :: "strategy \<Rightarrow> strategy_entry" where
  "new_strategy_entry s = \<lparr>strat = s, strat_active = False, strat_validated = False,
     validation = no_validation, performance = None, deactivation_reason = None\<rparr>"

section \<open>Database table\<close>

record strategy_row =
  row_version :: string
  row_regimes :: "market_regime list"
  row_active :: bool
  row_validated :: bool
  row_reason :: "string option"

type_synonym strategy_table = "(string, strategy_row) dict"

definition upsert_strategy :: "strategy \<Rightarrow> strategy_table \<Rightarrow> strategy_table" where
  "upsert_strategy s t =
     (case map_of t (strat_name s) of
        Some r \<Rightarrow> AList.update (strat_name s) (r\<lparr>row_version := version s\<rparr>) t
      | None \<Rightarrow> AList.update (strat_name s) \<lparr>row_version = version s,
          row_regimes = supported_regimes s, row_active = False, row_validated = False,
          row_reason = None\<rparr> t)"

text \<open>\<open>UPDATE ... WHERE name = ...\<close>: nothing happens when the row is missing.\<close>

definition set_active_row ::
  "string \<Rightarrow> bool \<Rightarrow> string option \<Rightarrow> strategy_table \<Rightarrow> strategy_table" where
  "set_active_row n on r t =
     (case map_of t n of
        None \<Rightarrow> t
      | Some w \<Rightarrow> AList.update n
          (if \<not> on \<and> r \<noteq> None \<and> r \<noteq> Some []
           then w\<lparr>row_active := on, row_reason := r\<rparr> else w\<lparr>row_active := on\<rparr>) t)"

definition get_active_names :: "strategy_table \<Rightarrow> string list" where
  "get_active_names t = map fst (filter (\<lambda>(n, r). row_active r) t)"

section \<open>Registry\<close>

text \<open>\<open>table\<close> is \<open>None\<close> when no repository was injected; \<open>db_up\<close> whether its calls succeed.\<close>

record strategy_registry =
  strategies :: "(string, strategy_entry) dict"
  table :: "strategy_table option"
  db_up :: bool

definition inject_repository :: "strategy_table \<Rightarrow> strategy_registry \<Rightarrow> strategy_registry" where
  "inject_repository t r = r\<lparr>table := Some t\<rparr>"

definition get_active_names_from_db :: "strategy_registry \<Rightarrow> string list result" where
  "get_active_names_from_db r =
     (case table r of
        None \<Rightarrow> Inr []
      | Some t \<Rightarrow> if db_up r then Inr (get_active_names t) else Inl (ServiceError 0))"

definition register_strategy :: "strategy \<Rightarrow> strategy_registry \<Rightarrow> strategy_registry" where
  "register_strategy s r =
     r\<lparr>strategies := AList.update (strat_name s) (new_strategy_entry s) (strategies r)\<rparr>"

definition sync_registrations_to_db :: "strategy_registry \<Rightarrow> strategy_registry" where
  "sync_registrations_to_db r =
     (case table r of
        None \<Rightarrow> r
      | Some t \<Rightarrow>
          if db_up r
          then r\<lparr>table := Some (fold upsert_strategy (map strat (dict_values (strategies r))) t)\<rparr>
          else r)"

definition get_entry :: "strategy_registry \<Rightarrow> string \<Rightarrow> strategy_entry option" where
  "get_entry r n = map_of (strategies r) n"

definition get_entry_or_raise :: "strategy_registry \<Rightarrow> string \<Rightarrow> strategy_entry result" where
  "get_entry_or_raise r n = (case map_of (strategies r) n of None \<Rightarrow> Inl KeyError | Some e \<Rightarrow> Inr e)"

definition persist_active ::
  "string \<Rightarrow> bool \<Rightarrow> string option \<Rightarrow> strategy_registry \<Rightarrow> strategy_registry" where
  "persist_active n on why r =
     (case table r of
        None \<Rightarrow> r
      | Some t \<Rightarrow> if db_up r then r\<lparr>table := Some (set_active_row n on why t)\<rparr> else r)"

definition activate_strategy :: "string \<Rightarrow> strategy_registry \<Rightarrow> strategy_registry result" where
  "activate_strategy n r =
     bind_result (get_entry_or_raise r n)
       (\<lambda>e. Inr (persist_active n True None (r\<lparr>strategies := AList.update n
          (e\<lparr>strat_active := True, deactivation_reason := None\<rparr>) (strategies r)\<rparr>)))"

definition deactivate_strategy ::
  "string \<Rightarrow> string \<Rightarrow> strategy_registry \<Rightarrow> strategy_registry result" where
  "deactivate_strategy n why r =
     bind_result (get_entry_or_raise r n)
       (\<lambda>e. Inr (persist_active n False (Some why) (r\<lparr>strategies := AList.update n
          (e\<lparr>strat_active := False, deactivation_reason := Some why\<rparr>) (strategies r)\<rparr>)))"

definition mark_validated ::
  "string \<Rightarrow> validation_status \<Rightarrow> strategy_registry \<Rightarrow> strategy_registry result" where
  "mark_validated n v r =
     bind_result (get_entry_or_raise r n)
       (\<lambda>e. Inr (r\<lparr>strategies := AList.update n
          (e\<lparr>validation := v, strat_validated := can_go_live v\<rparr>) (strategies r)\<rparr>))"

text \<open>The reason of an automatic deactivation quotes the metrics; its text is left to \<open>why\<close>.\<close>

definition update_performance ::
  "string \<Rightarrow> strategy_performance \<Rightarrow> string \<Rightarrow> strategy_registry \<Rightarrow> strategy_registry result" where
  "update_performance n p why r =
     bind_result (get_entry_or_raise r n)
       (\<lambda>e. let r1 = r\<lparr>strategies := AList.update n (e\<lparr>performance := Some p\<rparr>) (strategies r)\<rparr>
            in if should_deactivate p \<and> strat_active e then deactivate_strategy n why r1 else Inr r1)"

definition get_active :: "market_regime option \<Rightarrow> strategy_registry \<Rightarrow> strategy list" where
  "get_active m r =
     map strat (filter
       (\<lambda>e. strat_active e \<and> (case m of None \<Rightarrow> True | Some g \<Rightarrow> g \<in> set (supported_regimes (strat e))))
       (dict_values (strategies r)))"

definition strategy_is_active :: "strategy_registry \<Rightarrow> string \<Rightarrow> bool" where
  "strategy_is_active r n =
     (case map_of (strategies r) n of Some e \<Rightarrow> strat_active e | None \<Rightarrow> False)"

definition strategy_is_validated :: "strategy_registry \<Rightarrow> string \<Rightarrow> bool" where
  "strategy_is_validated r n =
     (case map_of (strategies r) n of Some e \<Rightarrow> strat_validated e | None \<Rightarrow> False)"

definition strategy_known :: "strategy_registry \<Rightarrow> string \<Rightarrow> bool" where
  "strategy_known r n \<longleftrightarrow> get_entry r n \<noteq> None"

definition unregister :: "string \<Rightarrow> strategy_registry \<Rightarrow> strategy_registry" where
  "unregister n r = r\<lparr>strategies := AList.delete n (strategies r)\<rparr>"

definition clear_registry :: "strategy_registry \<Rightarrow> strategy_registry" where
  "clear_registry r = r\<lparr>strategies := [], table := None\<rparr>"

section \<open>The interface of activation\<close>

text \<open>
  What a client that switches strategies on and off relies on: the two calls fail only for a name
  that is not registered, change the activation of that name and nothing else.
\<close>

locale activation =
  fixes known :: "'s \<Rightarrow> string \<Rightarrow> bool"
    and active :: "'s \<Rightarrow> string \<Rightarrow> bool"
    and valid :: "'s \<Rightarrow> string \<Rightarrow> bool"
    and act :: "string \<Rightarrow> 's \<Rightarrow> 's result"
    and deact :: "string \<Rightarrow> 's \<Rightarrow> 's result"
  assumes act_ok: "known s n \<Longrightarrow> \<exists>s'. act n s = Inr s'"
    and deact_ok: "known s n \<Longrightarrow> \<exists>s'. deact n s = Inr s'"
    and act_active: "act n s = Inr s' \<Longrightarrow> active s' k \<longleftrightarrow> k = n \<or> active s k"
    and deact_active: "deact n s = Inr s' \<Longrightarrow> active s' k \<longleftrightarrow> k \<noteq> n \<and> active s k"
    and act_keeps: "act n s = Inr s' \<Longrightarrow> known s' k = known s k \<and> valid s' k = valid s k"
    and deact_keeps: "deact n s = Inr s' \<Longrightarrow> known s' k = known s k \<and> valid s' k = valid s k"
begin

text \<open>The loop of a gatekeeper: known names are activated if valid and deactivated otherwise.\<close>

primrec gate :: "string list \<Rightarrow> 's \<Rightarrow> 's result" where
  "gate [] s = Inr s"
| "gate (n # ns) s =
     (if \<not> known s n then gate ns s
      else bind_result (if valid s n then act n s else deact n s) (gate ns))"

lemma gate_result:
  "\<exists>s'. gate ns s = Inr s' \<and> (\<forall>k. known s' k = known s k \<and> valid s' k = valid s k) \<and>
    (\<forall>k. active s' k \<longleftrightarrow> (if k \<in> set ns \<and> known s k then valid s k else active s k))"
proof (induction ns arbitrary: s)
  case Nil
  then show ?case by simp
next
  case (Cons n ns)
  consider "\<not> known s n" | "known s n" "valid s n" | "known s n" "\<not> valid s n" by blast
  then show ?case
  proof cases
    case 1
    with Cons.IH [of s] show ?thesis by auto
  next
    case 2
    obtain s1 where s1: "act n s = Inr s1" using act_ok 2 by blast
    from Cons.IH [of s1] show ?thesis
      using 2 s1 act_active [OF s1] act_keeps [OF s1] by (auto split: if_splits)
  next
    case 3
    obtain s1 where s1: "deact n s = Inr s1" using deact_ok 3 by blast
    from Cons.IH [of s1] show ?thesis
      using 3 s1 deact_active [OF s1] deact_keeps [OF s1] by (auto split: if_splits)
  qed
qed

end

lemma persist_active_strategies [simp]: "strategies (persist_active n on why r) = strategies r"
  by (simp add: persist_active_def split: option.split)

lemmas registry_defs = get_entry_def get_entry_or_raise_def activate_strategy_def
  deactivate_strategy_def strategy_is_active_def strategy_is_validated_def strategy_known_def

interpretation registry: activation strategy_known strategy_is_active
  strategy_is_validated activate_strategy "\<lambda>n. deactivate_strategy n why" for why
  by unfold_locales (auto simp: registry_defs split: option.splits if_splits)

section \<open>Activation in memory and in the database\<close>

text \<open>
  \<open>db_agrees\<close>: every registered strategy has a row, and the row tells whether the strategy is active.
  This is what lets a restart find the active strategies.
\<close>

definition db_agrees :: "strategy_registry \<Rightarrow> bool" where
  "db_agrees r \<longleftrightarrow> db_up r \<and> dict_ok (strategies r) \<and>
     (case table r of None \<Rightarrow> False | Some t \<Rightarrow> dict_ok t \<and>
       (\<forall>n e. map_of (strategies r) n = Some e \<longrightarrow>
          (\<exists>w. map_of t n = Some w \<and> row_active w = strat_active e)))"

datatype registry_op =
    ActivateStrategy string
  | DeactivateStrategy string string
  | MarkValidated string validation_status
  | UpdatePerformance string strategy_performance string

text \<open>A call that raises leaves the registry as it is.\<close>

fun registry_step :: "strategy_registry \<Rightarrow> registry_op \<Rightarrow> strategy_registry" where
  "registry_step r (ActivateStrategy n) = case_sum (\<lambda>_. r) id (activate_strategy n r)"
| "registry_step r (DeactivateStrategy n why) = case_sum (\<lambda>_. r) id (deactivate_strategy n why r)"
| "registry_step r (MarkValidated n v) = case_sum (\<lambda>_. r) id (mark_validated n v r)"
| "registry_step r (UpdatePerformance n p why) = case_sum (\<lambda>_. r) id (update_performance n p why r)"

lemma set_active_row_ok [simp]: "dict_ok t \<Longrightarrow> dict_ok (set_active_row n on why t)"
  by (simp add: set_active_row_def split: option.split)

lemma map_of_set_active_row:
  "map_of (set_active_row n on why t) k =
    (if k = n then map_option (\<lambda>w. if \<not> on \<and> why \<noteq> None \<and> why \<noteq> Some []
        then w\<lparr>row_active := on, row_reason := why\<rparr> else w\<lparr>row_active := on\<rparr>) (map_of t k)
     else map_of t k)"
  by (auto simp: set_active_row_def split: option.split)

lemma agrees_switch [preserves]:
  assumes "db_agrees r" and "map_of (strategies r) n = Some e" and "strat_active e' = on"
  shows "db_agrees (persist_active n on why (r\<lparr>strategies := AList.update n e' (strategies r)\<rparr>))"
proof -
  from assms(1) obtain t where t: "table r = Some t" "db_up r" "dict_ok t" "dict_ok (strategies r)"
    and agree: "\<And>k e. map_of (strategies r) k = Some e \<Longrightarrow>
        \<exists>w. map_of t k = Some w \<and> row_active w = strat_active e"
    by (auto simp: db_agrees_def split: option.splits)
  from agree [OF assms(2)] obtain w where "map_of t n = Some w" by blast
  with t agree assms(3) show ?thesis
    by (auto simp: db_agrees_def persist_active_def map_of_set_active_row)
qed

lemma agrees_keep [preserves]:
  assumes "db_agrees r" and "map_of (strategies r) n = Some e" and "strat_active e' = strat_active e"
  shows "db_agrees (r\<lparr>strategies := AList.update n e' (strategies r)\<rparr>)"
  using assms by (auto simp: db_agrees_def split: option.splits)

lemma agrees_step [preserves]: "db_agrees r \<Longrightarrow> db_agrees (registry_step r op)"
proof (induction op)
  case (UpdatePerformance n p why)
  show ?case
  proof (cases "map_of (strategies r) n")
    case None
    with UpdatePerformance show ?thesis by (simp add: update_performance_def registry_defs)
  next
    case (Some e)
    let ?r = "r\<lparr>strategies := AList.update n (e\<lparr>performance := Some p\<rparr>) (strategies r)\<rparr>"
    have r: "db_agrees ?r" by (rule agrees_keep [OF UpdatePerformance Some]) simp
    show ?thesis
    proof (cases "should_deactivate p \<and> strat_active e")
      case False
      with r Some show ?thesis by (auto simp: update_performance_def registry_defs Let_def)
    next
      case True
      have "db_agrees (persist_active n False (Some why) (?r\<lparr>strategies := AList.update n
          (e\<lparr>performance := Some p, strat_active := False, deactivation_reason := Some why\<rparr>)
          (strategies ?r)\<rparr>))"
        by (rule agrees_switch [OF r]) simp_all
      with True Some show ?thesis
        by (simp add: update_performance_def registry_defs Let_def)
    qed
  qed
qed (auto simp: registry_defs mark_validated_def intro: agrees_switch agrees_keep
       split: option.splits)

interpretation registry_db: stateful registry_step db_agrees
  by unfold_locales (rule agrees_step)

lemma active_names_agree:
  assumes "db_agrees r" and "get_entry r n \<noteq> None"
  shows "\<exists>ns. get_active_names_from_db r = Inr ns \<and> (n \<in> set ns \<longleftrightarrow> strategy_is_active r n)"
proof -
  from assms obtain t e w where t: "table r = Some t" "db_up r" "dict_ok t"
    and e: "map_of (strategies r) n = Some e" "map_of t n = Some w" "row_active w = strat_active e"
    by (fastforce simp: db_agrees_def get_entry_def split: option.splits)
  have "n \<in> set (get_active_names t) \<longleftrightarrow> (\<exists>w. (n, w) \<in> set t \<and> row_active w)"
    by (force simp: get_active_names_def)
  also have "\<dots> \<longleftrightarrow> row_active w"
    using e(2) by (auto simp flip: dict_ok_lookup [OF t(3)])
  finally show ?thesis using t e by (simp add: get_active_names_from_db_def strategy_is_active_def)
qed

section \<open>Property\<close>

text \<open>
  With a working database, after any sequence of activations, deactivations, validations and
  performance updates the names read back from the database are, among the registered strategies,
  exactly the active ones.
\<close>

theorem active_names_round_trip:
  assumes "db_agrees r" and "r' = run registry_step r ops" and "get_entry r' n \<noteq> None"
  shows "\<exists>ns. get_active_names_from_db r' = Inr ns \<and> (n \<in> set ns \<longleftrightarrow> strategy_is_active r' n)"
  using active_names_agree registry_db.run_ok assms by blast

definition demo_strategy :: strategy where
  "demo_strategy = \<lparr>strat_name = ''momentum'', version = ''1'', supported_regimes = [TRENDING_UP]\<rparr>"

definition demo_registry :: strategy_registry where
  "demo_registry = sync_registrations_to_db (register_strategy demo_strategy
     (inject_repository [] \<lparr>strategies = [], table = None, db_up = True\<rparr>))"

lemma demo_registry_agrees: "db_agrees demo_registry"
  by (simp add: demo_registry_def db_agrees_def sync_registrations_to_db_def register_strategy_def
      inject_repository_def upsert_strategy_def demo_strategy_def dict_values_def
      new_strategy_entry_def)

theorem active_names_round_trip_witness:
  "\<exists>ns. get_active_names_from_db (run registry_step demo_registry [ActivateStrategy ''momentum'']) =
    Inr ns \<and> ''momentum'' \<in> set ns"
proof -
  let ?r = "run registry_step demo_registry [ActivateStrategy ''momentum'']"
  have "get_entry ?r ''momentum'' \<noteq> None" "strategy_is_active ?r ''momentum''"
    by (simp_all add: demo_registry_def sync_registrations_to_db_def register_strategy_def
        inject_repository_def demo_strategy_def registry_defs)
  with active_names_round_trip [OF demo_registry_agrees refl, of "[ActivateStrategy ''momentum'']" "''momentum''"]
  show ?thesis by simp
qed

end
