(* ===== verification/Recovery.thy ===== *)
theory Recovery
  imports Kill_Switch Strategy_Registry
begin

text \<open>
  \<open>RecoveryManager\<close> of \<open>sgr/core/resilience.py\<close>: what a process does after a restart with the state
  other processes and the database still hold. The positions are restored by the portfolio engine
  (see \<open>Portfolio_Engine\<close>) and the open orders are only listed; both are given by their outcomes here.
\<close>

section \<open>Operations\<close>

definition recovery_reason :: string where
  "recovery_reason = ''recovery: validation gate failed on restart''"

text \<open>
  The loop of \<open>_restore_strategies\<close>. The \<open>try\<close> around it turns an exception into \<open>False\<close>; what the
  loop did before it stays done, hence the registry in both results.
\<close>

fun restore_loop :: "string list \<Rightarrow> strategy_registry \<Rightarrow> strategy_registry \<times> bool" where
  "restore_loop [] r = (r, True)"
| "restore_loop (n # ns) r =
     (case get_entry r n of
        None \<Rightarrow> restore_loop ns r
      | Some e \<Rightarrow>
          (case (if strat_validated e then activate_strategy n r
                 else deactivate_strategy n recovery_reason r) of
             Inl x \<Rightarrow> (r, False)
           | Inr r1 \<Rightarrow> restore_loop ns r1))"

definition restore_strategies :: "strategy_registry \<Rightarrow> strategy_registry \<times> bool" where
  "restore_strategies r =
     (case get_active_names_from_db r of
        Inl x \<Rightarrow> (r, False)
      | Inr ns \<Rightarrow> restore_loop ns r)"

text \<open>
  \<open>_restore_kill_switch\<close>: \<open>redis\<close> says whether a client was injected, \<open>get_ok\<close> whether its read
  succeeds.
\<close>

definition restore_kill_switch ::
  "bool \<Rightarrow> bool \<Rightarrow> time \<Rightarrow> trading_mode \<Rightarrow> string option \<Rightarrow> world \<Rightarrow> ks_registry \<Rightarrow>
   ks_registry \<times> bool" where
  "restore_kill_switch redis get_ok now m t w reg =
     (if \<not> redis then (reg, True)
      else case read_kill_switch_state_from_redis get_ok w m t of
             None \<Rightarrow> (reg, True)
           | Some p \<Rightarrow>
               if \<not> p_active p then (reg, True)
               else let (k, reg1) = get_kill_switch m t reg;
                        k1 = inject_redis k;
                        why = (case p_reason p of
                                 Some r \<Rightarrow> if r = [] then ''unknown'' else r
                               | None \<Rightarrow> ''unknown'')
                    in (AList.update (t, m) (k1\<lparr>st := ks_state_trigger now why m (st k1)\<rparr>) reg1, True))"

text \<open>
  \<open>recover_after_crash\<close>: the four steps one after the other, each tried whatever the others did.
  \<open>restore_positions\<close> is the portfolio's restore, \<open>orders_read\<close> whether the open orders can be read.
\<close>

definition recover_after_crash ::
  "('p \<Rightarrow> 'p result) \<Rightarrow> bool \<Rightarrow> bool \<Rightarrow> bool \<Rightarrow> time \<Rightarrow> trading_mode \<Rightarrow> string option \<Rightarrow> world \<Rightarrow>
   'p \<Rightarrow> strategy_registry \<Rightarrow> ks_registry \<Rightarrow> 'p \<times> strategy_registry \<times> ks_registry \<times> bool" where
  "recover_after_crash restore_positions orders_read redis get_ok now m t w p r reg =
     (let (p1, positions_ok) = (case restore_positions p of Inl x \<Rightarrow> (p, False) | Inr p1 \<Rightarrow> (p1, True));
          (r1, strategies_ok) = restore_strategies r;
          (reg1, kill_switch_ok) = restore_kill_switch redis get_ok now m t w reg
      in (p1, r1, reg1, positions_ok \<and> orders_read \<and> strategies_ok \<and> kill_switch_ok))"

section \<open>Properties\<close>

lemma restore_loop_gate:
  "registry.gate recovery_reason ns r = Inr (fst (restore_loop ns r)) \<and> snd (restore_loop ns r)"
proof (induction ns arbitrary: r)
  case Nil
  then show ?case by simp
next
  case (Cons n ns)
  show ?case
  proof (cases "get_entry r n")
    case None
    then have "\<not> strategy_known r n" by (simp add: strategy_known_def)
    with Cons.IH [of r] None show ?thesis by simp
  next
    case (Some e)
    then have v: "strategy_is_validated r n = strat_validated e" "strategy_known r n"
      by (simp_all add: strategy_is_validated_def get_entry_def strategy_known_def)
    obtain r1 where r1: "(if strat_validated e then activate_strategy n r
        else deactivate_strategy n recovery_reason r) = Inr r1"
      using registry.act_ok [OF v(2)] registry.deact_ok [OF v(2), of recovery_reason] by fastforce
    with Some v Cons.IH [of r1] show ?thesis by (auto split: if_splits)
  qed
qed

text \<open>
  Recovery does not bypass the validation gate: among the registered strategies exactly those
  that the database lists as active and that the current validation passed are active afterwards,
  every listed strategy without a passed validation is inactive, and the step reports success.
\<close>

theorem recovery_respects_validation:
  assumes "get_active_names_from_db r = Inr ns" and "restore_strategies r = (r', ok)"
  shows "ok \<and> (\<forall>n. strategy_known r n \<longrightarrow>
    (strategy_is_active r' n \<longleftrightarrow>
      (if n \<in> set ns then strategy_is_validated r n else strategy_is_active r n)))"
proof -
  have r': "restore_loop ns r = (r', ok)" using assms by (simp add: restore_strategies_def)
  with restore_loop_gate [of ns r] have "registry.gate recovery_reason ns r = Inr r'" "ok" by simp_all
  with registry.gate_result [of recovery_reason ns r] show ?thesis by auto
qed

definition crashed_registry :: strategy_registry where
  "crashed_registry = \<lparr>strategies = [(''momentum'', new_strategy_entry demo_strategy),
       (''breakout'', (new_strategy_entry demo_strategy)\<lparr>strat_validated := True\<rparr>)],
     table = Some [(n, \<lparr>row_version = ''1'', row_regimes = [], row_active = True,
       row_validated = True, row_reason = None\<rparr>). n \<leftarrow> [''momentum'', ''breakout'', ''gone'']],
     db_up = True\<rparr>"

theorem recovery_respects_validation_witness:
  "strategy_is_active (fst (restore_strategies crashed_registry)) ''breakout'' \<and>
   \<not> strategy_is_active (fst (restore_strategies crashed_registry)) ''momentum''"
proof -
  have ns: "get_active_names_from_db crashed_registry = Inr [''momentum'', ''breakout'', ''gone'']"
    by (simp add: crashed_registry_def get_active_names_from_db_def get_active_names_def)
  from recovery_respects_validation [OF ns prod.collapse [symmetric]]
  have "\<forall>n. strategy_known crashed_registry n \<longrightarrow>
    (strategy_is_active (fst (restore_strategies crashed_registry)) n \<longleftrightarrow>
      (if n \<in> set [''momentum'', ''breakout'', ''gone''] then strategy_is_validated crashed_registry n
       else strategy_is_active crashed_registry n))" by blast
  from spec [OF this, of "''breakout''"] spec [OF this, of "''momentum''"] show ?thesis
    by (simp add: crashed_registry_def registry_defs new_strategy_entry_def)
qed

text \<open>
  C18. A trigger survives the restart: if the switch was triggered while Redis accepted the write,
  and the new process can read it, then its own, freshly created switch is active with the same reason
  and refuses trading.
\<close>

theorem kill_switch_survives_restart:
  assumes "\<not> is_active (st k)" and "has_redis k" and "set_ok w" and "why \<noteq> []"
    and "trigger now why close k w = (k', w')"
    and "restore_kill_switch True True now' (mode k) (tenant k) w' [] = (reg, ok)"
  shows "ok \<and> \<not> trading_allowed (fst (get_kill_switch (mode k) (tenant k) reg))
    \<and> reason (st (fst (get_kill_switch (mode k) (tenant k) reg))) = Some why"
proof -
  have read: "read_kill_switch_state_from_redis True w' (mode k) (tenant k) = Some (payload_of (st k'))"
    and a: "is_active (st k')" "reason (st k') = Some why"
    using trigger_persists [OF assms(1) assms(5)] assms(2,3) by simp_all
  with assms(4,6) show ?thesis
    by (auto simp: restore_kill_switch_def payload_of_def get_kill_switch_def Let_def
        trading_allowed_def ks_state_trigger_def)
qed

theorem kill_switch_survives_restart_witness:
  "\<not> trading_allowed (fst (get_kill_switch PAPER (Some ''gordon'')
     (fst (restore_kill_switch True True 9 PAPER (Some ''gordon'')
       (snd (trigger 5 ''drawdown'' True demo_switch demo_world)) []))))"
proof -
  have h: "\<not> is_active (st demo_switch)" "has_redis demo_switch" "set_ok demo_world"
    "''drawdown'' \<noteq> ([] :: string)" "mode demo_switch = PAPER" "tenant demo_switch = Some ''gordon''"
    by (simp_all add: demo_switch_def demo_world_def inject_redis_def inject_exchange_pool_def
        new_kill_switch_def ks_init_def)
  from kill_switch_survives_restart [OF h(1-4) prod.collapse [symmetric] prod.collapse [symmetric],
      where now = 5 and now' = 9 and close = True] h(5,6)
  show ?thesis by simp
qed

text \<open>
  When the read fails the restart does not notice: the step reports success and no switch is
  active, although the switch was triggered and Redis holds the trigger.
\<close>

theorem restart_ignores_unreadable_state:
  "restore_kill_switch True False now m t w reg = (reg, True)"
  by (simp add: restore_kill_switch_def read_kill_switch_state_from_redis_def)

end
