(* ===== verification/Position_Sizer.thy ===== *)
theory Position_Sizer
  imports Core_Types
begin

text \<open>
  \<open>sgr/risk/position_sizer.py\<close>: the stateless computation of an order quantity from a signal under all
  constraints, in its adaptive form (the most conservative of several sizes) and in the form with a
  fixed notional. The keyword arguments of \<open>compute\<close> are the fields of \<open>sizing\<close>; the texts of the
  reasons are the constructors of \<open>size_reason\<close> with the values they quote.
\<close>

record sizing =
  portfolio_value :: dec
  available_capital :: dec
  sz_price :: dec
  atr :: "dec option"
  sz_heat :: flt
  max_position_pct :: flt
  max_portfolio_heat :: flt
  sz_win_rate :: "flt option"
  sz_profit_factor :: "flt option"
  min_order_size :: dec
  max_order_notional :: "dec option"
  position_size_usd :: "dec option"
  stop_loss_pct :: "flt option"
  risk_per_trade_pct :: "flt option"

datatype size_reason =
    InvalidValueOrPrice
  | NoCapital
  | HeatAtMaximum flt
  | BelowMinimumSize dec dec
  | MaxOrderSizeCap dec
  | AtrSizing
  | KellyReduction
  | HeatLimit flt
  | CappedByCapital
  | CappedByMaxOrder dec
  | RiskBudgetExceeded dec dec
  | FixedRoundsToZero dec dec

definition fractional_kelly :: "flt \<Rightarrow> flt \<Rightarrow> flt" where
  "fractional_kelly w pf =
     (let loss = 1 - w
      in if pf \<le> 0 then 0 else max ((w * pf - loss) / pf) 0 * flit (1/4))"

definition max_notional :: "sizing \<Rightarrow> dec" where
  "max_notional s = portfolio_value s * dec_of_float (max_position_pct s)"

definition base_notional :: "signal \<Rightarrow> sizing \<Rightarrow> dec" where
  "base_notional sg s = max_notional s * dec_of_float (size_hint sg)"

definition atr_notional :: "sizing \<Rightarrow> dec option" where
  "atr_notional s =
     (case atr s of
        None \<Rightarrow> None
      | Some a \<Rightarrow>
          if 0 < a
          then Some (portfolio_value s * Dec (1/100) / (a * Dec 2) * sz_price s)
          else None)"

definition kelly_notional :: "sizing \<Rightarrow> dec option" where
  "kelly_notional s =
     (case (sz_win_rate s, sz_profit_factor s) of
        (Some w, Some pf) \<Rightarrow>
          if 0 < w
          then let k = fractional_kelly w pf
               in if 0 < k then Some (portfolio_value s * dec_of_float k) else None
          else None
      | _ \<Rightarrow> None)"

definition remaining_heat :: "sizing \<Rightarrow> flt" where
  "remaining_heat s = max_portfolio_heat s - sz_heat s"

definition heat_notional :: "sizing \<Rightarrow> dec" where
  "heat_notional s = portfolio_value s * dec_of_float (remaining_heat s) * Dec (1/10)"

definition candidates :: "signal \<Rightarrow> sizing \<Rightarrow> dec list" where
  "candidates sg s = [base_notional sg s] @
     (case atr_notional s of Some a \<Rightarrow> [a] | None \<Rightarrow> []) @
     (case kelly_notional s of Some k \<Rightarrow> [k] | None \<Rightarrow> []) @ [heat_notional s]"

text \<open>Steps 5 to 7: the smallest candidate, the hard cap, the available capital.\<close>

definition capped_notional :: "signal \<Rightarrow> sizing \<Rightarrow> dec" where
  "capped_notional sg s =
     min (min (foldl min (hd (candidates sg s)) (tl (candidates sg s))) (max_notional s))
       (available_capital s)"

text \<open>Step 7b: the absolute cap, and whether it applied.\<close>

definition order_size_cap :: "dec \<Rightarrow> sizing \<Rightarrow> dec \<times> bool" where
  "order_size_cap n s =
     (case max_order_notional s of
        Some m \<Rightarrow> if m < n then (m, True) else (n, False)
      | None \<Rightarrow> (n, False))"

definition confidence_reduction :: "signal \<Rightarrow> dec \<Rightarrow> dec" where
  "confidence_reduction sg n =
     (if confidence sg < flit (3/5) then n * dec_of_float (confidence sg / flit (3/5)) else n)"

definition smaller :: "dec option \<Rightarrow> dec \<Rightarrow> bool" where
  "smaller x b = (case x of Some v \<Rightarrow> v \<noteq> 0 \<and> v < b | None \<Rightarrow> False)"

definition reduction_reason :: "signal \<Rightarrow> sizing \<Rightarrow> dec \<Rightarrow> bool \<Rightarrow> size_reason option" where
  "reduction_reason sg s final capped =
     (let b = base_notional sg s
      in if capped then map_option MaxOrderSizeCap (max_order_notional s)
         else if final < b * Dec (9/10)
         then if smaller (atr_notional s) b then Some AtrSizing
              else if smaller (kelly_notional s) b then Some KellyReduction
              else if heat_notional s < b then Some (HeatLimit (sz_heat s))
              else None
         else None)"

definition compute_fixed_notional :: "sizing \<Rightarrow> dec \<Rightarrow> (dec \<times> size_reason option) result" where
  "compute_fixed_notional s usd =
     (let (n1, r1) = (if available_capital s < usd then (available_capital s, Some CappedByCapital)
                      else (usd, None));
          (n2, r2) = (case max_order_notional s of
                        Some m \<Rightarrow> if m < n1 then (m, Some (CappedByMaxOrder m)) else (n1, r1)
                      | None \<Rightarrow> (n1, r1));
          reject = (case (stop_loss_pct s, risk_per_trade_pct s) of
                      (Some sl, Some rp) \<Rightarrow>
                        let implied = n2 * dec_of_float sl; budget = available_capital s * dec_of_float rp
                        in if budget < implied then Some (RiskBudgetExceeded implied budget) else None
                    | _ \<Rightarrow> None)
      in case reject of
           Some e \<Rightarrow> Inr (0, Some e)
         | None \<Rightarrow>
             bind_result (quantize (n2 / sz_price s) 8 ROUND_HALF_EVEN)
               (\<lambda>q. if q \<le> 0 then Inr (0, Some (FixedRoundsToZero n2 (sz_price s)))
                    else Inr (q, r2)))"

definition compute_adaptive :: "signal \<Rightarrow> sizing \<Rightarrow> (dec \<times> size_reason option) result" where
  "compute_adaptive sg s =
     (if remaining_heat s \<le> 0 then Inr (0, Some (HeatAtMaximum (sz_heat s)))
      else let (n, capped) = order_size_cap (capped_notional sg s) s;
               final = confidence_reduction sg n;
               qty = final / sz_price s
           in if qty < min_order_size s then Inr (0, Some (BelowMinimumSize qty (min_order_size s)))
              else bind_result (quantize qty 8 ROUND_HALF_EVEN)
                (\<lambda>q. Inr (q, reduction_reason sg s final capped)))"

definition compute :: "signal \<Rightarrow> sizing \<Rightarrow> (dec \<times> size_reason option) result" where
  "compute sg s =
     (if portfolio_value s \<le> 0 \<or> sz_price s \<le> 0 then Inr (0, Some InvalidValueOrPrice)
      else if available_capital s \<le> 0 then Inr (0, Some NoCapital)
      else case position_size_usd s of
             Some usd \<Rightarrow> compute_fixed_notional s usd
           | None \<Rightarrow> compute_adaptive sg s)"

section \<open>Bounds\<close>

text \<open>The caps on the notional of an adaptively sized order.\<close>

definition notional_caps :: "signal \<Rightarrow> sizing \<Rightarrow> dec list" where
  "notional_caps sg s = candidates sg s @ [max_notional s, available_capital s] @
     (case max_order_notional s of Some m \<Rightarrow> [m] | None \<Rightarrow> [])"

lemma foldl_min_le: "foldl min x xs \<le> x \<and> (\<forall>y \<in> set xs. foldl min x xs \<le> y)"
  for x :: "'a::linorder"
proof (induction xs arbitrary: x)
  case Nil
  then show ?case by simp
next
  case (Cons y ys)
  have "foldl min (min x y) ys \<le> min x y" using Cons.IH by blast
  then show ?case using Cons.IH [of "min x y"] by (auto intro: order_trans)
qed

lemma foldl_min_in: "foldl min x xs \<in> insert x (set xs)"
  for x :: "'a::linorder"
  by (induction xs arbitrary: x) (auto simp: min_def)

lemma candidates_not_Nil [simp]: "candidates sg s \<noteq> []"
  by (simp add: candidates_def)

lemma capped_le:
  assumes "c \<in> set (candidates sg s @ [max_notional s, available_capital s])"
  shows "capped_notional sg s \<le> c"
proof -
  let ?m = "foldl min (hd (candidates sg s)) (tl (candidates sg s))"
  have "?m \<le> d" if "d \<in> set (candidates sg s)" for d
    using foldl_min_le [of "hd (candidates sg s)" "tl (candidates sg s)"] that
    by (cases "candidates sg s") (auto simp del: dec_order)
  then show ?thesis using assms unfolding capped_notional_def
    by (auto simp: min_le_iff_disj simp del: dec_order)
qed

lemma order_size_cap_le:
  assumes "order_size_cap n s = (n', b)"
  shows "n' \<le> n" and "max_order_notional s = Some m \<Longrightarrow> n' \<le> m"
  using assms by (auto simp: order_size_cap_def split: option.splits if_splits)

lemma is_dec_candidates: "c \<in> set (candidates sg s) \<Longrightarrow> is_dec c"
  by (auto simp: candidates_def base_notional_def atr_notional_def kelly_notional_def
      heat_notional_def Let_def split: option.splits if_splits)

lemma is_dec_capped:
  "is_dec (available_capital s) \<Longrightarrow> is_dec (capped_notional sg s)"
proof -
  have "foldl min (hd (candidates sg s)) (tl (candidates sg s)) \<in> set (candidates sg s)"
    using foldl_min_in [of "hd (candidates sg s)" "tl (candidates sg s)"]
    by (cases "candidates sg s") auto
  then show "is_dec (available_capital s) \<Longrightarrow> is_dec (capped_notional sg s)"
    using is_dec_candidates by (simp add: capped_notional_def max_notional_def)
qed

lemma flit_3_5_pos: "0 < fval (flit (3/5))"
  by (simp add: flit_pos)

lemma confidence_factor:
  assumes "is_float f" and "0 \<le> fval f" and "f < flit (3/5)"
  shows "0 \<le> dval (dec_of_float (f / flit (3/5)))" and "dval (dec_of_float (f / flit (3/5))) \<le> 1"
proof -
  let ?r = "fval f / fval (flit (3/5))"
  have r: "0 \<le> ?r" "?r \<le> 1" using assms(2,3) flit_3_5_pos by (simp_all add: divide_le_eq)
  have one: "rnd_flt 1 = 1" by simp
  from r have "0 \<le> fval (f / flit (3/5))" "fval (f / flit (3/5)) \<le> 1"
    using flt.rnd_nonneg [OF r(1)] flt.rnd_le_exact [OF r(2) one] by simp_all
  then show "0 \<le> dval (dec_of_float (f / flit (3/5)))" "dval (dec_of_float (f / flit (3/5))) \<le> 1"
    by (auto intro: dec_of_float_nonneg dec_of_float_le_1)
qed

definition signal_ok :: "signal \<Rightarrow> bool" where
  "signal_ok sg \<longleftrightarrow> is_float (confidence sg) \<and> 0 \<le> fval (confidence sg) \<and> fval (confidence sg) \<le> 1 \<and>
     is_float (size_hint sg) \<and> 0 \<le> fval (size_hint sg) \<and> fval (size_hint sg) \<le> 1"

lemma confidence_reduction_le:
  assumes "signal_ok sg" and "is_dec n" and "0 < dval (confidence_reduction sg n)"
  shows "dval (confidence_reduction sg n) \<le> dval n"
proof (cases "confidence sg < flit (3/5)")
  case True
  let ?f = "dec_of_float (confidence sg / flit (3/5))"
  have f: "0 \<le> dval ?f" "dval ?f \<le> 1"
    using confidence_factor assms(1) True by (auto simp: signal_ok_def)
  have "0 < dval n * dval ?f"
    using assms(3) True dec.rnd_pos_imp [of "dval n * dval ?f"] by (simp add: confidence_reduction_def)
  then have "0 \<le> dval n" using f(1) by (simp add: zero_less_mult_iff)
  then have "dval (n * ?f) \<le> dval n" by (rule dec_mult_le [OF assms(2) _ f(2)])
  with True show ?thesis by (simp only: confidence_reduction_def if_True)
next
  case False
  then show ?thesis by (simp only: confidence_reduction_def if_False)
qed

lemma half_even_pos:
  assumes "quantize a 8 ROUND_HALF_EVEN = Inr q" and "0 < dval q"
  shows "0 < dval a" and "dval q \<le> dval a + 1 / (2 * 10 ^ 8)"
proof -
  have u: "bpow 10 8 = 10 ^ 8" by code_simp
  obtain k where k: "dval q * 10 ^ 8 = of_int k"
    using quantize_multiple [OF assms(1)] u by (auto elim: Ints_cases)
  then have "0 < k" using assms(2) by (metis mult_pos_pos of_int_0_less_iff zero_less_numeral zero_less_power)
  then have "1 \<le> dval q * 10 ^ 8" unfolding k by simp
  then have one: "1 / 100000000 \<le> dval q" by simp
  have "dval q - dval a \<le> 1 / 200000000"
    using abs_le_D1 [OF quantize_half_even [OF assms(1)]] u by simp
  with one have "0 < dval a \<and> dval q \<le> dval a + 1 / 200000000" by linarith
  then show "0 < dval a" "dval q \<le> dval a + 1 / (2 * 10 ^ 8)" by simp_all
qed

text \<open>
  C34. An adaptively sized order respects every constraint at once: a positive quantity exceeds none of
  the candidate sizes, the position cap, the available capital and the absolute order cap, each divided
  by the price, by more than half a unit of the eighth decimal place, to which the code rounds.
\<close>

theorem size_below_every_cap:
  assumes "compute sg s = Inr (q, r)" and "position_size_usd s = None" and "0 < dval q"
    and "signal_ok sg" and "is_dec (available_capital s)"
    and "\<And>m. max_order_notional s = Some m \<Longrightarrow> is_dec m"
  shows "\<forall>c \<in> set (notional_caps sg s). dval q \<le> dval (c / sz_price s) + 1 / (2 * 10 ^ 8)"
proof -
  have pos: "0 < dval (sz_price s)"
    and ad: "compute_adaptive sg s = Inr (q, r)"
    using assms(1-3) by (auto simp: compute_def split: if_splits)
  have q0: "q \<noteq> 0" using assms(3) by auto
  obtain n b where nb: "order_size_cap (capped_notional sg s) s = (n, b)" by fastforce
  let ?final = "confidence_reduction sg n"
  have qq: "quantize (?final / sz_price s) 8 ROUND_HALF_EVEN = Inr q"
    using ad q0 nb by (auto simp: compute_adaptive_def bind_result_Inr Let_def simp del: dval_simps split: if_splits)
  note half = half_even_pos [OF qq assms(3)]
  have f: "0 < dval ?final" by (rule dec_div_pos_imp [OF pos half(1)])
  have n: "is_dec n"
    using nb assms(6) is_dec_capped [OF assms(5)]
    by (auto simp: order_size_cap_def split: option.splits if_splits)
  have fn: "dval ?final \<le> dval n" by (rule confidence_reduction_le [OF assms(4) n f])
  have "dval n \<le> dval c" if "c \<in> set (notional_caps sg s)" for c
  proof -
    from that consider "c \<in> set (candidates sg s @ [max_notional s, available_capital s])"
      | "max_order_notional s = Some c" by (auto simp: notional_caps_def split: option.splits)
    then have "n \<le> c"
    proof cases
      case 1
      show ?thesis by (rule order_trans [OF order_size_cap_le(1) [OF nb] capped_le [OF 1]])
    next
      case 2
      show ?thesis by (rule order_size_cap_le(2) [OF nb 2])
    qed
    then show ?thesis by simp
  qed
  with fn half(2) show ?thesis
    using dec_div_mono [OF pos] by (meson add_right_mono order_trans)
qed

text \<open>
  A fixed-size order is never enlarged: a positive quantity is at most the configured notional, the
  available capital and the order cap, each divided by the price, up to half a unit of the eighth
  decimal; and a positive quantity only results if the loss implied by the stop is within the risk
  budget.
\<close>

theorem fixed_size_within_budget:
  assumes "compute sg s = Inr (q, r)" and "position_size_usd s = Some usd" and "0 < dval q"
  shows "\<exists>n. dval q \<le> dval (n / sz_price s) + 1 / (2 * 10 ^ 8)
    \<and> n \<le> usd \<and> n \<le> available_capital s \<and> (\<forall>m. max_order_notional s = Some m \<longrightarrow> n \<le> m)
    \<and> (\<forall>sl rp. stop_loss_pct s = Some sl \<longrightarrow> risk_per_trade_pct s = Some rp \<longrightarrow>
         n * dec_of_float sl \<le> available_capital s * dec_of_float rp)"
proof -
  define n1 where "n1 = (if available_capital s < usd then available_capital s else usd)"
  define n where "n = (case max_order_notional s of Some m \<Rightarrow> if m < n1 then m else n1 | None \<Rightarrow> n1)"
  have fx: "compute_fixed_notional s usd = Inr (q, r)"
    using assms by (auto simp: compute_def split: if_splits)
  have le: "n \<le> usd" "n \<le> available_capital s" "\<forall>m. max_order_notional s = Some m \<longrightarrow> n \<le> m"
    by (auto simp: n_def n1_def split: option.splits)
  have q: "q \<noteq> 0" using assms(3) by auto
  have "quantize (n / sz_price s) 8 ROUND_HALF_EVEN = Inr q \<and>
    (\<forall>sl rp. stop_loss_pct s = Some sl \<longrightarrow> risk_per_trade_pct s = Some rp \<longrightarrow>
       \<not> available_capital s * dec_of_float rp < n * dec_of_float sl)"
    using fx q
    by (auto simp: compute_fixed_notional_def n_def n1_def Let_def bind_result_Inr simp del: dec_order dval_simps
        split: option.splits if_splits)
  with le half_even_pos(2) [OF _ assms(3)] show ?thesis by (metis linorder_not_less)
qed

definition demo_signal :: signal where
  "demo_signal = \<lparr>sid = 7, sig_strategy = ''momentum'',
     sig_symbol = \<lparr>base = ''BTC'', quote = ''USDT'', sym_exchange = BINANCE, asset = ASSET_FUTURES\<rparr>, direction = SIG_LONG,
     confidence = 1, size_hint = 1, regime = TRENDING_UP, sig_metadata = []\<rparr>"

definition demo_sizing :: sizing where
  "demo_sizing = \<lparr>portfolio_value = Dec 1000, available_capital = Dec 800, sz_price = Dec 30,
     atr = Some (Dec 5), sz_heat = 0, max_position_pct = Flt (1/4),
     max_portfolio_heat = Flt (1/2), sz_win_rate = None, sz_profit_factor = None,
     min_order_size = Dec (1/1000), max_order_notional = Some (Dec 100),
     position_size_usd = None, stop_loss_pct = Some (Flt (1/2)),
     risk_per_trade_pct = Some (Flt (1/2))\<rparr>"

lemma demo_fields:
  "portfolio_value demo_sizing = Dec 1000" "available_capital demo_sizing = Dec 800"
  "sz_price demo_sizing = Dec 30" "min_order_size demo_sizing = Dec (1/1000)"
  "position_size_usd demo_sizing = None" "max_order_notional demo_sizing = Some (Dec 100)"
  "atr demo_sizing = Some (Dec 5)" "max_position_pct demo_sizing = Flt (1/4)"
  "sz_win_rate demo_sizing = None" "size_hint demo_signal = 1" "confidence demo_signal = 1"
  by (simp_all add: demo_sizing_def demo_signal_def)

lemma demo_heat: "remaining_heat demo_sizing = Flt (1/2)"
  by (simp add: remaining_heat_def demo_sizing_def flt_eq_iff)

lemma demo_sizes:
  "max_notional demo_sizing = Dec 250" "base_notional demo_signal demo_sizing = Dec 250"
  "atr_notional demo_sizing = Some (Dec 30)" "kelly_notional demo_sizing = None"
  "heat_notional demo_sizing = Dec 50"
  by (simp_all add: max_notional_def base_notional_def atr_notional_def kelly_notional_def
      heat_notional_def demo_heat demo_fields dec_eq_iff rnd_dec_grid_0)

lemma quantize_1: "quantize (Dec 1) 8 ROUND_HALF_EVEN = Inr (Dec 1)"
  by code_simp

lemma demo_compute: "\<exists>r. compute demo_signal demo_sizing = Inr (Dec 1, r)"
proof -
  have "fval (flit (3/5)) \<le> 1" using flit_mono [of "3/5" 1] by (simp add: flit_def)
  then have c: "confidence_reduction demo_signal n = n" for n
    by (simp add: confidence_reduction_def demo_fields)
  have "capped_notional demo_signal demo_sizing = Dec 30"
    by (simp add: capped_notional_def candidates_def demo_sizes) (simp add: demo_fields min_def)
  moreover have "order_size_cap (Dec 30) demo_sizing = (Dec 30, False)"
    by (simp add: order_size_cap_def demo_fields)
  moreover have "Dec 30 / Dec 30 = Dec 1" by (simp add: dec_eq_iff)
  ultimately have "\<exists>r. compute_adaptive demo_signal demo_sizing = Inr (Dec 1, r)"
    by (simp add: compute_adaptive_def demo_sizes demo_heat c Let_def demo_fields quantize_1 del: dval_simps(3-))
  then show ?thesis by (simp add: compute_def demo_fields)
qed

lemma demo_signal_ok: "signal_ok demo_signal"
  by (simp add: signal_ok_def demo_signal_def is_float_def)

theorem size_below_every_cap_witness: "(1 :: rat) \<le> dval (Dec 50 / Dec 30) + 1 / (2 * 10 ^ 8)"
proof -
  obtain r where r: "compute demo_signal demo_sizing = Inr (Dec 1, r)"
    using demo_compute by blast
  have d: "is_dec (Dec 800)" "is_dec (Dec 100)" by (simp_all add: is_dec_def rnd_dec_grid_0)
  have "\<forall>c \<in> set (notional_caps demo_signal demo_sizing).
      dval (Dec 1) \<le> dval (c / sz_price demo_sizing) + 1 / (2 * 10 ^ 8)"
    by (rule size_below_every_cap [OF r _ _ demo_signal_ok]) (use d in \<open>simp_all add: demo_sizing_def\<close>)
  moreover have "Dec 50 \<in> set (notional_caps demo_signal demo_sizing)"
    by (simp add: notional_caps_def candidates_def demo_sizes)
  ultimately show ?thesis by (auto simp: demo_sizing_def simp del: dval_simps)
qed

definition demo_fixed :: sizing where
  "demo_fixed = demo_sizing\<lparr>position_size_usd := Some (Dec 30)\<rparr>"

theorem fixed_size_within_budget_witness:
  "\<exists>n. 1 \<le> dval (n / Dec 30) + 1 / (2 * 10 ^ 8) \<and> n \<le> Dec 30 \<and>
     n * Dec (1/2) \<le> Dec 800 * Dec (1/2)"
proof -
  have "Dec 30 / Dec 30 = Dec 1" by (simp add: dec_eq_iff)
  then have c: "compute demo_signal demo_fixed = Inr (Dec 1, None)"
    by (simp add: compute_def compute_fixed_notional_def demo_fixed_def demo_sizing_def quantize_1
        rnd_dec_grid_0)
  show ?thesis
    using fixed_size_within_budget [OF c, of "Dec 30"]
    by (auto simp: demo_fixed_def demo_sizing_def simp del: dval_simps)
qed

end
