(* ===== verification/Risk_Engine.thy ===== *)
theory Risk_Engine
  imports Kill_Switch Position_Sizer
begin

text \<open>
  \<open>sgr/risk/engine.py\<close> with \<open>RiskReport\<close> of \<open>sgr/risk/types.py\<close> and the historical method of
  \<open>sgr/risk/var_calculator.py\<close>: the evaluation of a signal against the state of the portfolio. Texts
  of reasons and warnings are constructors with the values they quote. \<open>numpy\<close>'s percentile and mean
  are the parameters \<open>pct\<close> and \<open>mean\<close>. Creating the task that triggers the kill switch is recorded in
  \<open>scheduled\<close>; the task runs after the evaluation has returned.
\<close>

section \<open>Value at risk\<close>

type_synonym percentile = "flt list \<Rightarrow> flt \<Rightarrow> flt"
type_synonym mean = "flt list \<Rightarrow> flt"

definition var_historical :: "percentile \<Rightarrow> mean \<Rightarrow> flt list \<Rightarrow> flt \<Rightarrow> flt \<times> flt" where
  "var_historical pct mean returns conf =
     (let losses = map uminus returns;
          v = pct losses (conf * flit 100);
          tail = filter (\<lambda>l. v \<le> l) losses;
          es = (if tail \<noteq> [] then mean tail else v)
      in (max v 0, max es v))"

definition var_compute :: "percentile \<Rightarrow> mean \<Rightarrow> flt list \<Rightarrow> flt \<times> flt" where
  "var_compute pct mean returns =
     (if length returns < 10 then (flit (1/20), flit (2/25))
      else var_historical pct mean returns (flit (19/20)))"

section \<open>Configuration, metrics, checks\<close>

record risk_limits =
  l_max_drawdown :: flt
  l_daily_loss :: flt
  l_max_single_position_pct :: flt
  l_var_95 :: flt
  l_heat :: flt
  l_correlation :: flt
  l_max_leverage :: dec
  l_max_open_positions :: int
  l_cooldown_seconds :: int
  l_max_order_notional :: "dec option"
  l_position_size_usd :: "dec option"
  l_stop_loss_pct :: flt
  l_risk_per_trade_pct :: flt
  l_max_total_exposure_pct :: "flt option"

record risk_metrics =
  m_portfolio_value :: dec
  m_daily_pnl :: dec
  m_daily_pnl_pct :: flt
  m_drawdown :: flt
  m_var_95 :: flt
  m_expected_shortfall :: flt
  m_heat :: flt
  m_active_positions :: int
  m_correlation :: flt
  m_gross_leverage :: flt

datatype limit_type = HARD | SOFT | MONITOR

datatype limit_status = LIM_OK | LIM_WARNING | LIM_BREACHED

datatype limit_name =
  MaxDrawdown | DailyLoss | MaxPositions | MaxLeverage | Var95 | PortfolioHeat | CorrelationExposure

record limit_check =
  lc_name :: limit_name
  lc_type :: limit_type
  lc_status :: limit_status
  lc_current :: flt
  lc_limit :: flt
  lc_factor :: flt

definition check_threshold ::
  "limit_name \<Rightarrow> limit_type \<Rightarrow> flt \<Rightarrow> flt \<Rightarrow> flt \<Rightarrow> flt \<Rightarrow> limit_check" where
  "check_threshold name ty current limit warn factor =
     (let status = (if limit \<le> current then LIM_BREACHED
                    else if limit * warn \<le> current then LIM_WARNING else LIM_OK)
      in \<lparr>lc_name = name, lc_type = ty, lc_status = status, lc_current = current, lc_limit = limit,
          lc_factor = (if status = LIM_BREACHED then factor else 1)\<rparr>)"

definition float_of_int :: "int \<Rightarrow> flt" where
  "float_of_int n = flit (of_int n)"

definition run_all_checks :: "risk_limits \<Rightarrow> risk_metrics \<Rightarrow> limit_check list" where
  "run_all_checks l m =
     [check_threshold MaxDrawdown HARD (m_drawdown m) (l_max_drawdown l) (flit (9/10)) (flit (1/2)),
      check_threshold DailyLoss HARD (if m_daily_pnl_pct m < 0 then - m_daily_pnl_pct m else 0)
        (l_daily_loss l) (flit (9/10)) (flit (1/2)),
      check_threshold MaxPositions HARD (float_of_int (m_active_positions m))
        (float_of_int (l_max_open_positions l)) (flit (9/10)) (flit (1/2)),
      check_threshold MaxLeverage HARD (m_gross_leverage m) (float_of (l_max_leverage l))
        (flit (9/10)) (flit (1/2)),
      check_threshold Var95 SOFT (m_var_95 m) (l_var_95 l) (flit (4/5)) (flit (1/2)),
      check_threshold PortfolioHeat SOFT (m_heat m) (l_heat l) (flit (17/20)) (flit (1/4)),
      check_threshold CorrelationExposure SOFT (m_correlation m) (l_correlation l)
        (flit (9/10)) (flit (1/2))]"

definition breached :: "limit_type \<Rightarrow> limit_check list \<Rightarrow> limit_check list" where
  "breached ty cs = filter (\<lambda>c. lc_status c = LIM_BREACHED \<and> lc_type c = ty) cs"

definition has_hard_breach :: "limit_check list \<Rightarrow> bool" where
  "has_hard_breach cs \<longleftrightarrow> (\<exists>c \<in> set cs. lc_status c = LIM_BREACHED \<and> lc_type c = HARD)"

definition min_reduction_factor :: "limit_check list \<Rightarrow> flt" where
  "min_reduction_factor cs =
     (case map lc_factor (breached SOFT cs) of [] \<Rightarrow> 1 | f # fs \<Rightarrow> foldl min f fs)"

section \<open>Engine\<close>

record risk_engine =
  re_mode :: trading_mode
  limits :: risk_limits
  re_switch :: kill_switch
  peak_value :: dec
  daily_pnl_start :: "dec option"
  daily_pnl_date :: "int option"
  return_history :: "flt list"
  last_trade_at :: "(string, time) dict"
  scheduled :: "limit_check list list"

definition new_risk_engine :: "trading_mode \<Rightarrow> risk_limits \<Rightarrow> kill_switch \<Rightarrow> risk_engine" where
  "new_risk_engine m l k = \<lparr>re_mode = m, limits = l, re_switch = k, peak_value = 0,
     daily_pnl_start = None, daily_pnl_date = None, return_history = [], last_trade_at = [],
     scheduled = []\<rparr>"

definition re_inject_redis :: "risk_engine \<Rightarrow> risk_engine" where
  "re_inject_redis e = e\<lparr>re_switch := inject_redis (re_switch e)\<rparr>"

definition update_returns :: "flt \<Rightarrow> risk_engine \<Rightarrow> risk_engine" where
  "update_returns r e =
     (let h = return_history e @ [r]
      in e\<lparr>return_history := if 252 < length h then drop (length h - 252) h else h\<rparr>)"

definition utc_day :: "time \<Rightarrow> int" where
  "utc_day now = now div (86400 * 1000000)"

definition total_notional :: "position list \<Rightarrow> dec" where
  "total_notional ps = foldl (\<lambda>acc p. acc + notional_value p) 0 ps"

definition ratio :: "dec \<Rightarrow> dec \<Rightarrow> flt" where
  "ratio a b = (if 0 < b then float_of (a / b) else 0)"

definition last_returns :: "risk_engine \<Rightarrow> flt list" where
  "last_returns e = drop (length (return_history e) - 30) (return_history e)"

definition compute_metrics ::
  "percentile \<Rightarrow> mean \<Rightarrow> time \<Rightarrow> dec \<Rightarrow> position list \<Rightarrow> risk_engine \<Rightarrow> risk_metrics \<times> risk_engine"
where
  "compute_metrics pct mean now pv ps e =
     (let e1 = (if peak_value e < pv then e\<lparr>peak_value := pv\<rparr> else e);
          drawdown = ratio (peak_value e1 - pv) (peak_value e1);
          e2 = (if daily_pnl_date e1 = Some (utc_day now) then e1
                else e1\<lparr>daily_pnl_date := Some (utc_day now), daily_pnl_start := Some pv\<rparr>);
          start = (case daily_pnl_start e2 of Some d \<Rightarrow> if d = 0 then pv else d | None \<Rightarrow> pv);
          pnl = pv - start;
          (var, es) = (if 10 \<le> length (return_history e2)
                       then var_compute pct mean (last_returns e2) else (0, 0));
          lev = ratio (total_notional ps) pv
      in (\<lparr>m_portfolio_value = pv, m_daily_pnl = pnl, m_daily_pnl_pct = ratio pnl pv,
           m_drawdown = drawdown, m_var_95 = var, m_expected_shortfall = es, m_heat = lev,
           m_active_positions = int (length ps),
           m_correlation = min (float_of_int (int (length ps)) * flit (1/10)) 1,
           m_gross_leverage = lev\<rparr>, e2))"

definition empty_metrics :: "dec \<Rightarrow> risk_metrics" where
  "empty_metrics pv = \<lparr>m_portfolio_value = pv, m_daily_pnl = 0, m_daily_pnl_pct = 0, m_drawdown = 0,
     m_var_95 = 0, m_expected_shortfall = 0, m_heat = 0, m_active_positions = 0, m_correlation = 0,
     m_gross_leverage = 0\<rparr>"

definition cooldown_key :: "string \<Rightarrow> string \<Rightarrow> string" where
  "cooldown_key sk strategy = sk @ ''|'' @ strategy"

definition cooldown_remaining :: "time \<Rightarrow> signal \<Rightarrow> risk_engine \<Rightarrow> flt" where
  "cooldown_remaining now sg e =
     (if l_cooldown_seconds (limits e) \<le> 0 then 0
      else case map_of (last_trade_at e) (cooldown_key (ccxt_symbol (sig_symbol sg)) (sig_strategy sg)) of
             None \<Rightarrow> 0
           | Some t \<Rightarrow> max 0 (float_of_int (l_cooldown_seconds (limits e)) -
                               flit (of_int (now - t) / 1000000)))"

definition record_trade :: "time \<Rightarrow> string \<Rightarrow> string \<Rightarrow> risk_engine \<Rightarrow> risk_engine" where
  "record_trade now sk strategy e =
     e\<lparr>last_trade_at := AList.update (cooldown_key sk strategy) now (last_trade_at e)\<rparr>"

section \<open>Evaluation\<close>

datatype reject_reason =
    KillSwitchActive
  | CooldownActive flt
  | PositionAlreadyOpen
  | HardLimits "limit_check list"
  | LeverageCap dec
  | ExposureCap dec dec dec
  | SizeZero "size_reason option"
  | EngineError py_exc

datatype risk_warning =
    SoftLimitReduction flt
  | LeverageReduction dec
  | SoftLimitBreached limit_check
  | NearLimit limit_check
  | SizeReduced size_reason

record assessment =
  as_signal :: nat
  as_decision :: risk_decision
  approved_quantity :: dec
  rejection_reason :: "reject_reason option"
  as_metrics :: risk_metrics
  as_warnings :: "risk_warning list"

definition reject :: "signal \<Rightarrow> reject_reason \<Rightarrow> risk_metrics \<Rightarrow> assessment" where
  "reject sg r m = \<lparr>as_signal = sid sg, as_decision = RISK_REJECTED, approved_quantity = 0,
     rejection_reason = Some r, as_metrics = m, as_warnings = []\<rparr>"

text \<open>The arguments of \<open>evaluate\<close> besides the signal and the positions.\<close>

record account =
  a_value :: dec
  a_capital :: dec
  a_price :: dec
  a_atr :: "dec option"
  a_win_rate :: "flt option"
  a_profit_factor :: "flt option"

definition sizing_of :: "risk_limits \<Rightarrow> account \<Rightarrow> risk_metrics \<Rightarrow> sizing" where
  "sizing_of l a m = \<lparr>portfolio_value = a_value a, available_capital = a_capital a, sz_price = a_price a,
     atr = a_atr a, sz_heat = m_heat m, max_position_pct = l_max_single_position_pct l,
     max_portfolio_heat = l_heat l, sz_win_rate = a_win_rate a, sz_profit_factor = a_profit_factor a,
     min_order_size = Dec (1/1000), max_order_notional = l_max_order_notional l,
     position_size_usd = l_position_size_usd l, stop_loss_pct = Some (l_stop_loss_pct l),
     risk_per_trade_pct = Some (l_risk_per_trade_pct l)\<rparr>"

text \<open>Step 7b; \<open>None\<close> is the rejection for want of headroom.\<close>

definition headroom :: "risk_limits \<Rightarrow> account \<Rightarrow> risk_metrics \<Rightarrow> dec" where
  "headroom l a m = l_max_leverage l * a_value a - dec_of_float (m_gross_leverage m) * a_value a"

definition leverage_cap :: "risk_limits \<Rightarrow> account \<Rightarrow> risk_metrics \<Rightarrow> dec \<Rightarrow> (dec \<times> bool) option" where
  "leverage_cap l a m q =
     (if 0 < l_max_leverage l \<and> 0 < a_price a \<and> headroom l a m < q * a_price a
      then if headroom l a m \<le> 0 then None else Some (headroom l a m / a_price a, True)
      else Some (q, False))"

text \<open>Step 7c.\<close>

definition exposure_exceeded :: "risk_limits \<Rightarrow> account \<Rightarrow> position list \<Rightarrow> dec \<Rightarrow> reject_reason option" where
  "exposure_exceeded l a ps q =
     (case l_max_total_exposure_pct l of
        None \<Rightarrow> None
      | Some p \<Rightarrow>
          let cap = a_value a * dec_of_float p; have_now = total_notional ps; new = q * a_price a
          in if 0 < a_value a \<and> cap < have_now + new then Some (ExposureCap have_now new cap) else None)"

definition check_warnings :: "limit_check list \<Rightarrow> risk_warning list" where
  "check_warnings cs =
     concat (map (\<lambda>c. if lc_status c = LIM_BREACHED \<and> lc_type c = SOFT then [SoftLimitBreached c]
                      else if lc_status c = LIM_WARNING then [NearLimit c] else []) cs)"

text \<open>Steps 6 to 9: the part of \<open>_evaluate_internal\<close> that changes no state.\<close>

definition size_and_decide ::
  "signal \<Rightarrow> position list \<Rightarrow> account \<Rightarrow> risk_limits \<Rightarrow> risk_metrics \<Rightarrow> limit_check list \<Rightarrow>
   assessment result"
where
  "size_and_decide sg ps a l m cs =
     bind_result (compute sg (sizing_of l a m)) (\<lambda>(q0, rr).
       let factor = min_reduction_factor cs;
           q1 = (if factor < 1 then q0 * dec_of_float factor else q0);
           w1 = (if factor < 1 then [SoftLimitReduction factor] else [])
       in case leverage_cap l a m q1 of
            None \<Rightarrow> Inr (reject sg (LeverageCap (l_max_leverage l)) m)
          | Some (q2, capped) \<Rightarrow>
              (case exposure_exceeded l a ps q2 of
                 Some r \<Rightarrow> Inr (reject sg r m)
               | None \<Rightarrow>
                   if q2 \<le> 0 then Inr (reject sg (SizeZero rr) m)
                   else Inr \<lparr>as_signal = sid sg,
                     as_decision = (if factor < 1 \<or> rr \<noteq> None \<or> capped then REDUCED else APPROVED),
                     approved_quantity = q2, rejection_reason = None, as_metrics = m,
                     as_warnings = w1 @ (if capped then [LeverageReduction (l_max_leverage l)] else [])
                       @ check_warnings cs @ (case rr of Some r \<Rightarrow> [SizeReduced r] | None \<Rightarrow> [])\<rparr>))"

definition opens_same_symbol :: "signal \<Rightarrow> position list \<Rightarrow> bool" where
  "opens_same_symbol sg ps \<longleftrightarrow> direction sg \<in> {SIG_LONG, SIG_SHORT} \<and>
     symbol_str (sig_symbol sg) \<in> set (map (symbol_str \<circ> psymbol) ps)"

definition evaluate_internal ::
  "percentile \<Rightarrow> mean \<Rightarrow> time \<Rightarrow> signal \<Rightarrow> position list \<Rightarrow> account \<Rightarrow> risk_engine \<Rightarrow>
   risk_engine \<times> assessment result"
where
  "evaluate_internal pct mean now sg ps a e =
     (let none = empty_metrics (a_value a)
      in if is_active (st (re_switch e)) then (e, Inr (reject sg KillSwitchActive none))
         else if 0 < cooldown_remaining now sg e
         then (e, Inr (reject sg (CooldownActive (cooldown_remaining now sg e)) none))
         else if opens_same_symbol sg ps then (e, Inr (reject sg PositionAlreadyOpen none))
         else let (m, e1) = compute_metrics pct mean now (a_value a) ps e;
                  cs = run_all_checks (limits e1) m
              in if has_hard_breach cs
                 then (e1\<lparr>scheduled := scheduled e1 @ [breached HARD cs]\<rparr>,
                       Inr (reject sg (HardLimits (breached HARD cs)) m))
                 else (e1, size_and_decide sg ps a (limits e1) m cs))"

definition evaluate ::
  "percentile \<Rightarrow> mean \<Rightarrow> time \<Rightarrow> signal \<Rightarrow> position list \<Rightarrow> account \<Rightarrow> risk_engine \<Rightarrow>
   risk_engine \<times> assessment"
where
  "evaluate pct mean now sg ps a e =
     (case evaluate_internal pct mean now sg ps a e of
        (e1, Inr r) \<Rightarrow> (e1, r)
      | (e1, Inl x) \<Rightarrow> (e1, reject sg (EngineError x) (empty_metrics (a_value a))))"

text \<open>\<open>build_order_request\<close>; \<open>new_id\<close> is the fresh UUID.\<close>

definition copy_price :: "string \<Rightarrow> signal \<Rightarrow> py_dict" where
  "copy_price k sg =
     (if truthy (py_get (sig_metadata sg) k PyNone) then [(k, py_get (sig_metadata sg) k PyNone)] else [])"

definition build_order_request ::
  "nat \<Rightarrow> signal \<Rightarrow> assessment \<Rightarrow> dec option \<Rightarrow> risk_engine \<Rightarrow> order_request result" where
  "build_order_request new_id sg a price e =
     (let ty = (if l_var_95 (limits e) * flit (4/5) < m_var_95 (as_metrics a) then LIMIT else MARKET)
      in if ty = LIMIT \<and> price = None then Inl ValueError
         else Inr \<lparr>oid = new_id, signal_id = sid sg, osymbol = sig_symbol sg,
                oside = (if direction sg = SIG_LONG then BUY else SELL), otype = ty,
                quantity = approved_quantity a,
                limit_price = (if ty = LIMIT then price else None), omode = re_mode e,
                reduce_only = False,
                metadata = [(''strategy'', PyStr (sig_strategy sg)),
                            (''entry_regime'', PyRegime (regime sg))] @
                  copy_price ''target_price'' sg @ copy_price ''stop_price'' sg\<rparr>)"

section \<open>Facts on the evaluation\<close>

lemma check_breached [simp]:
  "lc_status (check_threshold n ty c l w f) = LIM_BREACHED \<longleftrightarrow> l \<le> c"
  "lc_type (check_threshold n ty c l w f) = ty"
  by (simp_all add: check_threshold_def Let_def)

lemma compute_metrics_frame [frame]:
  assumes "compute_metrics pct mean now pv ps e = (m, e1)"
  shows "limits e1 = limits e" "re_switch e1 = re_switch e" "scheduled e1 = scheduled e"
    "last_trade_at e1 = last_trade_at e" "re_mode e1 = re_mode e"
  using assms by (auto simp: compute_metrics_def Let_def split: prod.splits if_splits)

lemma max_if_less: "max a b = (if a < b then b else a)" for a :: "'a::linorder"
  by (auto simp: max_def)

lemma compute_metrics_peak:
  assumes "compute_metrics pct mean now pv ps e = (m, e1)"
  shows "peak_value e1 = max (peak_value e) pv"
    and "m_drawdown m = ratio (max (peak_value e) pv - pv) (max (peak_value e) pv)"
  using assms by (auto simp: compute_metrics_def Let_def max_if_less simp del: dec_order split: prod.splits if_splits)

lemma compute_metrics_fields:
  assumes "compute_metrics pct mean now pv ps e = (m, e1)"
  shows "m_active_positions m = int (length ps)"
    and "m_gross_leverage m = ratio (total_notional ps) pv"
  using assms by (auto simp: compute_metrics_def Let_def split: prod.splits if_splits)

lemma evaluate_metrics_cases:
  assumes "evaluate pct mean now sg ps a e = (e', r)"
  obtains (blocked) w where "e' = e" "r = reject sg w (empty_metrics (a_value a))"
      "w \<in> {KillSwitchActive, CooldownActive (cooldown_remaining now sg e), PositionAlreadyOpen}"
  | (hard) m e1 where "compute_metrics pct mean now (a_value a) ps e = (m, e1)"
      "has_hard_breach (run_all_checks (limits e) m)"
      "e' = e1\<lparr>scheduled := scheduled e @ [breached HARD (run_all_checks (limits e) m)]\<rparr>"
      "r = reject sg (HardLimits (breached HARD (run_all_checks (limits e) m))) m"
  | (sized) m where "compute_metrics pct mean now (a_value a) ps e = (m, e')"
      "\<not> has_hard_breach (run_all_checks (limits e) m)"
      "\<not> is_active (st (re_switch e))" "\<not> 0 < cooldown_remaining now sg e" "\<not> opens_same_symbol sg ps"
      "r = (case size_and_decide sg ps a (limits e) m (run_all_checks (limits e) m) of
              Inr r \<Rightarrow> r | Inl x \<Rightarrow> reject sg (EngineError x) (empty_metrics (a_value a)))"
proof -
  obtain m e1 where m: "compute_metrics pct mean now (a_value a) ps e = (m, e1)" by fastforce
  note f = compute_metrics_frame [OF m]
  consider "is_active (st (re_switch e))" | "\<not> is_active (st (re_switch e))" "0 < cooldown_remaining now sg e"
    | "\<not> is_active (st (re_switch e))" "\<not> 0 < cooldown_remaining now sg e" "opens_same_symbol sg ps"
    | "\<not> is_active (st (re_switch e))" "\<not> 0 < cooldown_remaining now sg e" "\<not> opens_same_symbol sg ps"
      "has_hard_breach (run_all_checks (limits e) m)"
    | "\<not> is_active (st (re_switch e))" "\<not> 0 < cooldown_remaining now sg e" "\<not> opens_same_symbol sg ps"
      "\<not> has_hard_breach (run_all_checks (limits e) m)" by blast
  then show thesis
  proof cases
    case 1
    with assms show thesis by (intro blocked) (auto simp: evaluate_def evaluate_internal_def Let_def)
  next
    case 2
    with assms show thesis
      by (intro blocked) (auto simp: evaluate_def evaluate_internal_def Let_def simp del: flt_order)
  next
    case 3
    with assms show thesis
      by (intro blocked) (auto simp: evaluate_def evaluate_internal_def Let_def simp del: flt_order)
  next
    case 4
    with assms m f show thesis
      by (intro hard [OF m]) (simp_all add: evaluate_def evaluate_internal_def Let_def del: flt_order)
  next
    case 5
    with assms m f have "e' = e1" "r = (case size_and_decide sg ps a (limits e) m (run_all_checks (limits e) m) of
              Inr r \<Rightarrow> r | Inl x \<Rightarrow> reject sg (EngineError x) (empty_metrics (a_value a)))"
      by (auto simp: evaluate_def evaluate_internal_def Let_def simp del: flt_order split: sum.splits)
    with 5 m show thesis by (intro sized) simp_all
  qed
qed

lemma reject_fields [simp]:
  "as_decision (reject sg w m) = RISK_REJECTED" "approved_quantity (reject sg w m) = 0"
  "rejection_reason (reject sg w m) = Some w" "as_metrics (reject sg w m) = m"
  by (simp_all add: reject_def)

lemma size_and_decide_approved:
  assumes "size_and_decide sg ps a l m cs = Inr r" and "as_decision r \<noteq> RISK_REJECTED"
  shows "0 < approved_quantity r \<and> as_metrics r = m \<and> exposure_exceeded l a ps (approved_quantity r) = None
    \<and> (\<exists>q b. leverage_cap l a m q = Some (approved_quantity r, b))"
proof -
  from assms(1) obtain q0 rr where c: "compute sg (sizing_of l a m) = Inr (q0, rr)"
    by (auto simp: size_and_decide_def bind_result_Inr)
  define q1 where "q1 = (if min_reduction_factor cs < 1 then q0 * dec_of_float (min_reduction_factor cs) else q0)"
  note sd = assms(1) [unfolded size_and_decide_def c bind_result_simps prod.case Let_def, folded q1_def]
  show ?thesis
  proof (cases "leverage_cap l a m q1")
    case None
    with sd assms(2) show ?thesis by (auto simp del: flt_order dec_order)
  next
    case (Some qb)
    obtain q2 b where qb: "qb = (q2, b)" by (cases qb)
    show ?thesis
    proof (cases "exposure_exceeded l a ps q2")
      case None
      with sd Some qb assms(2) have "\<not> q2 \<le> 0"
        by (cases "q2 \<le> 0") (auto simp del: flt_order dec_order)
      moreover from this have "0 < q2" by (simp only: not_le)
      moreover have "\<exists>q b. leverage_cap l a m q = Some (q2, b)" using Some qb by blast
      moreover have "approved_quantity r = q2 \<and> as_metrics r = m"
        using sd Some qb None \<open>\<not> q2 \<le> 0\<close> by (auto simp del: flt_order dec_order)
      ultimately show ?thesis using None by simp
    next
      case (Some w)
      with sd \<open>leverage_cap l a m q1 = Some qb\<close> qb assms(2) show ?thesis
        by (auto simp del: flt_order dec_order)
    qed
  qed
qed

section \<open>Runs\<close>

datatype re_op =
    Evaluate percentile mean time signal "position list" account
  | RecordTrade time string string
  | UpdateReturns flt

fun re_step :: "risk_engine \<Rightarrow> re_op \<Rightarrow> risk_engine" where
  "re_step e (Evaluate pct mean now sg ps a) = fst (evaluate pct mean now sg ps a e)"
| "re_step e (RecordTrade now sk strategy) = record_trade now sk strategy e"
| "re_step e (UpdateReturns r) = update_returns r e"

lemma evaluate_frame [frame]:
  assumes "evaluate pct mean now sg ps a e = (e', r)"
  shows "limits e' = limits e" "last_trade_at e' = last_trade_at e" "peak_value e \<le> peak_value e'"
    "re_switch e' = re_switch e" "re_mode e' = re_mode e"
  using assms
  by (cases rule: evaluate_metrics_cases;
      auto simp: compute_metrics_frame compute_metrics_peak simp del: flt_order)+

lemma re_step_frame [frame]:
  "limits (re_step e op) = limits e"
  "(\<forall>now sk strategy. op \<noteq> RecordTrade now sk strategy) \<Longrightarrow> last_trade_at (re_step e op) = last_trade_at e"
  using evaluate_frame [OF prod.collapse [symmetric]]
  by (cases op; simp add: record_trade_def update_returns_def Let_def)+

text \<open>The peak is never forgotten, so the drawdown is measured against it.\<close>

interpretation peak: monotone_measure re_step peak_value
proof
  fix e op
  show "peak_value e \<le> peak_value (re_step e op)"
    using evaluate_frame(3) [OF prod.collapse [symmetric]]
    by (cases op) (simp_all add: record_trade_def update_returns_def Let_def del: dec_order)
qed

definition no_trade :: "re_op \<Rightarrow> bool" where
  "no_trade op \<longleftrightarrow> (\<forall>now sk strategy. op \<noteq> RecordTrade now sk strategy)"

lemma run_no_trade:
  "list_all no_trade ops \<Longrightarrow> limits (run re_step e ops) = limits e \<and>
   last_trade_at (run re_step e ops) = last_trade_at e"
  by (induction ops arbitrary: e) (simp_all add: frame no_trade_def)

text \<open>A whole number of seconds minus a millionth is still less after rounding.\<close>

lemma rnd_flt_below_int:
  assumes "1 \<le> n" and "n \<le> 86400" and "x \<le> of_int n - 1 / 1000000"
  shows "rnd_flt x \<le> of_int n - 1 / 2 ^ 20"
proof -
  let ?y = "of_int n - 1 / 2 ^ 20 :: rat"
  have "?y = of_int (n * 2 ^ 20 - 1) * bpow 2 (- 20)"
    by (simp add: bpow_def field_simps)
  moreover have "\<bar>n * 2 ^ 20 - 1\<bar> \<le> 2 ^ 53" using assms(1,2) by simp
  ultimately have "rnd_flt ?y = ?y" by (rule rnd_flt_dyadic)
  moreover have "x \<le> ?y" using assms(3) by simp
  ultimately show ?thesis by (intro flt.rnd_le_exact)
qed

lemma cooldown_positive:
  assumes "map_of (last_trade_at e) (cooldown_key (ccxt_symbol (sig_symbol sg)) (sig_strategy sg)) = Some t"
    and "now - t < seconds (l_cooldown_seconds (limits e))"
    and "1 \<le> l_cooldown_seconds (limits e)" and "l_cooldown_seconds (limits e) \<le> 86400"
  shows "0 < cooldown_remaining now sg e"
proof -
  let ?n = "l_cooldown_seconds (limits e)"
  have "now - t \<le> ?n * 1000000 - 1" using assms(2) by (simp add: seconds_def)
  then have "(of_int (now - t) :: rat) \<le> of_int (?n * 1000000 - 1)" by (simp only: of_int_le_iff)
  then have "of_int (now - t) / 1000000 \<le> of_int ?n - 1 / (1000000 :: rat)" by simp
  from rnd_flt_below_int [OF assms(3,4) this]
  have el: "fval (flit (of_int (now - t) / 1000000)) \<le> of_int ?n - 1 / 2 ^ 20" by (simp add: flit_def)
  have "\<bar>?n\<bar> \<le> 86400" using assms(3,4) by linarith
  then have "\<bar>?n\<bar> \<le> 2 ^ 53" by (rule order_trans) simp
  then have "rnd_flt (of_int ?n) = of_int ?n"
    by (intro rnd_flt_dyadic [of _ _ 0]) (simp_all add: bpow_def)
  then have "0 < fval (float_of_int ?n) - fval (flit (of_int (now - t) / 1000000))"
    using el by (simp add: float_of_int_def flit_def)
  then have "0 < rnd_flt (fval (float_of_int ?n) - fval (flit (of_int (now - t) / 1000000)))"
    by (rule rnd_pos)
  with assms show ?thesis by (simp add: cooldown_remaining_def)
qed

section \<open>Properties\<close>

lemma approval_facts:
  assumes "evaluate pct mean now sg ps a e = (e', r)" and "as_decision r \<noteq> RISK_REJECTED"
  shows "trading_allowed (re_switch e) \<and> \<not> 0 < cooldown_remaining now sg e \<and> \<not> opens_same_symbol sg ps
    \<and> m_drawdown (as_metrics r) < l_max_drawdown (limits e)
    \<and> - m_daily_pnl_pct (as_metrics r) < l_daily_loss (limits e)
    \<and> float_of_int (int (length ps)) < float_of_int (l_max_open_positions (limits e))
    \<and> ratio (total_notional ps) (a_value a) < float_of (l_max_leverage (limits e))
    \<and> 0 < approved_quantity r
    \<and> (0 < l_max_leverage (limits e) \<and> 0 < a_price a \<longrightarrow>
        approved_quantity r * a_price a \<le> headroom (limits e) a (as_metrics r) \<or>
        approved_quantity r = headroom (limits e) a (as_metrics r) / a_price a)
    \<and> (\<forall>p. l_max_total_exposure_pct (limits e) = Some p \<and> 0 < a_value a \<longrightarrow>
        total_notional ps + approved_quantity r * a_price a \<le> a_value a * dec_of_float p)"
  using assms(1)
proof (cases rule: evaluate_metrics_cases)
  case (sized m)
  then obtain s where s: "size_and_decide sg ps a (limits e) m (run_all_checks (limits e) m) = Inr r"
    using assms(2) by (auto split: sum.splits)
  obtain q b where q: "0 < approved_quantity r" "as_metrics r = m"
    "leverage_cap (limits e) a m q = Some (approved_quantity r, b)"
    "exposure_exceeded (limits e) a ps (approved_quantity r) = None"
    using size_and_decide_approved [OF s assms(2)] by blast
  have hard: "m_drawdown m < l_max_drawdown (limits e)"
    "(if m_daily_pnl_pct m < 0 then - m_daily_pnl_pct m else 0) < l_daily_loss (limits e)"
    "float_of_int (m_active_positions m) < float_of_int (l_max_open_positions (limits e))"
    "m_gross_leverage m < float_of (l_max_leverage (limits e))"
    using sized(2) by (simp_all add: has_hard_breach_def run_all_checks_def not_le del: flt_order)
  have "- m_daily_pnl_pct m < l_daily_loss (limits e)"
    using hard(2) by (auto split: if_splits)
  moreover have "0 < l_max_leverage (limits e) \<and> 0 < a_price a \<longrightarrow>
      approved_quantity r * a_price a \<le> headroom (limits e) a m \<or>
      approved_quantity r = headroom (limits e) a m / a_price a"
    using q(3) by (auto simp: leverage_cap_def simp del: dec_order dval_simps split: if_splits)
  moreover have "\<forall>p. l_max_total_exposure_pct (limits e) = Some p \<and> 0 < a_value a \<longrightarrow>
      total_notional ps + approved_quantity r * a_price a \<le> a_value a * dec_of_float p"
    using q(4) by (auto simp: exposure_exceeded_def Let_def not_less simp del: dec_order dval_simps split: if_splits)
  ultimately show ?thesis
    using hard(1,3,4) sized q(1,2) compute_metrics_fields [OF sized(1)]
    unfolding trading_allowed_def by (simp del: dec_order dval_simps flt_order fval_simps)
qed (use assms(2) in simp_all)

text \<open>
  C1. What an approval guarantees: whenever a signal is not rejected, trading was allowed and no
  cooldown running, a signal that opens exposure is for a symbol without open position, every hard
  limit is strictly kept, the quantity is positive, the order fits the leverage headroom or is exactly
  the headroom at the price, and with it the total exposure stays within the configured share.
\<close>

theorem approval_is_safe:
  assumes "evaluate pct mean now sg ps a e = (e', r)" and "as_decision r \<noteq> RISK_REJECTED"
  shows "trading_allowed (re_switch e) \<and> \<not> 0 < cooldown_remaining now sg e \<and> \<not> opens_same_symbol sg ps
    \<and> m_drawdown (as_metrics r) < l_max_drawdown (limits e)
    \<and> - m_daily_pnl_pct (as_metrics r) < l_daily_loss (limits e)
    \<and> float_of_int (int (length ps)) < float_of_int (l_max_open_positions (limits e))
    \<and> ratio (total_notional ps) (a_value a) < float_of (l_max_leverage (limits e))
    \<and> 0 < approved_quantity r
    \<and> (0 < l_max_leverage (limits e) \<and> 0 < a_price a \<longrightarrow>
        approved_quantity r * a_price a \<le> headroom (limits e) a (as_metrics r) \<or>
        approved_quantity r = headroom (limits e) a (as_metrics r) / a_price a)
    \<and> (\<forall>p. l_max_total_exposure_pct (limits e) = Some p \<and> 0 < a_value a \<longrightarrow>
        total_notional ps + approved_quantity r * a_price a \<le> a_value a * dec_of_float p)"
  by (rule approval_facts [OF assms])

definition demo_limits_risk :: risk_limits where
  "demo_limits_risk = \<lparr>l_max_drawdown = Flt (1/4), l_daily_loss = Flt (1/8),
     l_max_single_position_pct = Flt (1/4), l_var_95 = Flt (1/32), l_heat = Flt (1/2),
     l_correlation = Flt (3/4), l_max_leverage = Dec 3, l_max_open_positions = 2,
     l_cooldown_seconds = 300, l_max_order_notional = Some (Dec 100),
     l_position_size_usd = Some (Dec 30), l_stop_loss_pct = Flt (1/2),
     l_risk_per_trade_pct = Flt (1/2), l_max_total_exposure_pct = Some (Flt (1/4))\<rparr>"

definition demo_engine :: risk_engine where
  "demo_engine = new_risk_engine PAPER demo_limits_risk demo_switch"

definition demo_account :: account where
  "demo_account = \<lparr>a_value = Dec 1000, a_capital = Dec 1000, a_price = Dec 30, a_atr = None,
     a_win_rate = None, a_profit_factor = None\<rparr>"

definition no_pct :: percentile where
  "no_pct ls c = 0"

definition no_mean :: mean where
  "no_mean ls = 0"

definition demo_position :: "nat \<Rightarrow> string \<Rightarrow> position" where
  "demo_position n b = \<lparr>pid = n, psymbol = \<lparr>base = b, quote = ''USDT'', sym_exchange = BINANCE, asset = ASSET_FUTURES\<rparr>,
     pside = LONG, pquantity = Dec 1, entry_price = Dec 30, current_price = Dec 30, leverage = Dec 1,
     unrealized_pnl = 0, realized_pnl = 0, opened_at = 0, strategy_name = ''momentum'', pmode = PAPER,
     stop_loss_price = None, take_profit_price = None, max_holding_until = None, sl_order_id = None,
     tp_order_id = None, entry_regime = None\<rparr>"

definition demo_metrics :: risk_metrics where
  "demo_metrics = (empty_metrics (Dec 1000))"

lemma ratio_zero [simp]: "ratio 0 b = 0" "ratio (a - a) b = 0"
  by (simp_all add: ratio_def float_of_def flt_eq_iff dec.rnd_zero flt.rnd_zero)

lemma float_of_int_0 [simp]: "float_of_int 0 = 0"
  by (simp add: float_of_int_def flit_def flt_eq_iff flt.rnd_zero)

lemma demo_compute_metrics:
  "compute_metrics no_pct no_mean 5 (Dec 1000) [] demo_engine =
     (demo_metrics, demo_engine\<lparr>peak_value := Dec 1000, daily_pnl_date := Some 0,
        daily_pnl_start := Some (Dec 1000)\<rparr>)"
proof -
  have "min ((0 :: flt) * flit (1/10)) 1 = 0" by (simp add: flt_eq_iff flt.rnd_zero)
  moreover have "Dec 1000 - Dec 1000 = (0 :: dec)" by (simp add: dec_eq_iff dec.rnd_zero)
  ultimately show ?thesis
    by (simp add: compute_metrics_def demo_engine_def new_risk_engine_def demo_metrics_def
        empty_metrics_def total_notional_def utc_day_def Let_def)
qed

lemma demo_sizing_of:
  "compute demo_signal (sizing_of demo_limits_risk demo_account demo_metrics) = Inr (Dec 1, None)"
proof -
  have "Dec 30 / Dec 30 = Dec 1" by (simp add: dec_eq_iff)
  then show ?thesis
    by (simp add: compute_def compute_fixed_notional_def sizing_of_def demo_limits_risk_def
        demo_account_def Let_def quantize_1 rnd_dec_grid_0)
qed

lemma demo_leverage:
  "leverage_cap demo_limits_risk demo_account demo_metrics (Dec 1) = Some (Dec 1, False)"
  by (simp add: leverage_cap_def headroom_def demo_limits_risk_def demo_account_def
      demo_metrics_def empty_metrics_def rnd_dec_grid_0)

lemma demo_exposure:
  "exposure_exceeded demo_limits_risk demo_account [] (Dec 1) = None"
  by (simp add: exposure_exceeded_def demo_limits_risk_def demo_account_def total_notional_def
      Let_def rnd_dec_grid_0)

lemmas demo_parts = demo_sizing_of demo_leverage demo_exposure

lemma threshold_zero:
  assumes "0 < fval l" and "0 < fval w"
  shows "check_threshold n ty 0 l w f = \<lparr>lc_name = n, lc_type = ty, lc_status = LIM_OK,
    lc_current = 0, lc_limit = l, lc_factor = 1\<rparr>"
  using assms rnd_pos(2) [of "fval l * fval w"] by (simp add: check_threshold_def Let_def)

lemma demo_checks:
  "\<forall>c \<in> set (run_all_checks demo_limits_risk demo_metrics). lc_status c = LIM_OK"
proof -
  have "0 < fval (float_of (Dec 3))" "0 < fval (float_of_int 2)"
    by (simp_all add: float_of_def float_of_int_def flit_pos rnd_pos)
  then show ?thesis
    by (simp add: run_all_checks_def demo_limits_risk_def demo_metrics_def empty_metrics_def
        threshold_zero flit_pos)
qed

lemma demo_no_breach:
  "\<not> has_hard_breach (run_all_checks demo_limits_risk demo_metrics)"
  "min_reduction_factor (run_all_checks demo_limits_risk demo_metrics) = 1"
proof -
  show "\<not> has_hard_breach (run_all_checks demo_limits_risk demo_metrics)"
    using demo_checks by (auto simp: has_hard_breach_def)
  have "breached SOFT (run_all_checks demo_limits_risk demo_metrics) = []"
    using demo_checks by (auto simp: breached_def filter_empty_conv)
  then show "min_reduction_factor (run_all_checks demo_limits_risk demo_metrics) = 1"
    by (simp add: min_reduction_factor_def)
qed

lemma demo_decision:
  "\<exists>r. size_and_decide demo_signal [] demo_account demo_limits_risk demo_metrics
      (run_all_checks demo_limits_risk demo_metrics) = Inr r \<and> as_decision r = APPROVED"
proof -
  have "\<not> Dec 1 \<le> 0" "\<not> (1 :: flt) < 1" by simp_all
  then show ?thesis
    unfolding size_and_decide_def demo_parts bind_result_simps prod.case Let_def demo_no_breach
    by (simp add: demo_parts del: dec_order flt_order)
qed

lemma demo_evaluation:
  "as_decision (snd (evaluate no_pct no_mean 5 demo_signal [] demo_account demo_engine)) = APPROVED"
proof -
  have sw: "\<not> is_active (st demo_switch)"
    by (simp add: demo_switch_def inject_redis_def inject_exchange_pool_def new_kill_switch_def ks_init_def)
  have e: "re_switch demo_engine = demo_switch" "limits demo_engine = demo_limits_risk"
    "last_trade_at demo_engine = []" "a_value demo_account = Dec 1000"
    by (simp_all add: demo_engine_def new_risk_engine_def demo_account_def)
  have c: "\<not> 0 < cooldown_remaining 5 demo_signal demo_engine" by (simp add: cooldown_remaining_def e)
  have o: "\<not> opens_same_symbol demo_signal []" by (simp add: opens_same_symbol_def)
  from demo_decision obtain r where r: "size_and_decide demo_signal [] demo_account demo_limits_risk
      demo_metrics (run_all_checks demo_limits_risk demo_metrics) = Inr r" "as_decision r = APPROVED"
    by blast
  have "evaluate_internal no_pct no_mean 5 demo_signal [] demo_account demo_engine =
      (demo_engine\<lparr>peak_value := Dec 1000, daily_pnl_date := Some 0,
        daily_pnl_start := Some (Dec 1000)\<rparr>, Inr r)"
    using c o r(1) by (simp add: evaluate_internal_def sw e demo_compute_metrics demo_no_breach Let_def
        del: flt_order dec_order)
  with r(2) show ?thesis by (simp add: evaluate_def)
qed

theorem approval_is_safe_witness:
  "0 < approved_quantity (snd (evaluate no_pct no_mean 5 demo_signal [] demo_account demo_engine))"
  using approval_is_safe [OF prod.collapse [symmetric], of no_pct no_mean 5 demo_signal "[]"
      demo_account demo_engine] demo_evaluation by force

lemma hard_breach_rejects_and_triggers_lemma:
  assumes "evaluate pct mean now sg ps a e = (e', r)"
  shows "(if trading_allowed (re_switch e) \<and> \<not> 0 < cooldown_remaining now sg e \<and>
            \<not> opens_same_symbol sg ps \<and>
            has_hard_breach (run_all_checks (limits e)
              (fst (compute_metrics pct mean now (a_value a) ps e)))
          then as_decision r = RISK_REJECTED \<and> approved_quantity r = 0 \<and>
            (\<exists>cs. cs \<noteq> [] \<and> rejection_reason r = Some (HardLimits cs) \<and> scheduled e' = scheduled e @ [cs])
          else scheduled e' = scheduled e)"
proof -
  obtain m e1 where m: "compute_metrics pct mean now (a_value a) ps e = (m, e1)" by fastforce
  note f = compute_metrics_frame [OF m]
  let ?cs = "run_all_checks (limits e) m"
  have ne: "has_hard_breach ?cs \<Longrightarrow> breached HARD ?cs \<noteq> []"
    by (auto simp: has_hard_breach_def breached_def filter_empty_conv simp del: flt_order)
  consider "is_active (st (re_switch e)) \<or> 0 < cooldown_remaining now sg e \<or> opens_same_symbol sg ps"
    | "\<not> is_active (st (re_switch e))" "\<not> 0 < cooldown_remaining now sg e" "\<not> opens_same_symbol sg ps"
    by blast
  then show ?thesis
  proof cases
    case 1
    then have "e' = e"
      using assms by (auto simp: evaluate_def evaluate_internal_def Let_def simp del: flt_order split: if_splits)
    with 1 show ?thesis by (auto simp: trading_allowed_def simp del: flt_order)
  next
    case 2
    show ?thesis
    proof (cases "has_hard_breach ?cs")
      case True
      with 2 assms m f have "e' = e1\<lparr>scheduled := scheduled e @ [breached HARD ?cs]\<rparr>"
        "r = reject sg (HardLimits (breached HARD ?cs)) m"
        by (simp_all add: evaluate_def evaluate_internal_def Let_def del: flt_order)
      with 2 True m ne show ?thesis by (simp add: trading_allowed_def del: flt_order)
    next
      case False
      with 2 assms m f have "e' = e1"
        by (auto simp: evaluate_def evaluate_internal_def Let_def simp del: flt_order split: sum.splits)
      with 2 False m f show ?thesis by (simp add: trading_allowed_def del: flt_order)
    qed
  qed
qed

text \<open>
  C7. A hard breach always stops: whenever one of the hard limits is reached (equality counts), an
  evaluation that gets to the checks rejects the signal with quantity 0 and schedules exactly one
  trigger of the kill switch with the breached checks; in every other case none is scheduled.
\<close>

theorem hard_breach_rejects_and_triggers:
  assumes "evaluate pct mean now sg ps a e = (e', r)"
  shows "(if trading_allowed (re_switch e) \<and> \<not> 0 < cooldown_remaining now sg e \<and>
            \<not> opens_same_symbol sg ps \<and>
            has_hard_breach (run_all_checks (limits e)
              (fst (compute_metrics pct mean now (a_value a) ps e)))
          then as_decision r = RISK_REJECTED \<and> approved_quantity r = 0 \<and>
            (\<exists>cs. cs \<noteq> [] \<and> rejection_reason r = Some (HardLimits cs) \<and> scheduled e' = scheduled e @ [cs])
          else scheduled e' = scheduled e)"
  using hard_breach_rejects_and_triggers_lemma [OF assms] .

text \<open>
  The limit on open positions is reached, not exceeded, when the engine stops: with exactly the
  configured number of positions open (at most a million) the next evaluation that gets to the checks
  triggers the kill switch.
\<close>

theorem positions_at_limit_trigger:
  assumes "evaluate pct mean now sg ps a e = (e', r)"
    and "trading_allowed (re_switch e)" and "\<not> 0 < cooldown_remaining now sg e" and "\<not> opens_same_symbol sg ps"
    and "int (length ps) = l_max_open_positions (limits e)"
  shows "as_decision r = RISK_REJECTED \<and> length (scheduled e') = length (scheduled e) + 1"
proof -
  obtain m e1 where m: "compute_metrics pct mean now (a_value a) ps e = (m, e1)" by fastforce
  have "has_hard_breach (run_all_checks (limits e) m)"
    using compute_metrics_fields(1) [OF m] assms(5)
    by (simp add: has_hard_breach_def run_all_checks_def)
  with hard_breach_rejects_and_triggers_lemma [OF assms(1)] assms(2-4) m show ?thesis by auto
qed

definition full_engine :: risk_engine where
  "full_engine = demo_engine\<lparr>limits := demo_limits_risk\<lparr>l_max_open_positions := 2\<rparr>\<rparr>"

lemma full_engine_gates:
  "trading_allowed (re_switch full_engine)" "\<not> 0 < cooldown_remaining 5 demo_signal full_engine"
  "\<not> opens_same_symbol demo_signal [demo_position 1 ''ETH'', demo_position 2 ''SOL'']"
  "int (length [demo_position 1 ''ETH'', demo_position 2 ''SOL'']) = l_max_open_positions (limits full_engine)"
  by (simp_all add: full_engine_def demo_engine_def new_risk_engine_def trading_allowed_def
      demo_switch_def inject_redis_def inject_exchange_pool_def new_kill_switch_def ks_init_def
      cooldown_remaining_def opens_same_symbol_def demo_position_def demo_signal_def symbol_str_def
      demo_limits_risk_def)

theorem positions_at_limit_trigger_witness:
  "length (scheduled (fst (evaluate no_pct no_mean 5 demo_signal
     [demo_position 1 ''ETH'', demo_position 2 ''SOL''] demo_account full_engine))) = 1"
  using positions_at_limit_trigger [OF prod.collapse [symmetric] full_engine_gates,
      of no_pct no_mean demo_account]
  by (simp add: full_engine_def demo_engine_def new_risk_engine_def)

theorem hard_breach_rejects_and_triggers_witness:
  "as_decision (snd (evaluate no_pct no_mean 5 demo_signal
     [demo_position 1 ''ETH'', demo_position 2 ''SOL''] demo_account full_engine)) = RISK_REJECTED"
proof -
  let ?ps = "[demo_position 1 ''ETH'', demo_position 2 ''SOL'']"
  obtain m e1 where m: "compute_metrics no_pct no_mean 5 (a_value demo_account) ?ps full_engine = (m, e1)"
    by fastforce
  have "has_hard_breach (run_all_checks (limits full_engine) m)"
    using compute_metrics_fields(1) [OF m] full_engine_gates(4)
    by (simp add: has_hard_breach_def run_all_checks_def)
  with hard_breach_rejects_and_triggers [OF prod.collapse [symmetric, of "evaluate no_pct no_mean 5
      demo_signal ?ps demo_account full_engine"]] full_engine_gates m
  show ?thesis by simp
qed

text \<open>
  The cooldown holds for its whole length: after a recorded trade, every signal of the same strategy
  for the same symbol is rejected and changes nothing as long as less than the configured number of
  seconds (at most a day) has passed, whatever was evaluated in between.
\<close>

theorem cooldown_blocks_repeat:
  assumes "e1 = run re_step (record_trade t (ccxt_symbol (sig_symbol sg)) (sig_strategy sg) e) ops"
    and "list_all no_trade ops"
    and "now - t < seconds (l_cooldown_seconds (limits e))"
    and "1 \<le> l_cooldown_seconds (limits e)" and "l_cooldown_seconds (limits e) \<le> 86400"
    and "evaluate pct mean now sg ps a e1 = (e2, r)"
  shows "as_decision r = RISK_REJECTED \<and> approved_quantity r = 0 \<and> e2 = e1"
proof -
  have f: "limits e1 = limits e"
    "map_of (last_trade_at e1) (cooldown_key (ccxt_symbol (sig_symbol sg)) (sig_strategy sg)) = Some t"
    using run_no_trade [OF assms(2)] by (simp_all add: assms(1) record_trade_def)
  have c: "0 < cooldown_remaining now sg e1"
    using cooldown_positive [OF f(2)] assms(3-5) f(1) by simp
  with assms(6) show ?thesis
    by (auto simp: evaluate_def evaluate_internal_def Let_def simp del: flt_order split: if_splits)
qed

theorem cooldown_blocks_repeat_witness:
  "as_decision (snd (evaluate no_pct no_mean 300000000 demo_signal [] demo_account
     (record_trade 1 (ccxt_symbol (sig_symbol demo_signal)) (sig_strategy demo_signal) demo_engine))) =
     RISK_REJECTED"
  using cooldown_blocks_repeat [where ops = "[]" and t = 1 and sg = demo_signal and e = demo_engine
      and now = 300000000, OF refl _ _ _ _ prod.collapse [symmetric]]
  by (simp add: demo_engine_def new_risk_engine_def demo_limits_risk_def seconds_def)

text \<open>
  The peak value is never lost: no operation lets it fall, and an evaluation that computes metrics
  raises it to the value seen, so the drawdown it reports is never negative.
\<close>

theorem peak_never_falls:
  "peak_value e \<le> peak_value (run re_step e ops) \<and>
   (case compute_metrics pct mean now pv ps e of (m, e1) \<Rightarrow>
      pv \<le> peak_value e1 \<and> 0 \<le> m_drawdown m)"
proof -
  obtain m e1 where m: "compute_metrics pct mean now pv ps e = (m, e1)" by fastforce
  have "0 \<le> ratio (max (peak_value e) pv - pv) (max (peak_value e) pv)"
    by (auto simp: ratio_def float_of_def intro!: flt.rnd_nonneg dec.rnd_nonneg divide_nonneg_nonneg)
  with m compute_metrics_peak [OF m] show ?thesis
    using peak.run_level [of e ops] by (simp del: dec_order add: max.coboundedI2)
qed

text \<open>
  The order that is built from an approval carries the approved quantity and the signal's symbol and
  strategy; it is a limit order at the current price exactly when the value at risk is above four fifths
  of its limit, and only then fails without a price; every direction but long becomes a sell.
\<close>

theorem order_request_from_approval:
  "(case build_order_request new_id sg r price e of
      Inl x \<Rightarrow> x = ValueError \<and> price = None \<and>
        l_var_95 (limits e) * flit (4/5) < m_var_95 (as_metrics r)
    | Inr q \<Rightarrow> quantity q = approved_quantity r \<and> osymbol q = sig_symbol sg \<and> omode q = re_mode e \<and>
        map_of (metadata q) ''strategy'' = Some (PyStr (sig_strategy sg)) \<and>
        (oside q = BUY \<longleftrightarrow> direction sg = SIG_LONG) \<and>
        (otype q = LIMIT \<longleftrightarrow> l_var_95 (limits e) * flit (4/5) < m_var_95 (as_metrics r)) \<and>
        otype q \<in> {LIMIT, MARKET} \<and>
        limit_price q = (if otype q = LIMIT then price else None) \<and>
        (limit_price q = None \<longleftrightarrow> otype q = MARKET))"
  by (auto simp: build_order_request_def Let_def simp del: flt_order)

end
