(* ===== verification/Live_Gates.thy ===== *)
theory Live_Gates
  imports Kill_Switch Strategy_Registry
begin

text \<open>
  The two gates an order for the live market has to pass: \<open>sgr/risk/live_trading_gate.py\<close>, which asks
  whether the strategy may trade live at all, and \<open>sgr/risk/live_verification_profile.py\<close>, the budget of
  one approved live run. Both let every paper order through.
\<close>

section \<open>Live trading gate\<close>

datatype gate_reason =
    NoRegistry
  | NoKillSwitch
  | NoStrategyName
  | NotRegistered
  | OperatorOverride
  | NotLiveApproved
  | NotValidatedAndActive
  | NoAdapter
  | AdapterNotConnected

text \<open>The adapters of the pool with whether they are connected.\<close>

type_synonym exchange_pool = "((exchange_id \<times> trading_mode), bool) dict"

definition strategy_of :: "order_request \<Rightarrow> pyval" where
  "strategy_of ord = py_get (metadata ord) ''strategy'' PyNone"

definition entry_of_name :: "strategy_registry \<Rightarrow> pyval \<Rightarrow> strategy_entry option" where
  "entry_of_name r v = (case v of PyStr n \<Rightarrow> get_entry r n | _ \<Rightarrow> None)"

definition check_strategy :: "strategy_entry \<Rightarrow> gate_reason option" where
  "check_strategy e =
     (if is_operator_override (validation e) then Some OperatorOverride
      else if \<not> live_approved (validation e) then Some NotLiveApproved
      else if \<not> strat_validated e \<or> \<not> strat_active e then Some NotValidatedAndActive
      else None)"

definition check_adapter :: "exchange_pool option \<Rightarrow> order_request \<Rightarrow> gate_reason option" where
  "check_adapter xp ord =
     (case xp of
        None \<Rightarrow> None
      | Some d \<Rightarrow>
          (case map_of d (sym_exchange (osymbol ord), LIVE) of
             None \<Rightarrow> Some NoAdapter
           | Some up \<Rightarrow> if up then None else Some AdapterNotConnected))"

definition check_live_trading_allowed ::
  "order_request \<Rightarrow> strategy_registry option \<Rightarrow> kill_switch option \<Rightarrow> exchange_pool option \<Rightarrow>
   gate_reason option"
where
  "check_live_trading_allowed ord reg ks xp =
     (if omode ord \<noteq> LIVE then None
      else case reg of
             None \<Rightarrow> Some NoRegistry
           | Some r \<Rightarrow>
               if ks = None then Some NoKillSwitch
               else if \<not> truthy (strategy_of ord) \<or> strategy_of ord = PyStr ''unknown''
               then Some NoStrategyName
               else case entry_of_name r (strategy_of ord) of
                      None \<Rightarrow> Some NotRegistered
                    | Some e \<Rightarrow>
                        (case check_strategy e of
                           Some why \<Rightarrow> Some why
                         | None \<Rightarrow> check_adapter xp ord))"

section \<open>Live verification profile\<close>

record lv_profile =
  max_total_budget_usd :: dec
  max_loss_usd :: dec
  max_daily_loss_usd :: dec
  max_concurrent_grids :: int
  max_orders :: int
  max_exposure_usd :: dec
  max_leverage :: dec
  max_position_size_usd :: dec
  max_duration_minutes :: int
  started_at :: time
  approved_by :: string

text \<open>\<open>__post_init__\<close>: a profile with a missing limit cannot be built.\<close>

definition check_profile :: "lv_profile \<Rightarrow> lv_profile result" where
  "check_profile p =
     (if max_total_budget_usd p \<le> 0 \<or> max_loss_usd p \<le> 0 \<or> max_daily_loss_usd p \<le> 0 \<or>
         max_exposure_usd p \<le> 0 \<or> max_position_size_usd p \<le> 0 \<or>
         max_concurrent_grids p \<le> 0 \<or> max_orders p \<le> 0 \<or> max_duration_minutes p \<le> 0 \<or>
         max_leverage p < 1 \<or> approved_by p = []
      then Inl ValueError else Inr p)"

definition expires_at :: "lv_profile \<Rightarrow> time" where
  "expires_at p = started_at p + seconds (60 * max_duration_minutes p)"

definition is_expired :: "lv_profile \<Rightarrow> time \<Rightarrow> bool" where
  "is_expired p now \<longleftrightarrow> expires_at p \<le> now"

datatype lv_off = WindowExpired | MaxLossReached | MaxDailyLossReached

datatype lv_reason =
    AlreadyDeactivated "lv_off option"
  | Expired
  | TotalLoss
  | DailyLossReached
  | MaxOrdersReached int
  | MaxGridsReached int
  | LeverageTooHigh dec dec
  | PositionTooLarge dec dec
  | BudgetTooSmall dec dec
  | NoGate
  | NoPool
  | NoPrice py_exc

record lv_gate =
  profile :: lv_profile
  cumulative_loss :: dec
  daily_loss :: dec
  daily_reset_at :: time
  orders_submitted :: int
  active_grid_ids :: "pyval list"
  deactivated :: bool
  lv_off_reason :: "lv_off option"

definition new_lv_gate :: "time \<Rightarrow> lv_profile \<Rightarrow> lv_gate" where
  "new_lv_gate now p = \<lparr>profile = p, cumulative_loss = 0, daily_loss = 0, daily_reset_at = now,
     orders_submitted = 0, active_grid_ids = [], deactivated = False, lv_off_reason = None\<rparr>"

definition lv_deactivate :: "lv_off \<Rightarrow> lv_gate \<Rightarrow> lv_gate" where
  "lv_deactivate r g = (if deactivated g then g else g\<lparr>deactivated := True, lv_off_reason := Some r\<rparr>)"

definition maybe_reset_daily_loss :: "time \<Rightarrow> lv_gate \<Rightarrow> lv_gate" where
  "maybe_reset_daily_loss now g =
     (if seconds (24 * 3600) \<le> now - daily_reset_at g
      then g\<lparr>daily_loss := 0, daily_reset_at := now\<rparr> else g)"

definition order_within_profile :: "lv_profile \<Rightarrow> lv_gate \<Rightarrow> dec \<Rightarrow> dec \<Rightarrow> pyval \<Rightarrow> lv_reason option" where
  "order_within_profile p g notional lev grid =
     (if max_orders p \<le> orders_submitted g then Some (MaxOrdersReached (max_orders p))
      else if grid \<noteq> PyNone \<and> grid \<notin> set (active_grid_ids g) \<and>
              max_concurrent_grids p \<le> int (length (active_grid_ids g))
      then Some (MaxGridsReached (max_concurrent_grids p))
      else if max_leverage p < lev then Some (LeverageTooHigh lev (max_leverage p))
      else if max_position_size_usd p < notional
      then Some (PositionTooLarge notional (max_position_size_usd p))
      else if max_total_budget_usd p < notional
      then Some (BudgetTooSmall notional (max_total_budget_usd p))
      else None)"

text \<open>\<open>None\<close> in the result: the order is allowed.\<close>

definition check_order_allowed ::
  "time \<Rightarrow> dec \<Rightarrow> dec \<Rightarrow> pyval \<Rightarrow> lv_gate \<Rightarrow> lv_gate \<times> lv_reason option"
where
  "check_order_allowed now notional lev grid g =
     (let p = profile g
      in if deactivated g then (g, Some (AlreadyDeactivated (lv_off_reason g)))
         else if is_expired p now then (lv_deactivate WindowExpired g, Some Expired)
         else if max_loss_usd p \<le> cumulative_loss g
         then (lv_deactivate MaxLossReached g, Some TotalLoss)
         else let g1 = maybe_reset_daily_loss now g
              in if max_daily_loss_usd p \<le> daily_loss g1
                 then (lv_deactivate MaxDailyLossReached g1, Some DailyLossReached)
                 else (g1, order_within_profile p g1 notional lev grid))"

definition record_order_submitted :: "pyval \<Rightarrow> lv_gate \<Rightarrow> lv_gate" where
  "record_order_submitted grid g =
     (let g1 = g\<lparr>orders_submitted := orders_submitted g + 1\<rparr>
      in if grid = PyNone then g1 else g1\<lparr>active_grid_ids := List.insert grid (active_grid_ids g1)\<rparr>)"

definition record_realized_loss :: "dec \<Rightarrow> lv_gate \<Rightarrow> lv_gate" where
  "record_realized_loss l g =
     (if l \<le> 0 then g
      else g\<lparr>cumulative_loss := cumulative_loss g + l, daily_loss := daily_loss g + l\<rparr>)"

text \<open>
  \<open>check_live_verification_allowed\<close>. \<open>qt\<close> is the adapter's ticker (bid, ask), or the exception of
  the lookup or the call; \<open>None\<close> when there is no pool.
\<close>

definition order_price :: "order_request \<Rightarrow> (dec \<times> dec) result option \<Rightarrow> lv_reason + dec" where
  "order_price ord qt =
     (case limit_price ord of
        Some p \<Rightarrow> Inr p
      | None \<Rightarrow>
          (case qt of
             None \<Rightarrow> Inl NoPool
           | Some (Inl x) \<Rightarrow> Inl (NoPrice x)
           | Some (Inr (bid, ask)) \<Rightarrow> Inr (if oside ord = BUY then ask else bid)))"

definition target_leverage :: "order_request \<Rightarrow> dec" where
  "target_leverage ord =
     (case decimal_of_pyval (py_get (metadata ord) ''target_leverage'' (PyStr ''1'')) of
        Inr d \<Rightarrow> d | Inl x \<Rightarrow> Dec 1)"

definition check_live_verification_allowed ::
  "time \<Rightarrow> order_request \<Rightarrow> lv_gate option \<Rightarrow> (dec \<times> dec) result option \<Rightarrow>
   lv_gate option \<times> lv_reason option"
where
  "check_live_verification_allowed now ord gate qt =
     (if omode ord \<noteq> LIVE then (gate, None)
      else case gate of
             None \<Rightarrow> (None, Some NoGate)
           | Some g \<Rightarrow>
               (case order_price ord qt of
                  Inl why \<Rightarrow> (gate, Some why)
                | Inr price \<Rightarrow>
                    let (g1, r) = check_order_allowed now (quantity ord * price) (target_leverage ord)
                                    (py_get (metadata ord) ''grid_id'' PyNone) g
                    in (Some g1, r)))"

section \<open>Facts\<close>

interpretation lv: latch deactivated lv_deactivate lv_off_reason
  by unfold_locales (simp_all add: lv_deactivate_def)

datatype lv_op = Check time dec dec pyval | Submitted pyval | Loss dec | SwitchOff lv_off

fun lv_step :: "lv_gate \<Rightarrow> lv_op \<Rightarrow> lv_gate" where
  "lv_step g (Check now n l i) = fst (check_order_allowed now n l i g)"
| "lv_step g (Submitted i) = record_order_submitted i g"
| "lv_step g (Loss l) = record_realized_loss l g"
| "lv_step g (SwitchOff r) = lv_deactivate r g"

lemmas lv_defs = check_order_allowed_def record_order_submitted_def record_realized_loss_def
  lv_deactivate_def maybe_reset_daily_loss_def Let_def

lemma lv_step_profile [frame]: "profile (lv_step g op) = profile g"
  by (cases op) (simp_all add: lv_defs)

lemma lv_run_profile [frame]: "profile (run lv_step g ops) = profile g"
  by (induction ops arbitrary: g) (simp_all add: frame)

lemma lv_step_off: "deactivated g \<Longrightarrow> deactivated (lv_step g op) \<and> lv_off_reason (lv_step g op) = lv_off_reason g"
  by (cases op) (simp_all add: lv_defs)

interpretation lv_off: stateful lv_step "\<lambda>g. deactivated g \<and> lv_off_reason g = r" for r
  by unfold_locales (use lv_step_off in blast)

text \<open>Losses and orders only accumulate, for amounts that fit the decimal context.\<close>

interpretation lv_orders: monotone_measure lv_step orders_submitted
  by (unfold_locales, rename_tac s e, case_tac e) (simp_all add: lv_defs)

definition loss_ok :: "lv_gate \<Rightarrow> bool" where
  "loss_ok g \<longleftrightarrow> is_dec (cumulative_loss g)"

lemma add_loss_grows:
  assumes "is_dec a" and "0 < l"
  shows "a \<le> a + l"
  using dec.rnd_ge_exact [of "dval a" "dval a + dval l"] assms by (simp add: is_dec_def)

lemma loss_step:
  "is_dec (cumulative_loss g) \<Longrightarrow>
   is_dec (cumulative_loss (lv_step g op)) \<and> cumulative_loss g \<le> cumulative_loss (lv_step g op)"
proof (cases op)
  case (Loss l)
  then show "is_dec (cumulative_loss g) \<Longrightarrow> ?thesis"
    using add_loss_grows [of "cumulative_loss g" l] by (simp add: lv_defs del: dec_order dval_simps)
qed (simp_all add: lv_defs)

interpretation lv_loss: stateful lv_step "\<lambda>g. is_dec (cumulative_loss g) \<and> c \<le> cumulative_loss g" for c
  by unfold_locales (use loss_step order_trans in blast)

section \<open>Properties\<close>

text \<open>
  C15. What the live gate asks, exactly: it lets an order through when the order is a paper order, or when there is a
  registry and a kill switch (active or not), the order names a strategy that is neither empty nor unknown, this
  strategy is registered, approved for live trading, not active by operator override, and both validated and active,
  and, if there is a pool, the pool has a connected live adapter for the exchange of the order. The flags of validation
  and activity are part of the decision, although the documentation of the module says they are not consulted.
\<close>

theorem live_gate_sound:
  "check_live_trading_allowed ord reg ks xp = None \<longleftrightarrow>
   omode ord = PAPER \<or>
   (\<exists>r n e. reg = Some r \<and> ks \<noteq> None \<and> strategy_of ord = PyStr n \<and> n \<noteq> [] \<and> n \<noteq> ''unknown'' \<and>
      get_entry r n = Some e \<and> live_approved (validation e) \<and> \<not> is_operator_override (validation e) \<and>
      strat_validated e \<and> strat_active e \<and>
      (case xp of None \<Rightarrow> True | Some d \<Rightarrow> map_of d (sym_exchange (osymbol ord), LIVE) = Some True))"
proof (cases "omode ord")
  case PAPER
  then show ?thesis by (simp add: check_live_trading_allowed_def)
next
  case LIVE
  then show ?thesis
    by (cases "strategy_of ord"; cases xp)
      (auto simp: check_live_trading_allowed_def entry_of_name_def check_strategy_def check_adapter_def
        split: option.splits if_splits)
qed

text \<open>
  The budget of a live run only shrinks: once the realised losses reach the maximum, every later
  check, whatever happens in between, refuses the order; there is no way back.
\<close>

theorem loss_limit_is_final:
  assumes "is_dec (cumulative_loss g)" and "max_loss_usd (profile g) \<le> cumulative_loss g"
  shows "snd (check_order_allowed now n l i (run lv_step g ops)) \<noteq> None"
proof -
  let ?g = "run lv_step g ops"
  have "cumulative_loss g \<le> cumulative_loss ?g"
    using lv_loss.run_ok [of g "cumulative_loss g" ops] assms(1) by blast
  with assms(2) have "max_loss_usd (profile ?g) \<le> cumulative_loss ?g"
    unfolding lv_run_profile by (rule order_trans)
  then show ?thesis by (simp add: check_order_allowed_def Let_def)
qed

text \<open>
  C19. What the live verification asks of a live order, exactly: there is a gate and a price (the limit price, or the ask
  or bid of the adapter); the gate is not deactivated and not expired; the losses of the run and of the current day are
  below their maxima, where a day that is over counts as zero; fewer orders than the maximum were submitted; the grid of
  the order is none, already counted, or the number of counted grids is below the maximum; the leverage is within
  its maximum; and the notional of this one order is within the maximum position and within the total budget. The
  maximum exposure of the profile is not asked for, and no notional is summed over orders.
\<close>

theorem live_verification_sound:
  assumes "omode ord = LIVE"
  shows "snd (check_live_verification_allowed now ord gate qt) = None \<longleftrightarrow>
    (\<exists>g price. gate = Some g \<and> order_price ord qt = Inr price \<and> \<not> deactivated g
      \<and> now < expires_at (profile g) \<and> cumulative_loss g < max_loss_usd (profile g)
      \<and> (if seconds (24 * 3600) \<le> now - daily_reset_at g then 0 else daily_loss g) < max_daily_loss_usd (profile g)
      \<and> orders_submitted g < max_orders (profile g)
      \<and> (let i = py_get (metadata ord) ''grid_id'' PyNone
         in i = PyNone \<or> i \<in> set (active_grid_ids g) \<or> int (length (active_grid_ids g)) < max_concurrent_grids (profile g))
      \<and> target_leverage ord \<le> max_leverage (profile g)
      \<and> quantity ord * price \<le> max_position_size_usd (profile g)
      \<and> quantity ord * price \<le> max_total_budget_usd (profile g))"
proof (cases "\<exists>g price. gate = Some g \<and> order_price ord qt = Inr price")
  case False
  with assms show ?thesis
    by (auto simp: check_live_verification_allowed_def split: option.splits sum.splits)
next
  case True
  then obtain g price where g: "gate = Some g" "order_price ord qt = Inr price" by blast
  let ?i = "py_get (metadata ord) ''grid_id'' PyNone"
  let ?n = "quantity ord * price"
  let ?l = "target_leverage ord"
  have c: "snd (check_live_verification_allowed now ord gate qt) = snd (check_order_allowed now ?n ?l ?i g)"
    using assms g by (simp add: check_live_verification_allowed_def Let_def split_beta)
  have w: "order_within_profile (profile g) (maybe_reset_daily_loss now g) n l i = None \<longleftrightarrow>
      orders_submitted g < max_orders (profile g) \<and>
      (i = PyNone \<or> i \<in> set (active_grid_ids g) \<or> int (length (active_grid_ids g)) < max_concurrent_grids (profile g)) \<and>
      l \<le> max_leverage (profile g) \<and> n \<le> max_position_size_usd (profile g) \<and> n \<le> max_total_budget_usd (profile g)" for n l i
    by (auto simp: order_within_profile_def maybe_reset_daily_loss_def not_less not_le simp del: dec_order dval_simps)
  have d: "daily_loss (maybe_reset_daily_loss now g) = (if seconds (24 * 3600) \<le> now - daily_reset_at g then 0 else daily_loss g)"
    by (simp add: maybe_reset_daily_loss_def)
  have o: "snd (check_order_allowed now n l i g) = None \<longleftrightarrow> \<not> deactivated g \<and> now < expires_at (profile g) \<and>
      cumulative_loss g < max_loss_usd (profile g) \<and>
      (if seconds (24 * 3600) \<le> now - daily_reset_at g then 0 else daily_loss g) < max_daily_loss_usd (profile g) \<and>
      order_within_profile (profile g) (maybe_reset_daily_loss now g) n l i = None" for n l i
    unfolding d [symmetric]
    by (auto simp: check_order_allowed_def is_expired_def Let_def not_le [symmetric] simp del: not_le dec_order dval_simps)
  show ?thesis unfolding c o w using g by (simp add: Let_def del: dec_order dval_simps)
qed

definition demo_profile :: lv_profile where
  "demo_profile = \<lparr>max_total_budget_usd = Dec 100, max_loss_usd = Dec 10, max_daily_loss_usd = Dec 5,
     max_concurrent_grids = 1, max_orders = 3, max_exposure_usd = Dec 100, max_leverage = Dec 2,
     max_position_size_usd = Dec 50, max_duration_minutes = 60, started_at = 0,
     approved_by = ''operator''\<rparr>"

definition demo_order :: "trading_mode \<Rightarrow> order_request" where
  "demo_order m = \<lparr>oid = 1, signal_id = 7,
     osymbol = \<lparr>base = ''BTC'', quote = ''USDT'', sym_exchange = BINANCE, asset = ASSET_FUTURES\<rparr>, oside = BUY, otype = LIMIT,
     quantity = Dec 2, limit_price = Some (Dec 20), omode = m, reduce_only = False,
     metadata = [(''strategy'', PyStr ''momentum'')]\<rparr>"

lemma one_parses: "decimal_of_string ''1'' = Inr (Dec 1)"
  by code_simp

theorem live_verification_sound_witness:
  "snd (check_live_verification_allowed 5 (demo_order LIVE) (Some (new_lv_gate 0 demo_profile)) None) = None
   \<and> quantity (demo_order LIVE) * Dec 20 \<le> max_total_budget_usd demo_profile"
proof -
  let ?c = "check_live_verification_allowed 5 (demo_order LIVE) (Some (new_lv_gate 0 demo_profile)) None"
  have m: "omode (demo_order LIVE) = LIVE" by (simp add: demo_order_def)
  have c: "snd ?c = None"
    by (simp add: check_live_verification_allowed_def demo_order_def order_price_def target_leverage_def
        py_get_def one_parses check_order_allowed_def new_lv_gate_def demo_profile_def is_expired_def
        expires_at_def seconds_def order_within_profile_def maybe_reset_daily_loss_def Let_def
        rnd_dec_grid_0)
  from c [unfolded live_verification_sound [OF m]] have "quantity (demo_order LIVE) * Dec 20 \<le> max_total_budget_usd demo_profile"
    by (auto simp: demo_order_def order_price_def new_lv_gate_def simp del: dec_order dval_simps)
  with c show ?thesis by simp
qed

theorem loss_limit_is_final_witness:
  "snd (check_order_allowed 6 (Dec 1) (Dec 1) PyNone
     (run lv_step (record_realized_loss (Dec 12) (new_lv_gate 0 demo_profile)) [Loss (Dec (- 5)), Submitted PyNone]))
   \<noteq> None"
  by (rule loss_limit_is_final)
    (simp_all add: record_realized_loss_def new_lv_gate_def demo_profile_def is_dec_def rnd_dec_grid_0)

end
