(* ===== verification/Order_Safety.thy ===== *)
theory Order_Safety
  imports Live_Gates
begin

text \<open>
  \<open>SafeOrderExecutor\<close> of \<open>sgr/execution/order_safety.py\<close> and the operations of \<open>OrderRepository\<close>
  (\<open>sgr/core/repositories.py\<close>) it calls. \<open>execute_safely\<close> suspends at its awaits, so calls for the same
  order can interleave, and the process can die between any two of them. A call is therefore a task that
  advances from one await to the next, and the world is a set of tasks, the executor's memory, the
  database and the list of orders handed to the exchange.
\<close>

section \<open>Order table\<close>

record order_row =
  ow_order :: order_request
  ow_status :: order_status
  ow_exchange_id :: "string option"
  ow_filled :: dec
  ow_average :: "dec option"
  ow_fees :: dec
  ow_submitted_at :: time
  ow_filled_at :: "time option"
  ow_raw :: py_dict

type_synonym order_table = "(nat, order_row) dict"

definition pending_row :: "time \<Rightarrow> order_request \<Rightarrow> order_row" where
  "pending_row now ord = \<lparr>ow_order = ord, ow_status = PENDING, ow_exchange_id = None, ow_filled = 0,
     ow_average = None, ow_fees = 0, ow_submitted_at = now, ow_filled_at = None, ow_raw = []\<rparr>"

definition create_order :: "time \<Rightarrow> order_request \<Rightarrow> order_table \<Rightarrow> order_table result" where
  "create_order now ord t =
     (if map_of t (oid ord) = None then Inr (AList.update (oid ord) (pending_row now ord) t)
      else Inl (ServiceError 1))"

definition get_order_by_id :: "order_table \<Rightarrow> nat \<Rightarrow> order_row option" where
  "get_order_by_id t i = map_of t i"

definition row_after :: "order_result \<Rightarrow> order_row \<Rightarrow> order_row" where
  "row_after r w = w\<lparr>ow_status := status r, ow_filled := filled_quantity r, ow_fees := fees r,
     ow_average := (case average_fill_price r of Some p \<Rightarrow> Some p | None \<Rightarrow> ow_average w),
     ow_filled_at := (case filled_at r of Some t \<Rightarrow> Some t | None \<Rightarrow> ow_filled_at w),
     ow_exchange_id := (if exchange_order_id r = [] then ow_exchange_id w else Some (exchange_order_id r))\<rparr>"

definition update_order_status :: "nat \<Rightarrow> order_result \<Rightarrow> order_table \<Rightarrow> order_table" where
  "update_order_status i r t =
     (case map_of t i of None \<Rightarrow> t | Some w \<Rightarrow> AList.update i (row_after r w) t)"

text \<open>What the executor relies on: rows are found by their id, never vanish and never change their id.\<close>

locale order_store =
  fixes get :: "'db \<Rightarrow> nat \<Rightarrow> order_row option"
    and create :: "time \<Rightarrow> order_request \<Rightarrow> 'db \<Rightarrow> 'db result"
    and upd :: "nat \<Rightarrow> order_result \<Rightarrow> 'db \<Rightarrow> 'db"
  assumes create_new: "get db (oid ord) = None \<Longrightarrow> \<exists>db'. create now ord db = Inr db'"
    and create_known: "get db (oid ord) \<noteq> None \<Longrightarrow> \<exists>x. create now ord db = Inl x"
    and get_create: "create now ord db = Inr db' \<Longrightarrow>
      get db' i = (if i = oid ord then Some (pending_row now ord) else get db i)"
    and get_upd: "get (upd i r db) j = (if j = i then map_option (row_after r) (get db j) else get db j)"
begin

text \<open>The create of the code: its failure is caught and leaves the table as it is.\<close>

definition try_create :: "time \<Rightarrow> order_request \<Rightarrow> 'db \<Rightarrow> 'db" where
  "try_create now ord db = (case create now ord db of Inr db' \<Rightarrow> db' | Inl x \<Rightarrow> db)"

lemma try_create_known: "get (try_create now ord db) (oid ord) \<noteq> None"
  using create_new [of db ord now] get_create [of now ord db]
  by (cases "create now ord db") (auto simp: try_create_def)

lemma try_create_keeps: "get db i \<noteq> None \<Longrightarrow> get (try_create now ord db) i = get db i"
  using create_known [of db ord now] get_create [of now ord db]
  by (cases "create now ord db") (auto simp: try_create_def)

lemma try_create_other: "i \<noteq> oid ord \<Longrightarrow> get (try_create now ord db) i = get db i"
  using get_create [of now ord db] by (cases "create now ord db") (auto simp: try_create_def)

lemma upd_keeps: "get (upd j r db) i = None \<longleftrightarrow> get db i = None"
  by (simp add: get_upd)

end

interpretation orders: order_store get_order_by_id create_order update_order_status
  by unfold_locales (auto simp: get_order_by_id_def create_order_def update_order_status_def
      split: if_splits option.split)

section \<open>Executor\<close>

text \<open>\<open>orders_db\<close> is \<open>None\<close> without a repository; \<open>odb_up\<close> says whether its calls succeed.\<close>

record executor =
  in_flight :: "(nat, order_result) dict"
  orders_db :: "order_table option"
  odb_up :: bool

definition blank_result :: "order_request \<Rightarrow> time \<Rightarrow> order_result" where
  "blank_result ord now = \<lparr>request_id = oid ord, exchange_order_id = [], rsymbol = osymbol ord,
     status = PENDING, filled_quantity = 0, average_fill_price = None, fees = 0, submitted_at = now,
     filled_at = None, rmode = omode ord, raw_response = []\<rparr>"

definition make_duplicate_result :: "order_result \<Rightarrow> order_result" where
  "make_duplicate_result r = r\<lparr>status := REJECTED, filled_quantity := 0, average_fill_price := None,
     fees := 0, filled_at := None,
     raw_response := [(''duplicate'', PyBool True),
       (''original_exchange_order_id'', PyStr (exchange_order_id r)),
       (''rejection_reason'', PyStr ''Duplicate order submission blocked'')]\<rparr>"

text \<open>The error texts quoted in the response are left out.\<close>

definition make_unknown_result :: "order_request \<Rightarrow> time \<Rightarrow> order_result" where
  "make_unknown_result ord now = (blank_result ord now)\<lparr>status := REJECTED,
     raw_response := [(''unknown'', PyBool True),
       (''action_required'', PyStr ''Reconciliation needed to determine actual status'')]\<rparr>"

definition result_from_db_row :: "order_row \<Rightarrow> order_request \<Rightarrow> order_result" where
  "result_from_db_row w ord = \<lparr>request_id = oid ord,
     exchange_order_id = (case ow_exchange_id w of Some e \<Rightarrow> e | None \<Rightarrow> []), rsymbol = osymbol ord,
     status = ow_status w, filled_quantity = ow_filled w, average_fill_price = ow_average w,
     fees = ow_fees w, submitted_at = ow_submitted_at w, filled_at = ow_filled_at w, rmode = omode ord,
     raw_response = merge_dict (ow_raw w) [(''duplicate'', PyBool True),
       (''duplicate_source'', PyStr ''db_idempotency_check''),
       (''rejection_reason'', PyStr (''Duplicate order submission blocked (already persisted by a previous '' @
          ''process instance)''))]\<rparr>"

definition release :: "nat \<Rightarrow> executor \<Rightarrow> executor" where
  "release i x = x\<lparr>in_flight := AList.delete i (in_flight x)\<rparr>"

definition get_inflight :: "executor \<Rightarrow> nat \<Rightarrow> order_result option" where
  "get_inflight x i = map_of (in_flight x) i"

definition update_inflight :: "nat \<Rightarrow> order_result \<Rightarrow> executor \<Rightarrow> executor" where
  "update_inflight i r x =
     (if map_of (in_flight x) i = None then x else x\<lparr>in_flight := AList.update i r (in_flight x)\<rparr>)"

definition clear_inflight :: "executor \<Rightarrow> executor" where
  "clear_inflight x = x\<lparr>in_flight := []\<rparr>"

definition place :: "order_request \<Rightarrow> time \<Rightarrow> executor \<Rightarrow> executor" where
  "place ord now x = x\<lparr>in_flight := AList.update (oid ord) (blank_result ord now) (in_flight x)\<rparr>"

definition lookup_persisted :: "nat \<Rightarrow> executor \<Rightarrow> order_row option" where
  "lookup_persisted i x =
     (case orders_db x of None \<Rightarrow> None | Some t \<Rightarrow> if odb_up x then get_order_by_id t i else None)"

definition persist_pending :: "order_request \<Rightarrow> time \<Rightarrow> executor \<Rightarrow> executor" where
  "persist_pending ord now x =
     (case orders_db x of
        None \<Rightarrow> x
      | Some t \<Rightarrow> if odb_up x then x\<lparr>orders_db := Some (orders.try_create now ord t)\<rparr> else x)"

definition persist_final :: "nat \<Rightarrow> order_result \<Rightarrow> executor \<Rightarrow> executor" where
  "persist_final i r x =
     (case orders_db x of
        None \<Rightarrow> x
      | Some t \<Rightarrow> if odb_up x then x\<lparr>orders_db := Some (update_order_status i r t)\<rparr> else x)"

text \<open>
  Where a call of \<open>execute_safely\<close> stands: not begun; waiting for the database lookup; the lookup has
  returned; the placeholder is set and the pending row is being written; about to call the exchange;
  the exchange has answered; done. Without a repository the two database awaits do not suspend.
\<close>

datatype task =
    T_Start
  | T_Looking
  | T_Looked "order_row option"
  | T_Placed
  | T_Ready
  | T_Answered "order_result result"
  | T_Done order_result

type_synonym submit = "order_request \<Rightarrow> order_result result"

definition answered :: "time \<Rightarrow> order_request \<Rightarrow> order_result result \<Rightarrow> executor \<Rightarrow> task \<times> executor" where
  "answered now ord a x =
     (case a of
        Inl e \<Rightarrow> let r = make_unknown_result ord now
                 in (T_Done r, release (oid ord) (persist_final (oid ord) r x))
      | Inr r \<Rightarrow> (T_Done r, persist_final (oid ord) r
                   (x\<lparr>in_flight := AList.update (oid ord) r (in_flight x)\<rparr>)))"

fun task_step :: "submit \<Rightarrow> time \<Rightarrow> order_request \<Rightarrow> task \<Rightarrow> executor \<Rightarrow> task \<times> executor" where
  "task_step submit now ord T_Start x =
     (case map_of (in_flight x) (oid ord) of
        Some c \<Rightarrow> (T_Done (make_duplicate_result c), x)
      | None \<Rightarrow> if orders_db x = None then (T_Ready, place ord now x) else (T_Looking, x))"
| "task_step submit now ord T_Looking x = (T_Looked (lookup_persisted (oid ord) x), x)"
| "task_step submit now ord (T_Looked (Some w)) x =
     (if terminal (ow_status w) then (T_Done (result_from_db_row w ord), x)
      else (T_Done (make_unknown_result ord now), x))"
| "task_step submit now ord (T_Looked None) x = (T_Placed, place ord now x)"
| "task_step submit now ord T_Placed x = (T_Ready, persist_pending ord now x)"
| "task_step submit now ord T_Ready x = (T_Answered (submit ord), x)"
| "task_step submit now ord (T_Answered a) x = answered now ord a x"
| "task_step submit now ord (T_Done r) x = (T_Done r, x)"

text \<open>A call that nothing interrupts.\<close>

fun run_task :: "nat \<Rightarrow> submit \<Rightarrow> time \<Rightarrow> order_request \<Rightarrow> task \<Rightarrow> executor \<Rightarrow> task \<times> executor" where
  "run_task 0 submit now ord t x = (t, x)"
| "run_task (Suc n) submit now ord t x =
     (case task_step submit now ord t x of (t1, x1) \<Rightarrow> run_task n submit now ord t1 x1)"

definition execute_safely ::
  "submit \<Rightarrow> time \<Rightarrow> order_request \<Rightarrow> executor \<Rightarrow> order_result option \<times> executor" where
  "execute_safely submit now ord x =
     (case run_task 6 submit now ord T_Start x of
        (T_Done r, x1) \<Rightarrow> (Some r, x1)
      | (t, x1) \<Rightarrow> (None, x1))"

section \<open>World\<close>

record exec_world =
  memory :: executor
  tasks :: "(order_request \<times> task) list"
  sent :: "nat list"

definition unfinished :: "task \<Rightarrow> bool" where
  "unfinished t \<longleftrightarrow> (case t of T_Done r \<Rightarrow> False | _ \<Rightarrow> True)"

definition fresh_world :: "executor \<Rightarrow> exec_world" where
  "fresh_world x = \<lparr>memory = x, tasks = [], sent = []\<rparr>"

definition advance :: "submit \<Rightarrow> time \<Rightarrow> nat \<Rightarrow> exec_world \<Rightarrow> exec_world" where
  "advance submit now i w =
     (case tasks w ! i of (ord, t) \<Rightarrow>
        (case task_step submit now ord t (memory w) of (t1, x1) \<Rightarrow>
           w\<lparr>memory := x1, tasks := (tasks w)[i := (ord, t1)],
             sent := (if t = T_Ready then sent w @ [oid ord] else sent w)\<rparr>))"

text \<open>
  The steps of the world. \<open>exclusive\<close> is the discipline of the callers: an order is not executed again
  while a call for it is under way. \<open>Release\<close> is the \<open>finally\<close> of \<open>ExecutionEngine.execute\<close> after its
  call has returned; a crash loses the memory and all tasks and keeps the database.
\<close>

inductive world_step :: "submit \<Rightarrow> bool \<Rightarrow> exec_world \<Rightarrow> exec_world \<Rightarrow> bool"
  for submit exclusive where
  Start: "(exclusive \<Longrightarrow> \<forall>(o2, t) \<in> set (tasks w). oid o2 = oid ord \<longrightarrow> \<not> unfinished t) \<Longrightarrow>
    world_step submit exclusive w (w\<lparr>tasks := tasks w @ [(ord, T_Start)]\<rparr>)"
| Advance: "i < length (tasks w) \<Longrightarrow> world_step submit exclusive w (advance submit now i w)"
| Release: "(ord, T_Done r) \<in> set (tasks w) \<Longrightarrow>
    world_step submit exclusive w (w\<lparr>memory := release (oid ord) (memory w)\<rparr>)"
| Crash: "world_step submit exclusive w (w\<lparr>memory := clear_inflight (memory w), tasks := []\<rparr>)"

inductive world_reach :: "submit \<Rightarrow> bool \<Rightarrow> exec_world \<Rightarrow> exec_world \<Rightarrow> bool"
  for submit exclusive w0 where
  Refl: "world_reach submit exclusive w0 w0"
| Step: "world_reach submit exclusive w0 w \<Longrightarrow> world_step submit exclusive w w' \<Longrightarrow>
    world_reach submit exclusive w0 w'"

inductive_cases world_stepE: "world_step submit exclusive w w'"

section \<open>Sequential behaviour\<close>

lemma execute_safely_returns:
  "\<exists>r x'. execute_safely submit now ord x = (Some r, x')"
proof (cases "map_of (in_flight x) (oid ord)")
  case (Some c)
  then show ?thesis by (simp add: execute_safely_def eval_nat_numeral)
next
  case new: None
  show ?thesis
  proof (cases "orders_db x")
    case None
    with new show ?thesis
      by (cases "submit ord") (simp_all add: execute_safely_def eval_nat_numeral answered_def Let_def)
  next
    case (Some t)
    with new show ?thesis
      by (cases "lookup_persisted (oid ord) x"; cases "submit ord")
        (simp_all add: execute_safely_def eval_nat_numeral answered_def Let_def)
  qed
qed

lemma db_simps [simp]:
  "odb_up (place ord now x) = odb_up x" "orders_db (place ord now x) = orders_db x"
  "odb_up (release i x) = odb_up x" "orders_db (release i x) = orders_db x"
  "odb_up (clear_inflight x) = odb_up x" "orders_db (clear_inflight x) = orders_db x"
  "odb_up (persist_pending ord now x) = odb_up x" "odb_up (persist_final i r x) = odb_up x"
  by (simp_all add: place_def release_def clear_inflight_def persist_pending_def persist_final_def
      split: option.splits)

section \<open>At most once\<close>

definition row_known :: "executor \<Rightarrow> nat \<Rightarrow> bool" where
  "row_known x i \<longleftrightarrow> (case orders_db x of None \<Rightarrow> False | Some t \<Rightarrow> get_order_by_id t i \<noteq> None)"

text \<open>What holds of a task of the order \<open>i\<close> while it is under way.\<close>

definition task_ok :: "executor \<Rightarrow> nat list \<Rightarrow> nat \<Rightarrow> task \<Rightarrow> bool" where
  "task_ok x ids i t =
     (case t of
        T_Looked None \<Rightarrow> i \<notin> set ids \<and> \<not> row_known x i
      | T_Placed \<Rightarrow> i \<notin> set ids \<and> \<not> row_known x i
      | T_Ready \<Rightarrow> i \<notin> set ids \<and> row_known x i
      | _ \<Rightarrow> True)"

definition db_ok :: "executor \<Rightarrow> nat list \<Rightarrow> bool" where
  "db_ok x ids \<longleftrightarrow> odb_up x \<and> orders_db x \<noteq> None \<and> distinct ids \<and> (\<forall>i \<in> set ids. row_known x i)"

definition one_each :: "(order_request \<times> task) list \<Rightarrow> bool" where
  "one_each ts \<longleftrightarrow> (\<forall>i < length ts. \<forall>j < length ts.
     oid (fst (ts ! i)) = oid (fst (ts ! j)) \<longrightarrow> unfinished (snd (ts ! i)) \<longrightarrow>
     unfinished (snd (ts ! j)) \<longrightarrow> i = j)"

definition world_ok :: "exec_world \<Rightarrow> bool" where
  "world_ok w \<longleftrightarrow> db_ok (memory w) (sent w) \<and> one_each (tasks w) \<and>
     (\<forall>(ord, t) \<in> set (tasks w). task_ok (memory w) (sent w) (oid ord) t)"

definition sent_after :: "task \<Rightarrow> order_request \<Rightarrow> nat list \<Rightarrow> nat list" where
  "sent_after t ord ids = (if t = T_Ready then ids @ [oid ord] else ids)"

lemma row_known_simps [simp]:
  "row_known (place ord now x) i = row_known x i" "row_known (release j x) i = row_known x i"
  "row_known (clear_inflight x) i = row_known x i"
  "row_known (x\<lparr>in_flight := f\<rparr>) i = row_known x i"
  by (simp_all add: row_known_def place_def release_def clear_inflight_def)

lemma row_known_final [simp]: "row_known (persist_final j r x) i = row_known x i"
  by (auto simp: row_known_def persist_final_def orders.upd_keeps simp flip: not_None_eq split: option.split)

lemma row_known_pending:
  "odb_up x \<Longrightarrow> orders_db x \<noteq> None \<Longrightarrow>
   row_known (persist_pending ord now x) i \<longleftrightarrow> i = oid ord \<or> row_known x i"
  using orders.try_create_known [of now ord] orders.try_create_other [of i ord now]
  by (cases "i = oid ord"; cases "orders_db x")
    (simp_all add: row_known_def persist_pending_def del: not_None_eq)

lemma lookup_known: "odb_up x \<Longrightarrow> lookup_persisted i x = None \<longleftrightarrow> \<not> row_known x i"
  by (simp add: row_known_def lookup_persisted_def split: option.split)

lemma persisted_there [simp]:
  "orders_db (persist_pending ord now x) = None \<longleftrightarrow> orders_db x = None"
  "orders_db (persist_final i r x) = None \<longleftrightarrow> orders_db x = None"
  "(\<exists>t. orders_db (persist_pending ord now x) = Some t) \<longleftrightarrow> (\<exists>t. orders_db x = Some t)"
  "(\<exists>t. orders_db (persist_final i r x) = Some t) \<longleftrightarrow> (\<exists>t. orders_db x = Some t)"
  by (simp_all add: persist_pending_def persist_final_def split: option.split)

text \<open>One step of one task, seen from the database.\<close>

lemma task_step_db:
  assumes "task_step submit now ord t x = (t1, x1)" and "db_ok x ids" and "task_ok x ids (oid ord) t"
  shows "db_ok x1 (sent_after t ord ids)"
    and "task_ok x1 (sent_after t ord ids) (oid ord) t1"
    and "unfinished t1 \<Longrightarrow> unfinished t"
    and "j \<noteq> oid ord \<Longrightarrow> row_known x1 j = row_known x j"
    and "\<not> unfinished t \<Longrightarrow> x1 = x \<and> t1 = t"
proof -
  have up: "odb_up x" "orders_db x \<noteq> None" using assms(2) by (simp_all add: db_ok_def)
  note simps = db_ok_def task_ok_def sent_after_def unfinished_def lookup_known [OF up(1)]
    row_known_pending [OF up] answered_def Let_def
  have "db_ok x1 (sent_after t ord ids) \<and> task_ok x1 (sent_after t ord ids) (oid ord) t1 \<and>
    (unfinished t1 \<longrightarrow> unfinished t) \<and> (j \<noteq> oid ord \<longrightarrow> row_known x1 j = row_known x j) \<and>
    (\<not> unfinished t \<longrightarrow> x1 = x \<and> t1 = t)"
  proof (cases t)
    case T_Start
    with assms up show ?thesis by (cases "map_of (in_flight x) (oid ord)") (auto simp: simps)
  next
    case T_Looking
    have "lookup_persisted (oid ord) x = None \<Longrightarrow> \<not> row_known x (oid ord) \<and> oid ord \<notin> set ids"
      using lookup_known [OF up(1)] assms(2) by (auto simp: db_ok_def)
    with T_Looking assms show ?thesis
      by (cases "lookup_persisted (oid ord) x") (auto simp: db_ok_def task_ok_def sent_after_def unfinished_def)
  next
    case (T_Looked r)
    with assms show ?thesis by (cases r) (auto simp: simps split: if_splits)
  next
    case T_Placed
    with assms show ?thesis by (auto simp: simps simp del: not_None_eq)
  next
    case T_Ready
    with assms show ?thesis by (auto simp: simps)
  next
    case (T_Answered a)
    with assms show ?thesis by (cases a) (auto simp: simps)
  next
    case (T_Done r)
    with assms show ?thesis by (auto simp: simps)
  qed
  then show "db_ok x1 (sent_after t ord ids)" "task_ok x1 (sent_after t ord ids) (oid ord) t1"
    "unfinished t1 \<Longrightarrow> unfinished t" "j \<noteq> oid ord \<Longrightarrow> row_known x1 j = row_known x j"
    "\<not> unfinished t \<Longrightarrow> x1 = x \<and> t1 = t" by blast+
qed

lemma other_task_ok:
  assumes "j \<noteq> oid ord" and "row_known x1 j = row_known x j" and "task_ok x ids j t2"
  shows "task_ok x1 (sent_after t ord ids) j t2"
  using assms by (auto simp: task_ok_def sent_after_def split: task.splits option.splits)

lemma one_each_update:
  assumes "one_each ts" and "i < length ts" and "ts ! i = (ord, t)" and "unfinished t1 \<Longrightarrow> unfinished t"
  shows "one_each (ts[i := (ord, t1)])"
  using assms unfolding one_each_def
  by (auto simp: nth_list_update)

lemma one_each_append:
  assumes "one_each ts" and "\<forall>(o2, t) \<in> set ts. oid o2 = oid ord \<longrightarrow> \<not> unfinished t"
  shows "one_each (ts @ [(ord, T_Start)])"
proof -
  let ?n = "length ts" and ?us = "ts @ [(ord, T_Start)]"
  have busy: "oid (fst (ts ! k)) = oid ord \<Longrightarrow> \<not> unfinished (snd (ts ! k))" if "k < ?n" for k
    using assms(2) nth_mem [OF that] by (cases "ts ! k") auto
  have "i = j" if "i < Suc ?n" "j < Suc ?n" "oid (fst (?us ! i)) = oid (fst (?us ! j))"
    "unfinished (snd (?us ! i))" "unfinished (snd (?us ! j))" for i j
  proof -
    from that(1,2) consider "i < ?n" "j < ?n" | "i < ?n" "j = ?n" | "i = ?n" "j < ?n" | "i = ?n" "j = ?n"
      by linarith
    then show ?thesis
    proof cases
      case 1
      with that(3-5) assms(1) show ?thesis by (simp add: one_each_def nth_append)
    next
      case 2
      with that(3-5) busy [of i] show ?thesis by (simp add: nth_append)
    next
      case 3
      with that(3-5) busy [of j] show ?thesis by (simp add: nth_append)
    qed simp
  qed
  then show ?thesis by (simp add: one_each_def)
qed

lemma world_ok_step:
  assumes "world_step submit True w w'" and "world_ok w"
  shows "world_ok w'"
  using assms(1)
proof cases
  case (Start ord)
  with assms(2) one_each_append [of "tasks w" ord] show ?thesis
    by (auto simp: world_ok_def task_ok_def)
next
  case (Advance i now)
  obtain ord t where t: "tasks w ! i = (ord, t)" by fastforce
  obtain t1 x1 where s: "task_step submit now ord t (memory w) = (t1, x1)" by fastforce
  let ?ids = "sent_after t ord (sent w)"
  have w': "w' = w\<lparr>memory := x1, tasks := (tasks w)[i := (ord, t1)], sent := ?ids\<rparr>"
    using Advance(1) t s by (simp add: advance_def sent_after_def)
  from assms(2) have db: "db_ok (memory w) (sent w)" and one: "one_each (tasks w)"
    and ok: "\<And>o2 t2. (o2, t2) \<in> set (tasks w) \<Longrightarrow> task_ok (memory w) (sent w) (oid o2) t2"
    by (auto simp: world_ok_def)
  have "(ord, t) \<in> set (tasks w)" using Advance(2) t by (metis nth_mem)
  note step = task_step_db [OF s db ok [OF this]]
  have rest: "task_ok x1 ?ids (oid (fst (tasks w ! k))) (snd (tasks w ! k))"
    if "k < length (tasks w)" "k \<noteq> i" for k
  proof -
    obtain o2 t2 where k: "tasks w ! k = (o2, t2)" by fastforce
    then have okk: "task_ok (memory w) (sent w) (oid o2) t2" using ok that(1) by (metis nth_mem)
    show ?thesis
    proof (cases "oid o2 = oid ord \<and> unfinished t \<and> unfinished t2")
      case True
      with one that Advance(2) t k show ?thesis unfolding one_each_def by (metis fst_conv snd_conv)
    next
      case False
      then consider "oid o2 \<noteq> oid ord" | "\<not> unfinished t" | "\<not> unfinished t2" by blast
      then show ?thesis
      proof cases
        case 1
        with okk k other_task_ok [OF 1 step(4) [OF 1]] show ?thesis by simp
      next
        case 2
        with okk k step(5) show ?thesis by (cases t) (auto simp: sent_after_def unfinished_def)
      next
        case 3
        with k show ?thesis by (cases t2) (auto simp: task_ok_def unfinished_def)
      qed
    qed
  qed
  have "\<forall>k < length (tasks w). task_ok x1 ?ids (oid (fst ((tasks w)[i := (ord, t1)] ! k)))
      (snd ((tasks w)[i := (ord, t1)] ! k))"
    using rest step(2) Advance(2) by (simp add: nth_list_update)
  then have "\<forall>(o2, t2) \<in> set ((tasks w)[i := (ord, t1)]). task_ok x1 ?ids (oid o2) t2"
    by (auto simp: in_set_conv_nth) (metis fst_conv snd_conv length_list_update)
  with w' step(1) one_each_update [OF one Advance(2) t step(3)] show ?thesis
    by (simp add: world_ok_def)
next
  case (Release ord r)
  with assms(2) show ?thesis
    by (auto simp: world_ok_def db_ok_def task_ok_def split: task.splits option.splits)
next
  case Crash
  with assms(2) show ?thesis by (auto simp: world_ok_def db_ok_def one_each_def)
qed

lemma world_ok_reach: "world_reach submit True w0 w \<Longrightarrow> world_ok w0 \<Longrightarrow> world_ok w"
  by (induction rule: world_reach.induct) (simp_all add: world_ok_step)

lemma world_ok_fresh:
  "odb_up x \<Longrightarrow> orders_db x \<noteq> None \<Longrightarrow> world_ok (fresh_world x)"
  by (simp add: world_ok_def fresh_world_def db_ok_def one_each_def)

section \<open>Properties\<close>

text \<open>
  C5. At most one submission, across crashes: as long as the database works and the callers do not start
  a call for an order while another call for it is under way, no order is handed to the exchange twice,
  whatever the exchange answers, however calls for different orders interleave and wherever the process
  dies and starts anew.
\<close>

theorem submitted_at_most_once:
  assumes "world_reach submit True (fresh_world x) w" and "odb_up x" and "orders_db x \<noteq> None"
  shows "distinct (sent w)"
  using world_ok_reach [OF assms(1) world_ok_fresh [OF assms(2,3)]] by (simp add: world_ok_def db_ok_def)

definition demo_executor :: executor where
  "demo_executor = \<lparr>in_flight = [], orders_db = Some [], odb_up = True\<rparr>"

definition accept :: submit where
  "accept ord = Inr ((blank_result ord 3)\<lparr>status := FILLED, filled_quantity := quantity ord,
     exchange_order_id := ''X1''\<rparr>)"

definition tick :: "submit \<Rightarrow> nat \<Rightarrow> exec_world \<Rightarrow> exec_world" where
  "tick submit i w = advance submit 3 i w"

definition begin_call :: "order_request \<Rightarrow> exec_world \<Rightarrow> exec_world" where
  "begin_call ord w = w\<lparr>tasks := tasks w @ [(ord, T_Start)]\<rparr>"

lemma reach_begin:
  "world_reach submit exclusive w0 w \<Longrightarrow>
   (exclusive \<Longrightarrow> \<forall>(o2, t) \<in> set (tasks w). oid o2 = oid ord \<longrightarrow> \<not> unfinished t) \<Longrightarrow>
   world_reach submit exclusive w0 (begin_call ord w)"
  unfolding begin_call_def by (erule world_reach.Step, rule world_step.Start)

lemma reach_tick:
  "world_reach submit exclusive w0 w \<Longrightarrow> i < length (tasks w) \<Longrightarrow>
   world_reach submit exclusive w0 (tick submit i w)"
  unfolding tick_def by (erule world_reach.Step, rule world_step.Advance)

lemma reach_ticks:
  "world_reach submit exclusive w0 w \<Longrightarrow> \<forall>i \<in> set is. i < length (tasks w) \<Longrightarrow>
   world_reach submit exclusive w0 (fold (tick submit) is w)"
proof (induction "is" arbitrary: w)
  case Nil
  then show ?case by simp
next
  case (Cons i js)
  from Cons.prems have "world_reach submit exclusive w0 (tick submit i w)" by (intro reach_tick) simp_all
  moreover have "length (tasks (tick submit i w)) = length (tasks w)"
    by (simp add: tick_def advance_def split: prod.split)
  ultimately have "world_reach submit exclusive w0 (fold (tick submit) js (tick submit i w))"
    using Cons.prems(2) by (intro Cons.IH) simp_all
  then show ?case by simp
qed

lemma reach_crash:
  "world_reach submit exclusive w0 w \<Longrightarrow>
   world_reach submit exclusive w0 (w\<lparr>memory := clear_inflight (memory w), tasks := []\<rparr>)"
  by (erule world_reach.Step, rule world_step.Crash)

text \<open>The first call dies after the exchange has answered; the second one, after the restart, sends nothing.\<close>

definition crashed_world :: exec_world where
  "crashed_world =
     (let w = fold (tick accept) [0, 0, 0, 0, 0] (begin_call (demo_order PAPER) (fresh_world demo_executor))
      in w\<lparr>memory := clear_inflight (memory w), tasks := []\<rparr>)"

definition retried_world :: exec_world where
  "retried_world = fold (tick accept) [0, 0, 0, 0, 0, 0] (begin_call (demo_order PAPER) crashed_world)"

lemma crashed_reachable: "world_reach accept True (fresh_world demo_executor) crashed_world"
  unfolding crashed_world_def Let_def
  by (intro reach_crash reach_ticks reach_begin world_reach.Refl) (auto simp: fresh_world_def begin_call_def)

lemma retried_reachable: "world_reach accept True (fresh_world demo_executor) retried_world"
  unfolding retried_world_def
  by (intro reach_ticks reach_begin crashed_reachable)
    (auto simp: crashed_world_def Let_def begin_call_def)

theorem submitted_at_most_once_witness: "distinct (sent retried_world)"
  using submitted_at_most_once [OF retried_reachable] by (simp add: demo_executor_def)

lemmas run_world = tick_def advance_def begin_call_def fresh_world_def demo_executor_def demo_order_def
  place_def lookup_persisted_def get_order_by_id_def persist_pending_def orders.try_create_def
  create_order_def pending_row_def

lemma retried_sent: "sent retried_world = [1]"
  by (simp add: retried_world_def crashed_world_def Let_def run_world clear_inflight_def)

text \<open>
  The guard has a gap: the lookup in the database lies between the check for a call under way and
  the entry that such a check finds, so of two overlapping calls for one order both can pass and both
  hand it to the exchange, with a working database and without any failure.
\<close>

theorem overlapping_calls_submit_twice:
  "\<exists>w. world_reach submit False (fresh_world demo_executor) w \<and> sent w = [1, 1]"
proof -
  let ?w = "fold (tick submit) [0, 1, 0, 1, 0, 1, 0, 1, 0, 1]
    (begin_call (demo_order PAPER) (begin_call (demo_order PAPER) (fresh_world demo_executor)))"
  have "world_reach submit False (fresh_world demo_executor) ?w"
    by (intro reach_ticks reach_begin world_reach.Refl) (auto simp: fresh_world_def begin_call_def)
  moreover have "sent ?w = [1, 1]" by (simp add: run_world)
  ultimately show ?thesis by blast
qed

text \<open>
  A blocked duplicate opens the door for a third call: without a repository, a duplicate call is
  refused, but its caller then releases the order, which removes the entry of the call that is still
  waiting for the exchange, and the next call for the same order is submitted again.
\<close>

theorem duplicate_releases_guard:
  "\<exists>w. world_reach submit False (fresh_world (demo_executor\<lparr>orders_db := None\<rparr>)) w \<and> sent w = [1, 1] \<and>
     (\<exists>r. snd (tasks w ! 1) = T_Done r \<and> status r = REJECTED)"
proof -
  let ?x = "demo_executor\<lparr>orders_db := None\<rparr>"
  let ?w2 = "fold (tick submit) [0, 1]
    (begin_call (demo_order PAPER) (begin_call (demo_order PAPER) (fresh_world ?x)))"
  let ?w3 = "?w2\<lparr>memory := release (oid (demo_order PAPER)) (memory ?w2)\<rparr>"
  let ?w = "fold (tick submit) [0, 2, 2] (begin_call (demo_order PAPER) ?w3)"
  have w2: "world_reach submit False (fresh_world ?x) ?w2"
    by (intro reach_ticks reach_begin world_reach.Refl) (auto simp: fresh_world_def begin_call_def)
  have ts: "\<exists>r. (demo_order PAPER, T_Done r) \<in> set (tasks ?w2)" "length (tasks ?w2) = 2"
    by (simp_all add: run_world)
  from ts(1) obtain r where r: "(demo_order PAPER, T_Done r) \<in> set (tasks ?w2)" ..
  have w3: "world_reach submit False (fresh_world ?x) ?w3"
    by (rule world_reach.Step [OF w2]) (rule world_step.Release [OF r])
  have "world_reach submit False (fresh_world ?x) ?w"
    by (intro reach_ticks reach_begin w3) (use ts(2) in \<open>auto simp: begin_call_def\<close>)
  moreover have "sent ?w = [1, 1]" "\<exists>r. snd (tasks ?w ! 1) = T_Done r \<and> status r = REJECTED"
    by (simp_all add: run_world release_def make_duplicate_result_def blank_result_def)
  ultimately show ?thesis by blast
qed

end
