(* ===== verification/Quantization.thy ===== *)
theory Quantization
  imports Core_Types
begin

text \<open>
  \<open>sgr/execution/quantization.py\<close>: rounding of an order's quantity and limit price to the precision
  the exchange reports for the symbol (\<open>SymbolLimits\<close> of \<open>sgr/exchanges/base.py\<close>), and the checks
  against its minima and maxima. The result of the code is a pair of a value and an optional reason;
  \<open>quantize\<close> itself can raise \<open>InvalidOperation\<close>, so the model returns that pair or the exception.
\<close>

record symbol_limits =
  amount_precision :: "int option"
  price_precision :: "int option"
  min_amount :: "dec option"
  max_amount :: "dec option"
  min_notional :: "dec option"
  min_price :: "dec option"
  max_price :: "dec option"

datatype quant_reason =
    RoundsToZero dec "int option"
  | BelowMinAmount dec dec
  | AboveMaxAmount dec dec
  | BelowMinNotional dec dec
  | PriceRoundsToZero dec dec "int option"
  | BelowMinPrice dec dec
  | AboveMaxPrice dec dec

type_synonym quant_result = "(dec \<times> quant_reason option) result"

definition below :: "dec \<Rightarrow> dec option \<Rightarrow> bool" where
  "below x lims = (case lims of Some l \<Rightarrow> x < l | None \<Rightarrow> False)"

definition above :: "dec \<Rightarrow> dec option \<Rightarrow> bool" where
  "above x lims = (case lims of Some l \<Rightarrow> l < x | None \<Rightarrow> False)"

definition round_to :: "dec \<Rightarrow> int option \<Rightarrow> rounding_mode \<Rightarrow> dec result" where
  "round_to x prec m = (case prec of Some p \<Rightarrow> quantize x p m | None \<Rightarrow> Inr x)"

definition check_quantity :: "dec \<Rightarrow> dec \<Rightarrow> dec \<Rightarrow> symbol_limits \<Rightarrow> dec \<times> quant_reason option" where
  "check_quantity q quant price l =
     (if quant \<le> 0 then (0, Some (RoundsToZero q (amount_precision l)))
      else if below quant (min_amount l)
      then (0, Some (BelowMinAmount quant (the (min_amount l))))
      else if above quant (max_amount l)
      then (0, Some (AboveMaxAmount quant (the (max_amount l))))
      else if min_notional l \<noteq> None \<and> 0 < price \<and> below (quant * price) (min_notional l)
      then (0, Some (BelowMinNotional (quant * price) (the (min_notional l))))
      else (quant, None))"

definition quantize_and_validate :: "dec \<Rightarrow> dec \<Rightarrow> symbol_limits option \<Rightarrow> quant_result" where
  "quantize_and_validate q price limits =
     (case limits of
        None \<Rightarrow> Inr (q, None)
      | Some l \<Rightarrow>
          bind_result (round_to q (amount_precision l) ROUND_DOWN)
            (\<lambda>quant. Inr (check_quantity q quant price l)))"

definition price_rounding :: "side \<Rightarrow> rounding_mode" where
  "price_rounding s = (case s of BUY \<Rightarrow> ROUND_DOWN | SELL \<Rightarrow> ROUND_UP)"

definition check_price :: "dec \<Rightarrow> dec \<Rightarrow> symbol_limits \<Rightarrow> dec \<times> quant_reason option" where
  "check_price price quant l =
     (if quant \<le> 0 then (0, Some (PriceRoundsToZero price quant (price_precision l)))
      else if below quant (min_price l)
      then (0, Some (BelowMinPrice quant (the (min_price l))))
      else if above quant (max_price l)
      then (0, Some (AboveMaxPrice quant (the (max_price l))))
      else (quant, None))"

definition quantize_price :: "dec \<Rightarrow> side \<Rightarrow> symbol_limits option \<Rightarrow> quant_result" where
  "quantize_price price s limits =
     (case limits of
        None \<Rightarrow> Inr (price, None)
      | Some l \<Rightarrow>
          bind_result (round_to price (price_precision l) (price_rounding s))
            (\<lambda>quant. Inr (check_price price quant l)))"

section \<open>Rounding\<close>

definition step_size :: "int option \<Rightarrow> rat" where
  "step_size prec = (case prec of Some p \<Rightarrow> 1 / bpow 10 p | None \<Rightarrow> 0)"

lemma round_to_down:
  assumes "round_to x prec ROUND_DOWN = Inr y" and "0 \<le> dval x"
  shows "0 \<le> dval y \<and> dval y \<le> dval x \<and> dval x \<le> dval y + step_size prec"
    and "if prec = None then y = x else dval x < dval y + step_size prec"
  using assms quantize_down [of x _ y]
  by (auto simp: round_to_def step_size_def split: option.splits dest: less_imp_le)

lemma round_to_up:
  assumes "round_to x prec ROUND_UP = Inr y" and "0 \<le> dval x"
  shows "dval x \<le> dval y \<and> dval y \<le> dval x + step_size prec"
  using assms quantize_up [of x _ y]
  by (auto simp: round_to_def step_size_def split: option.splits dest: less_imp_le)

lemma round_to_multiple:
  "round_to x (Some p) m = Inr y \<Longrightarrow> dval y * bpow 10 p \<in> \<int>"
  by (simp add: round_to_def quantize_multiple)

lemma round_to_again:
  assumes "round_to x prec m = Inr y"
  shows "round_to y prec m' = Inr y"
proof (cases prec)
  case None
  with assms show ?thesis by (simp add: round_to_def)
next
  case (Some p)
  let ?k = "to_int m (dval x * bpow 10 p)"
  from assms Some have y: "dval y = of_int ?k / bpow 10 p" "\<bar>?k\<bar> < 10 ^ 28"
    by (auto simp: round_to_def quantize_def Let_def split: if_splits)
  then have "to_int m' (dval y * bpow 10 p) = ?k"
    by (cases m') (simp_all add: trunc_def away_def)
  with y Some show ?thesis by (simp add: round_to_def quantize_def dec_eq_iff)
qed

lemmas quant_defs = quantize_and_validate_def quantize_price_def check_quantity_def check_price_def
  below_def above_def

section \<open>Properties\<close>

text \<open>
  C28. An accepted quantity is positive, never larger than the requested one, short of it by strictly less than
  one step of the exchange's precision (and equal to it when the exchange names no precision), a multiple of that step, within the amount limits, and its
  notional at the given price (as the code computes it) reaches the exchange's minimum.
\<close>

theorem quantity_never_rounds_up:
  assumes "quantize_and_validate q price (Some l) = Inr (q', None)" and "0 \<le> dval q"
  shows "0 < dval q' \<and> dval q' \<le> dval q
    \<and> (if amount_precision l = None then q' = q else dval q < dval q' + step_size (amount_precision l))
    \<and> (\<forall>p. amount_precision l = Some p \<longrightarrow> dval q' * bpow 10 p \<in> \<int>)
    \<and> (\<forall>m. min_amount l = Some m \<longrightarrow> m \<le> q') \<and> (\<forall>m. max_amount l = Some m \<longrightarrow> q' \<le> m)
    \<and> (\<forall>m. min_notional l = Some m \<and> 0 < price \<longrightarrow> m \<le> q' * price)"
proof -
  from assms(1) have r: "round_to q (amount_precision l) ROUND_DOWN = Inr q'"
    and c: "check_quantity q q' price l = (q', None)"
    by (auto simp: quantize_and_validate_def bind_result_Inr check_quantity_def split: if_splits)
  from c have "0 < dval q'" "\<not> below q' (min_amount l)" "\<not> above q' (max_amount l)"
    "\<not> (min_notional l \<noteq> None \<and> 0 < price \<and> below (q' * price) (min_notional l))"
    by (auto simp: check_quantity_def split: if_splits)
  with round_to_down [OF r assms(2)] r round_to_multiple [of q _ ROUND_DOWN q'] show ?thesis
    by (auto simp: below_def above_def simp del: dval_simps)
qed

definition demo_limits :: symbol_limits where
  "demo_limits = \<lparr>amount_precision = Some 3, price_precision = Some 1, min_amount = Some (Dec (1/1000)),
     max_amount = Some (Dec 100), min_notional = Some (Dec 5), min_price = Some (Dec (1/10)),
     max_price = Some (Dec 200000)\<rparr>"

theorem quantity_never_rounds_up_witness:
  "quantize_and_validate (Dec (12345678/10000000)) (Dec 50) (Some demo_limits) = Inr (Dec (1234/1000), None)
   \<and> Dec 5 \<le> Dec (1234/1000) * Dec 50"
proof -
  have h: "quantize_and_validate (Dec (12345678/10000000)) (Dec 50) (Some demo_limits)
      = Inr (Dec (1234/1000), None)" by code_simp
  have pos: "0 < Dec 50" by simp
  from quantity_never_rounds_up [OF h] pos have "Dec 5 \<le> Dec (1234/1000) * Dec 50"
    by (simp add: demo_limits_def del: dval_simps dec_order)
  with h show ?thesis by blast
qed

text \<open>
  A quantized limit price is never more aggressive than the given one: a buy price is not raised,
  a sell price is not lowered, and neither moves by more than one tick; an accepted price is positive
  and respects the exchange's price bounds.
\<close>

theorem price_never_more_aggressive:
  assumes "quantize_price price s (Some l) = Inr (p', None)" and "0 \<le> dval price"
  shows "0 < dval p' \<and> (s = BUY \<longrightarrow> p' \<le> price) \<and> (s = SELL \<longrightarrow> price \<le> p')
    \<and> \<bar>dval p' - dval price\<bar> \<le> step_size (price_precision l)
    \<and> (\<forall>m. min_price l = Some m \<longrightarrow> m \<le> p') \<and> (\<forall>m. max_price l = Some m \<longrightarrow> p' \<le> m)"
proof -
  from assms(1) have r: "round_to price (price_precision l) (price_rounding s) = Inr p'"
    and c: "check_price price p' l = (p', None)"
    by (auto simp: quantize_price_def bind_result_Inr check_price_def split: if_splits)
  from c have b: "0 < dval p'" "\<not> below p' (min_price l)" "\<not> above p' (max_price l)"
    by (auto simp: check_price_def split: if_splits)
  show ?thesis
  proof (cases s)
    case BUY
    with r round_to_down [of price "price_precision l" p'] assms(2) b show ?thesis
      by (auto simp: price_rounding_def below_def above_def)
  next
    case SELL
    with r round_to_up [of price "price_precision l" p'] assms(2) b show ?thesis
      by (auto simp: price_rounding_def below_def above_def)
  qed
qed

theorem price_never_more_aggressive_witness:
  "quantize_price (Dec (10049/100)) SELL (Some demo_limits) = Inr (Dec (1005/10), None)
   \<and> Dec (10049/100) \<le> Dec (1005/10)"
proof -
  have h: "quantize_price (Dec (10049/100)) SELL (Some demo_limits) = Inr (Dec (1005/10), None)"
    by code_simp
  from price_never_more_aggressive [OF h] h show ?thesis by simp
qed

text \<open>
  Quantizing is stable: an order that was accepted is accepted again with the same quantity and
  the same price, so an order may pass through the execution engine more than once unchanged.
\<close>

theorem quantize_stable:
  "(quantize_and_validate q price lims = Inr (q', None) \<longrightarrow>
      quantize_and_validate q' price lims = Inr (q', None))
   \<and> (quantize_price p s lims = Inr (p', None) \<longrightarrow> quantize_price p' s lims = Inr (p', None))"
proof (cases lims)
  case None
  then show ?thesis by (simp add: quantize_and_validate_def quantize_price_def)
next
  case (Some l)
  have q: "quantize_and_validate q' price lims = Inr (q', None)"
    if "quantize_and_validate q price lims = Inr (q', None)"
  proof -
    from that Some have r: "round_to q (amount_precision l) ROUND_DOWN = Inr q'"
      and c: "check_quantity q q' price l = (q', None)"
      by (auto simp: quantize_and_validate_def bind_result_Inr check_quantity_def split: if_splits)
    from c have "check_quantity q' q' price l = (q', None)"
      by (auto simp: check_quantity_def split: if_splits)
    with Some round_to_again [OF r] show ?thesis by (simp add: quantize_and_validate_def)
  qed
  have p: "quantize_price p' s lims = Inr (p', None)" if "quantize_price p s lims = Inr (p', None)"
  proof -
    from that Some have r: "round_to p (price_precision l) (price_rounding s) = Inr p'"
      and c: "check_price p p' l = (p', None)"
      by (auto simp: quantize_price_def bind_result_Inr check_price_def split: if_splits)
    from c have "check_price p' p' l = (p', None)"
      by (auto simp: check_price_def split: if_splits)
    with Some round_to_again [OF r] show ?thesis by (simp add: quantize_price_def)
  qed
  show ?thesis using q p by blast
qed

theorem quantize_stable_witness:
  "quantize_and_validate (Dec (1234/1000)) (Dec 50) (Some demo_limits) = Inr (Dec (1234/1000), None)"
proof -
  have "quantize_and_validate (Dec (12345678/10000000)) (Dec 50) (Some demo_limits)
      = Inr (Dec (1234/1000), None)" by code_simp
  then show ?thesis using quantize_stable by blast
qed

end
