(* ===== verification/Execution_Engine.thy ===== *)
theory Execution_Engine
  imports Order_Safety Quantization
begin

text \<open>
  \<open>sgr/execution/engine.py\<close>: the way of one order through the gates to the exchange, the monitoring of
  its fill, and the shutdown. The record \<open>venue\<close> holds what lies outside during one call: the adapters
  of the pool with their answers, the preflight checks, the strategy registry, the clock and whether the
  event bus takes an event. Texts of rejections are replaced by the tags the code gives its metrics.
\<close>

section \<open>State and surroundings\<close>

record exec_engine =
  ee_mode :: trading_mode
  ee_switch :: kill_switch
  ee_gate :: "lv_gate option"
  ee_exec :: executor
  leverage_cache :: "(string, dec) dict"
  placed :: "order_request list"
  cancels :: "string list"
  fills :: "order_result list"

text \<open>
  \<open>v_poll n\<close> is what the monitoring sees in its round \<open>n\<close>: whether the kill switch is active at its
  start, and the answer of \<open>get_order\<close>.
\<close>

record venue =
  v_now :: time
  v_pool :: exchange_pool
  v_registry :: "strategy_registry option"
  v_preflight :: "order_request \<Rightarrow> bool result"
  v_default_leverage :: dec
  v_set_leverage :: "string \<Rightarrow> dec \<Rightarrow> unit result"
  v_limits :: "string \<Rightarrow> symbol_limits option result"
  v_ticker :: "string \<Rightarrow> (dec \<times> dec) result"
  v_place :: submit
  v_poll :: "nat \<Rightarrow> bool \<times> order_result result"
  v_bus_ok :: bool

definition adapter_of :: "venue \<Rightarrow> exec_engine \<Rightarrow> order_request \<Rightarrow> bool result" where
  "adapter_of v e ord =
     (case map_of (v_pool v) (sym_exchange (osymbol ord), ee_mode e) of
        None \<Rightarrow> Inl KeyError | Some up \<Rightarrow> Inr up)"

definition rejected_result :: "venue \<Rightarrow> exec_engine \<Rightarrow> order_request \<Rightarrow> string \<Rightarrow> order_result" where
  "rejected_result v e ord why = \<lparr>request_id = oid ord,
     exchange_order_id = ''REJECTED-'' @ nat_str (oid ord), rsymbol = osymbol ord, status = REJECTED,
     filled_quantity = 0, average_fill_price = None, fees = 0, submitted_at = v_now v,
     filled_at = None, rmode = ee_mode e, raw_response = [(''rejection_reason'', PyStr why)]\<rparr>"

section \<open>Before the exchange\<close>

text \<open>The result is the new engine and whether the leverage is set; a missing adapter raises.\<close>

definition ensure_leverage :: "venue \<Rightarrow> order_request \<Rightarrow> exec_engine \<Rightarrow> (exec_engine \<times> bool) result" where
  "ensure_leverage v ord e =
     (let target = v_default_leverage v; key = symbol_str (osymbol ord);
          cached = e\<lparr>leverage_cache := AList.update key target (leverage_cache e)\<rparr>
      in if map_of (leverage_cache e) key = Some target then Inr (e, True)
         else bind_result (adapter_of v e ord) (\<lambda>_.
           case v_set_leverage v (ccxt_symbol (osymbol ord)) target of
             Inr _ \<Rightarrow> Inr (cached, True)
           | Inl NotSupportedFeature \<Rightarrow> Inr (cached, True)
           | Inl _ \<Rightarrow> Inr (e, False)))"

definition price_estimate :: "venue \<Rightarrow> order_request \<Rightarrow> dec result" where
  "price_estimate v ord =
     (case limit_price ord of
        Some p \<Rightarrow> Inr p
      | None \<Rightarrow> bind_result (v_ticker v (ccxt_symbol (osymbol ord)))
                  (\<lambda>(bid, ask). Inr (if oside ord = BUY then ask else bid)))"

definition apply_quantization ::
  "order_request \<Rightarrow> dec \<Rightarrow> symbol_limits \<Rightarrow> (order_request \<times> quant_reason option) result"
where
  "apply_quantization ord price lims =
     bind_result (quantize_and_validate (quantity ord) price (Some lims)) (\<lambda>(q, why).
       if why \<noteq> None then Inr (ord, why)
       else case limit_price ord of
              None \<Rightarrow> Inr (ord\<lparr>quantity := q\<rparr>, None)
            | Some lp \<Rightarrow>
                bind_result (quantize_price lp (oside ord) (Some lims)) (\<lambda>(p, why).
                  if why \<noteq> None then Inr (ord, why)
                  else Inr (ord\<lparr>quantity := q, limit_price := Some p\<rparr>, None)))"

definition quantize_order ::
  "venue \<Rightarrow> order_request \<Rightarrow> exec_engine \<Rightarrow> (order_request \<times> quant_reason option) result"
where
  "quantize_order v ord e =
     bind_result (adapter_of v e ord) (\<lambda>_.
       case v_limits v (ccxt_symbol (osymbol ord)) of
         Inl x \<Rightarrow> Inr (ord, None)
       | Inr None \<Rightarrow> Inr (ord, None)
       | Inr (Some lims) \<Rightarrow>
           (case price_estimate v ord of
              Inl x \<Rightarrow> Inr (ord, None)
            | Inr price \<Rightarrow> apply_quantization ord price lims))"

section \<open>Fill and monitoring\<close>

definition attribution_keys :: "string list" where
  "attribution_keys = [''exit_reason'', ''target_price'', ''stop_price'', ''entry_regime'']"

definition attribution :: "order_request \<Rightarrow> py_dict" where
  "attribution ord =
     (''strategy'', py_get (metadata ord) ''strategy'' (PyStr ''unknown'')) #
     concat (map (\<lambda>k. case map_of (metadata ord) k of Some v \<Rightarrow> [(k, v)] | None \<Rightarrow> []) attribution_keys)"

definition attribute :: "order_request \<Rightarrow> order_result \<Rightarrow> order_result" where
  "attribute ord r = r\<lparr>raw_response := merge_dict (raw_response r) (attribution ord)\<rparr>"

definition persist_order_status :: "venue \<Rightarrow> nat \<Rightarrow> order_result \<Rightarrow> exec_engine \<Rightarrow> exec_engine" where
  "persist_order_status v i r e =
     e\<lparr>ee_exec := persist_final i
        (r\<lparr>filled_at := (if status r = FILLED then Some (v_now v) else None), exchange_order_id := []\<rparr>)
        (ee_exec e)\<rparr>"

definition on_fill :: "venue \<Rightarrow> order_result \<Rightarrow> exec_engine \<Rightarrow> exec_engine" where
  "on_fill v r e =
     persist_order_status v (request_id r) r (if v_bus_ok v then e\<lparr>fills := fills e @ [r]\<rparr> else e)"

definition cancel_order :: "venue \<Rightarrow> order_request \<Rightarrow> order_result \<Rightarrow> exec_engine \<Rightarrow> exec_engine" where
  "cancel_order v ord r e =
     (case adapter_of v e ord of
        Inl x \<Rightarrow> e
      | Inr _ \<Rightarrow> e\<lparr>cancels := cancels e @ [exchange_order_id r]\<rparr>)"

definition is_exchange_error :: "py_exc \<Rightarrow> bool" where
  "is_exchange_error x = (case x of ExchangeError n \<Rightarrow> True | NotSupportedFeature \<Rightarrow> True | _ \<Rightarrow> False)"

definition ended :: "order_status \<Rightarrow> bool" where
  "ended s \<longleftrightarrow> s \<in> {FILLED, CANCELLED, REJECTED}"

definition track :: "order_request \<Rightarrow> order_result \<Rightarrow> exec_engine \<Rightarrow> exec_engine" where
  "track ord r e = e\<lparr>ee_exec := update_inflight (oid ord) r (ee_exec e)\<rparr>"

text \<open>The loop of \<open>_monitor_fill\<close>; the poll interval is two seconds, \<open>elapsed\<close> counts seconds.\<close>

datatype monitored = Killed order_result | Left order_result | PollRaised py_exc

function monitor_loop ::
  "venue \<Rightarrow> order_request \<Rightarrow> int \<Rightarrow> int \<Rightarrow> order_result \<Rightarrow> exec_engine \<Rightarrow> monitored \<times> exec_engine"
where
  "monitor_loop v ord timeout elapsed cur e =
     (if timeout \<le> elapsed then (Left cur, e)
      else case v_poll v (nat (elapsed div 2)) of (kill, answer) \<Rightarrow>
        if kill then (Killed cur, persist_order_status v (oid ord) cur (cancel_order v ord cur e))
        else case answer of
               Inr r \<Rightarrow>
                 let r1 = attribute ord r; e1 = track ord r1 e
                 in if ended (status r1)
                    then (Left r1, if status r1 = FILLED then e1 else persist_order_status v (oid ord) r1 e1)
                    else monitor_loop v ord timeout (elapsed + 2) r1 e1
             | Inl x \<Rightarrow>
                 if is_exchange_error x then monitor_loop v ord timeout (elapsed + 2) cur (track ord cur e)
                 else (PollRaised x, track ord cur e))"
  by pat_completeness auto
termination by (relation "measure (\<lambda>(v, ord, timeout, elapsed, cur, e). nat (timeout - elapsed))") auto

declare monitor_loop.simps [simp del]

definition monitor_fill ::
  "venue \<Rightarrow> order_request \<Rightarrow> order_result \<Rightarrow> int \<Rightarrow> exec_engine \<Rightarrow> order_result result \<times> exec_engine"
where
  "monitor_fill v ord r timeout e =
     (case monitor_loop v ord timeout 0 r e of
        (Killed cur, e1) \<Rightarrow> (Inr cur, e1)
      | (PollRaised x, e1) \<Rightarrow> (Inl x, e1)
      | (Left cur, e1) \<Rightarrow>
          let e2 = (if ended (status cur) then e1
                    else persist_order_status v (oid ord) cur (cancel_order v ord cur e1))
          in (Inr cur, if status cur = FILLED then on_fill v cur e2 else e2))"

section \<open>Execution\<close>

text \<open>Whether \<open>execute_safely\<close> gets to its call of the exchange (see \<open>hands_over_ready\<close>).\<close>

definition hands_over :: "order_request \<Rightarrow> executor \<Rightarrow> bool" where
  "hands_over ord x \<longleftrightarrow> map_of (in_flight x) (oid ord) = None \<and> lookup_persisted (oid ord) x = None"

definition safely :: "venue \<Rightarrow> order_request \<Rightarrow> exec_engine \<Rightarrow> order_result result \<times> exec_engine" where
  "safely v ord e =
     (case execute_safely (v_place v) (v_now v) ord (ee_exec e) of
        (r, x1) \<Rightarrow>
          (case r of Some r1 \<Rightarrow> Inr r1 | None \<Rightarrow> Inl RuntimeError,
           e\<lparr>ee_exec := x1,
             placed := (if hands_over ord (ee_exec e) then placed e @ [ord] else placed e)\<rparr>))"

definition marked :: "order_result \<Rightarrow> bool" where
  "marked r \<longleftrightarrow> truthy (py_get (raw_response r) ''duplicate'' PyNone) \<or>
     truthy (py_get (raw_response r) ''unknown'' PyNone)"

definition fill_timeout :: "order_request \<Rightarrow> int" where
  "fill_timeout ord = (if otype ord = MARKET then 5 else 60)"

definition execute_internal :: "venue \<Rightarrow> order_request \<Rightarrow> exec_engine \<Rightarrow> order_result result \<times> exec_engine" where
  "execute_internal v ord e =
     (case adapter_of v e ord of
        Inl x \<Rightarrow> (Inl x, e)
      | Inr _ \<Rightarrow>
          (case safely v ord e of
             (Inl x, e1) \<Rightarrow> (Inl x, e1)
           | (Inr r, e1) \<Rightarrow>
               if marked r then (Inr r, e1)
               else let r1 = attribute ord r
                    in if status r1 = FILLED then (Inr r1, on_fill v r1 e1)
                       else monitor_fill v ord r1 (fill_timeout ord) e1))"

definition release_order :: "order_request \<Rightarrow> exec_engine \<Rightarrow> exec_engine" where
  "release_order ord e = e\<lparr>ee_exec := release (oid ord) (ee_exec e)\<rparr>"

text \<open>The last part of \<open>execute\<close>: the budget of the live run, and the \<open>try\<close> block.\<close>

definition execute_budgeted :: "venue \<Rightarrow> order_request \<Rightarrow> exec_engine \<Rightarrow> order_result \<times> exec_engine" where
  "execute_budgeted v ord e =
     (let qt = (case map_of (v_pool v) (sym_exchange (osymbol ord), LIVE) of
                  None \<Rightarrow> Inl KeyError | Some up \<Rightarrow> v_ticker v (ccxt_symbol (osymbol ord)));
          (g1, why) = check_live_verification_allowed (v_now v) ord (ee_gate e) (Some qt);
          e1 = e\<lparr>ee_gate := g1\<rparr>
      in if why \<noteq> None then (rejected_result v e1 ord ''live_verification_gate'', e1)
         else let e2 = (case g1 of
                          Some g \<Rightarrow> if omode ord = LIVE
                                    then e1\<lparr>ee_gate := Some (record_order_submitted
                                           (py_get (metadata ord) ''grid_id'' PyNone) g)\<rparr>
                                    else e1
                        | None \<Rightarrow> e1)
              in case execute_internal v ord e2 of
                   (Inr r, e3) \<Rightarrow> (r, release_order ord e3)
                 | (Inl x, e3) \<Rightarrow> (rejected_result v e3 ord ''execution_error'', release_order ord e3))"

definition execute_opening :: "venue \<Rightarrow> order_request \<Rightarrow> exec_engine \<Rightarrow> (order_result \<times> exec_engine) result" where
  "execute_opening v ord e =
     bind_result (ensure_leverage v ord e) (\<lambda>(e1, lev_ok).
       if \<not> lev_ok then Inr (rejected_result v e1 ord ''leverage_set_failed'', e1)
       else bind_result (quantize_order v ord e1) (\<lambda>(ord1, why).
         if why \<noteq> None then Inr (rejected_result v e1 ord1 ''min_order_size'', e1)
         else Inr (execute_budgeted v ord1 e1)))"

definition execute :: "venue \<Rightarrow> order_request \<Rightarrow> bool \<Rightarrow> exec_engine \<Rightarrow> (order_result \<times> exec_engine) result" where
  "execute v ord bypass e =
     (if omode ord \<noteq> ee_mode e then Inl ValueError
      else if check_live_trading_allowed ord (v_registry v) (Some (ee_switch e)) (Some (v_pool v)) \<noteq> None
      then Inr (rejected_result v e ord ''live_trading_gate'', e)
      else if is_active (st (ee_switch e)) \<and> \<not> bypass
      then Inr (rejected_result v e ord ''kill_switch_active'', e)
      else bind_result (v_preflight v ord) (\<lambda>eligible.
        if \<not> eligible then Inr (rejected_result v e ord ''preflight_failed'', e)
        else if reduce_only ord then Inr (execute_budgeted v ord e)
        else execute_opening v ord e))"

section \<open>Shutdown\<close>

definition shutdown_cancels :: "venue \<Rightarrow> exec_engine \<Rightarrow> string list" where
  "shutdown_cancels v e =
     map (exchange_order_id \<circ> snd)
       (filter (\<lambda>(i, r). \<not> ended (status r) \<and> exchange_order_id r \<noteq> [] \<and>
                  map_of (v_pool v) (sym_exchange (rsymbol r), ee_mode e) \<noteq> None)
         (in_flight (ee_exec e)))"

definition shutdown :: "venue \<Rightarrow> exec_engine \<Rightarrow> exec_engine" where
  "shutdown v e = e\<lparr>cancels := cancels e @ shutdown_cancels v e, ee_exec := clear_inflight (ee_exec e)\<rparr>"

section \<open>Facts\<close>

lemma hands_over_ready:
  "hands_over ord x \<longleftrightarrow> (\<exists>n x1. run_task n submit now ord T_Start x = (T_Ready, x1))"
proof
  assume h: "hands_over ord x"
  show "\<exists>n x1. run_task n submit now ord T_Start x = (T_Ready, x1)"
  proof (cases "orders_db x")
    case None
    with h have "fst (run_task 1 submit now ord T_Start x) = T_Ready" by (simp add: hands_over_def)
    then show ?thesis by (metis prod.collapse)
  next
    case (Some t)
    with h have "fst (run_task 4 submit now ord T_Start x) = T_Ready"
      by (simp add: hands_over_def eval_nat_numeral)
    then show ?thesis by (metis prod.collapse)
  qed
next
  have done_stays: "run_task n submit now ord (T_Done r) x = (T_Done r, x)" for n r x
    by (induction n) simp_all
  assume "\<exists>n x1. run_task n submit now ord T_Start x = (T_Ready, x1)"
  then obtain n x1 where n: "run_task n submit now ord T_Start x = (T_Ready, x1)" by blast
  show "hands_over ord x"
  proof (rule ccontr)
    assume no: "\<not> hands_over ord x"
    show False
    proof (cases "map_of (in_flight x) (oid ord)")
      case (Some c)
      with n show ?thesis by (cases n) (simp_all add: done_stays)
    next
      case None
      with no obtain w where w: "lookup_persisted (oid ord) x = Some w" by (auto simp: hands_over_def)
      then have db: "orders_db x \<noteq> None" by (auto simp: lookup_persisted_def split: option.splits)
      obtain m where m: "n \<in> {0, 1, 2} \<or> n = Suc (Suc (Suc m))"
        by (metis One_nat_def Suc_1 insertCI not0_implies_Suc)
      with n None db w show ?thesis
        by (cases "terminal (ow_status w)") (auto simp: eval_nat_numeral done_stays)
    qed
  qed
qed

lemma engine_frame [simp, frame]:
  "placed (persist_order_status v i r e) = placed e" "fills (persist_order_status v i r e) = fills e"
  "placed (on_fill v r e) = placed e"
  "fills (on_fill v r e) = (if v_bus_ok v then fills e @ [r] else fills e)"
  "placed (track ord r e) = placed e" "fills (track ord r e) = fills e"
  "placed (release_order ord e) = placed e" "fills (release_order ord e) = fills e"
  "leverage_cache (release_order ord e) = leverage_cache e"
  "leverage_cache (persist_order_status v i r e) = leverage_cache e"
  "leverage_cache (on_fill v r e) = leverage_cache e"
  "leverage_cache (track ord r e) = leverage_cache e"
  by (simp_all add: persist_order_status_def on_fill_def track_def release_order_def)

lemma cancel_frame [simp, frame]:
  "placed (cancel_order v ord r e) = placed e" "fills (cancel_order v ord r e) = fills e"
  "leverage_cache (cancel_order v ord r e) = leverage_cache e"
  "ee_exec (cancel_order v ord r e) = ee_exec e"
  by (simp_all add: cancel_order_def split: sum.split)

lemma monitor_loop_stop [simp]: "timeout \<le> elapsed \<Longrightarrow> monitor_loop v ord timeout elapsed cur e = (Left cur, e)"
  by (simp add: monitor_loop.simps)

lemma monitor_loop_step:
  assumes "elapsed < timeout"
  shows "v_poll v (nat (elapsed div 2)) = (True, answer) \<Longrightarrow>
      monitor_loop v ord timeout elapsed cur e =
        (Killed cur, persist_order_status v (oid ord) cur (cancel_order v ord cur e))"
    and "v_poll v (nat (elapsed div 2)) = (False, Inl x) \<Longrightarrow>
      monitor_loop v ord timeout elapsed cur e =
        (if is_exchange_error x then monitor_loop v ord timeout (elapsed + 2) cur (track ord cur e)
         else (PollRaised x, track ord cur e))"
    and "v_poll v (nat (elapsed div 2)) = (False, Inr r) \<Longrightarrow> r1 = attribute ord r \<Longrightarrow>
      monitor_loop v ord timeout elapsed cur e =
        (if ended (status r1)
         then (Left r1, if status r1 = FILLED then track ord r1 e
                        else persist_order_status v (oid ord) r1 (track ord r1 e))
         else monitor_loop v ord timeout (elapsed + 2) r1 (track ord r1 e))"
  using assms by (subst monitor_loop.simps; simp add: Let_def)+

lemma monitor_loop_frame [frame]:
  assumes "monitor_loop v ord timeout elapsed cur e = (m, e')"
  shows "placed e' = placed e \<and> fills e' = fills e \<and> leverage_cache e' = leverage_cache e"
  using assms
proof (induction v ord timeout elapsed cur e rule: monitor_loop.induct)
  case (1 v ord timeout elapsed cur e)
  show ?case
  proof (cases "timeout \<le> elapsed")
    case True
    with "1.prems" show ?thesis by simp
  next
    case False
    then have lt: "elapsed < timeout" by simp
    consider answer where "v_poll v (nat (elapsed div 2)) = (True, answer)"
      | x where "v_poll v (nat (elapsed div 2)) = (False, Inl x)"
      | r where "v_poll v (nat (elapsed div 2)) = (False, Inr r)"
      by (metis (full_types) surj_pair sum.exhaust)
    then show ?thesis
    proof cases
      case 1
      with "1.prems" show ?thesis by (auto simp: monitor_loop_step(1) [OF lt])
    next
      case (2 x)
      with "1.IH"(1) [OF False 2 [symmetric] _ refl] "1.prems" show ?thesis
        by (auto simp: monitor_loop_step(2) [OF lt] split: if_splits)
    next
      case (3 r)
      with "1.IH"(2) [OF False 3 [symmetric] _ refl refl refl] "1.prems" show ?thesis
        by (auto simp: monitor_loop_step(3) [OF lt _ refl] split: if_splits)
    qed
  qed
qed

lemma monitor_fill_frame [frame]:
  assumes "monitor_fill v ord r timeout e = (res, e')"
  shows "placed e' = placed e \<and> leverage_cache e' = leverage_cache e \<and>
    (fills e' = fills e \<or> (\<exists>s. res = Inr s \<and> status s = FILLED \<and> fills e' = fills e @ [s]))"
proof -
  obtain m e1 where l: "monitor_loop v ord timeout 0 r e = (m, e1)" by fastforce
  show ?thesis
    using assms monitor_loop_frame [OF l]
    by (auto simp: monitor_fill_def l Let_def split: monitored.splits if_splits)
qed

lemma safely_placed:
  "placed (snd (safely v ord e)) = (if hands_over ord (ee_exec e) then placed e @ [ord] else placed e)"
  "fills (snd (safely v ord e)) = fills e" "leverage_cache (snd (safely v ord e)) = leverage_cache e"
  by (simp_all add: safely_def split: prod.split option.split)

lemma execute_internal_contact:
  assumes "execute_internal v ord e = (res, e')"
  shows "leverage_cache e' = leverage_cache e \<and>
    (placed e' = placed e \<or> placed e' = placed e @ [ord] \<and> hands_over ord (ee_exec e)) \<and>
    (fills e' = fills e \<or>
     (\<exists>s. res = Inr s \<and> status s = FILLED \<and> fills e' = fills e @ [s]))"
proof (cases "adapter_of v e ord")
  case (Inl x)
  with assms show ?thesis by (auto simp: execute_internal_def)
next
  case (Inr up)
  obtain a e1 where s: "safely v ord e = (a, e1)" by fastforce
  note f = safely_placed [of v ord e, unfolded s snd_conv]
  show ?thesis
  proof (cases a)
    case (Inl x)
    with assms Inr s f show ?thesis by (auto simp: execute_internal_def split: if_splits)
  next
    case a: (Inr r)
    consider "marked r" | "\<not> marked r" "status (attribute ord r) = FILLED"
      | "\<not> marked r" "status (attribute ord r) \<noteq> FILLED" by blast
    then show ?thesis
    proof cases
      case 1
      with assms Inr s a f show ?thesis by (auto simp: execute_internal_def split: if_splits)
    next
      case 2
      with assms Inr s a f show ?thesis by (auto simp: execute_internal_def Let_def split: if_splits)
    next
      case 3
      with assms Inr s a have "monitor_fill v ord (attribute ord r) (fill_timeout ord) e1 = (res, e')"
        by (simp add: execute_internal_def Let_def)
      from monitor_fill_frame [OF this] f show ?thesis by (auto split: if_splits)
    qed
  qed
qed

lemma execute_budgeted_cases:
  assumes "execute_budgeted v ord e = (r, e')"
  obtains (refused) g where "e' = e\<lparr>ee_gate := g\<rparr>" "status r = REJECTED"
  | (run) qt g h res e3 where
      "check_live_verification_allowed (v_now v) ord (ee_gate e) (Some qt) = (g, None)"
      "execute_internal v ord (e\<lparr>ee_gate := h\<rparr>) = (res, e3)" "e' = release_order ord e3"
      "r = (case res of Inr r \<Rightarrow> r | Inl x \<Rightarrow> rejected_result v e3 ord ''execution_error'')"
proof -
  let ?qt = "case map_of (v_pool v) (sym_exchange (osymbol ord), LIVE) of
    None \<Rightarrow> Inl KeyError | Some up \<Rightarrow> v_ticker v (ccxt_symbol (osymbol ord))"
  obtain g why where c: "check_live_verification_allowed (v_now v) ord (ee_gate e) (Some ?qt) = (g, why)"
    by fastforce
  show ?thesis
  proof (cases why)
    case (Some w)
    with assms c show ?thesis
      by (intro refused [of g]) (auto simp: execute_budgeted_def Let_def rejected_result_def)
  next
    case None
    define h where "h = (case g of
        Some g1 \<Rightarrow> if omode ord = LIVE then Some (record_order_submitted (py_get (metadata ord) ''grid_id'' PyNone) g1)
                   else g
      | None \<Rightarrow> None)"
    obtain res e3 where x: "execute_internal v ord (e\<lparr>ee_gate := h\<rparr>) = (res, e3)" by fastforce
    have "execute_budgeted v ord e =
        (case execute_internal v ord (e\<lparr>ee_gate := h\<rparr>) of
           (Inr r, e3) \<Rightarrow> (r, release_order ord e3)
         | (Inl x, e3) \<Rightarrow> (rejected_result v e3 ord ''execution_error'', release_order ord e3))"
      unfolding execute_budgeted_def Let_def c by (simp add: None h_def split: option.split)
    with assms x c None show ?thesis
      by (intro run [of ?qt g h res e3]) (auto split: sum.splits)
  qed
qed

lemma execute_budgeted_contact:
  assumes "execute_budgeted v ord e = (r, e')" and "placed e' \<noteq> placed e"
  shows "\<exists>qt g. check_live_verification_allowed (v_now v) ord (ee_gate e) (Some qt) = (g, None) \<and>
    placed e' = placed e @ [ord] \<and> hands_over ord (ee_exec e) \<and> leverage_cache e' = leverage_cache e"
  using assms(1)
proof (cases rule: execute_budgeted_cases)
  case (run qt g h res e3)
  with execute_internal_contact [OF run(2)] assms(2) show ?thesis by auto
qed (use assms(2) in simp)

lemma ensure_leverage_frame [frame]:
  "ensure_leverage v ord e = Inr (e1, ok) \<Longrightarrow>
     placed e1 = placed e \<and> fills e1 = fills e \<and> ee_exec e1 = ee_exec e \<and> ee_gate e1 = ee_gate e \<and>
     ee_mode e1 = ee_mode e \<and>
     (ok \<longrightarrow> map_of (leverage_cache e1) (symbol_str (osymbol ord)) = Some (v_default_leverage v))"
  by (auto simp: ensure_leverage_def Let_def adapter_of_def bind_result_def
      split: if_splits sum.splits option.splits py_exc.splits)

lemma quantize_order_keeps:
  "quantize_order v ord e = Inr (ord1, why) \<Longrightarrow>
     ord1 = ord\<lparr>quantity := quantity ord1, limit_price := limit_price ord1\<rparr>"
  by (auto simp: quantize_order_def apply_quantization_def bind_result_def
      split: if_splits sum.splits option.splits prod.splits)

lemma execute_contact:
  assumes run: "execute v ord bypass e = Inr (r, e')" and sent: "placed e' \<noteq> placed e"
  shows "omode ord = ee_mode e \<and>
    check_live_trading_allowed ord (v_registry v) (Some (ee_switch e)) (Some (v_pool v)) = None \<and>
    (bypass \<or> \<not> is_active (st (ee_switch e))) \<and> v_preflight v ord = Inr True \<and>
    (\<exists>ord1 qt g. placed e' = placed e @ [ord1] \<and> hands_over ord1 (ee_exec e) \<and>
       ord1 = ord\<lparr>quantity := quantity ord1, limit_price := limit_price ord1\<rparr> \<and>
       check_live_verification_allowed (v_now v) ord1 (ee_gate e) (Some qt) = (g, None) \<and>
       (if reduce_only ord then ord1 = ord
        else map_of (leverage_cache e') (symbol_str (osymbol ord)) = Some (v_default_leverage v) \<and>
             quantize_order v ord e = Inr (ord1, None)))"
proof -
  from run sent have gates: "omode ord = ee_mode e"
    "check_live_trading_allowed ord (v_registry v) (Some (ee_switch e)) (Some (v_pool v)) = None"
    "bypass \<or> \<not> is_active (st (ee_switch e))" "v_preflight v ord = Inr True"
    by (auto simp: execute_def bind_result_Inr split: if_splits)
  show ?thesis
  proof (cases "reduce_only ord")
    case True
    with run gates have "execute_budgeted v ord e = (r, e')" by (auto simp: execute_def)
    from execute_budgeted_contact [OF this sent] gates True show ?thesis by auto
  next
    case False
    with run gates have "execute_opening v ord e = Inr (r, e')" by (auto simp: execute_def)
    then obtain e1 ok where lev: "ensure_leverage v ord e = Inr (e1, ok)"
      and rest: "(if \<not> ok then Inr (rejected_result v e1 ord ''leverage_set_failed'', e1)
        else bind_result (quantize_order v ord e1) (\<lambda>(ord1, why).
          if why \<noteq> None then Inr (rejected_result v e1 ord1 ''min_order_size'', e1)
          else Inr (execute_budgeted v ord1 e1))) = Inr (r, e')"
      by (auto simp: execute_opening_def bind_result_Inr)
    note f = ensure_leverage_frame [OF lev]
    from rest sent f obtain ord1 where q: "quantize_order v ord e1 = Inr (ord1, None)"
      and bud: "execute_budgeted v ord1 e1 = (r, e')"
      by (auto simp: bind_result_Inr split: if_splits)
    have "ok" using rest sent f by (auto split: if_splits)
    moreover have "quantize_order v ord e = quantize_order v ord e1"
      using f by (simp add: quantize_order_def adapter_of_def)
    ultimately show ?thesis
      using execute_budgeted_contact [OF bud] sent f gates False q quantize_order_keeps [OF q] by auto
  qed
qed

lemma quantize_order_shrinks:
  assumes "quantize_order v ord e = Inr (ord1, None)" and "0 \<le> dval (quantity ord)"
  shows "quantity ord1 \<le> quantity ord"
proof -
  have "quantity ord1 \<le> quantity ord" if app: "apply_quantization ord price lims = Inr (ord1, None)" for price lims
  proof -
    obtain q why where a: "quantize_and_validate (quantity ord) price (Some lims) = Inr (q, why)"
      using app by (cases "quantize_and_validate (quantity ord) price (Some lims)") (auto simp: apply_quantization_def)
    with app have q: "quantize_and_validate (quantity ord) price (Some lims) = Inr (q, None)"
      "ord\<lparr>quantity := q\<rparr> = ord1 \<or> (\<exists>lp. ord\<lparr>quantity := q, limit_price := lp\<rparr> = ord1)"
      by (auto simp: apply_quantization_def bind_result_Inr split: if_splits option.splits prod.splits)
    have r: "round_to (quantity ord) (amount_precision lims) ROUND_DOWN = Inr q"
      using q(1) by (auto simp: quantize_and_validate_def bind_result_Inr check_quantity_def split: if_splits)
    show ?thesis using round_to_down [OF r assms(2)] q(2) by auto
  qed
  with assms show ?thesis
    by (auto simp: quantize_order_def bind_result_Inr split: sum.splits option.splits)
qed

text \<open>
  C3. The only way to the exchange: if a call of \<open>execute\<close> hands an order over, it is the order
  it was called with up to quantization, it is handed over once, and every gate had passed it: the mode
  of the engine, the live trading gate, the kill switch (or the explicit bypass), the preflight checks,
  for an opening order the leverage and the size limits of the exchange, the budget of the live run, and
  the guard against duplicates.
\<close>

theorem exchange_contact_is_gated:
  assumes run: "execute v ord bypass e = Inr (r, e')" and sent: "placed e' \<noteq> placed e"
  shows "omode ord = ee_mode e \<and>
    check_live_trading_allowed ord (v_registry v) (Some (ee_switch e)) (Some (v_pool v)) = None \<and>
    (bypass \<or> \<not> is_active (st (ee_switch e))) \<and> v_preflight v ord = Inr True \<and>
    (\<exists>ord1 qt g. placed e' = placed e @ [ord1] \<and> hands_over ord1 (ee_exec e) \<and>
       ord1 = ord\<lparr>quantity := quantity ord1, limit_price := limit_price ord1\<rparr> \<and>
       check_live_verification_allowed (v_now v) ord1 (ee_gate e) (Some qt) = (g, None) \<and>
       (if reduce_only ord then ord1 = ord
        else map_of (leverage_cache e') (symbol_str (osymbol ord)) = Some (v_default_leverage v) \<and>
             quantize_order v ord e = Inr (ord1, None)))"
  by (rule execute_contact [OF run sent])

section \<open>Fill events\<close>

lemma monitor_loop_killed:
  assumes "monitor_loop v ord timeout elapsed cur e = (Killed c, e')" and "status cur \<noteq> FILLED"
  shows "status c \<noteq> FILLED"
  using assms
proof (induction v ord timeout elapsed cur e rule: monitor_loop.induct)
  case (1 v ord timeout elapsed cur e)
  show ?case
  proof (cases "timeout \<le> elapsed")
    case True
    with "1.prems" show ?thesis by simp
  next
    case False
    then have lt: "elapsed < timeout" by simp
    consider answer where "v_poll v (nat (elapsed div 2)) = (True, answer)"
      | x where "v_poll v (nat (elapsed div 2)) = (False, Inl x)"
      | r where "v_poll v (nat (elapsed div 2)) = (False, Inr r)"
      by (metis (full_types) surj_pair sum.exhaust)
    then show ?thesis
    proof cases
      case 1
      with "1.prems" show ?thesis by (auto simp: monitor_loop_step(1) [OF lt])
    next
      case (2 x)
      with "1.IH"(1) [OF False 2 [symmetric] _ refl] "1.prems" show ?thesis
        by (auto simp: monitor_loop_step(2) [OF lt] split: if_splits)
    next
      case (3 r)
      with "1.IH"(2) [OF False 3 [symmetric] _ refl refl refl] "1.prems" show ?thesis
        by (auto simp: monitor_loop_step(3) [OF lt _ refl] ended_def split: if_splits)
    qed
  qed
qed

lemma monitor_fill_fills:
  assumes "monitor_fill v ord r timeout e = (Inr s, e')" and "status r \<noteq> FILLED"
  shows "fills e' = (if v_bus_ok v \<and> status s = FILLED then fills e @ [s] else fills e)"
proof -
  obtain m e1 where l: "monitor_loop v ord timeout 0 r e = (m, e1)" by fastforce
  show ?thesis
    using assms monitor_loop_frame [OF l] monitor_loop_killed [of v ord timeout 0 r e s e1] l
    by (auto simp: monitor_fill_def Let_def split: monitored.splits if_splits)
qed

lemma attribute_status [simp]: "status (attribute ord r) = status r" "request_id (attribute ord r) = request_id r"
  by (simp_all add: attribute_def)

lemma attribution_ok: "dict_ok (attribution ord)" "map_of (attribution ord) ''duplicate'' = None"
  "map_of (attribution ord) ''unknown'' = None"
  by (auto simp: attribution_def attribution_keys_def dict_ok_def split: option.split)

lemma attribute_marked [simp]: "marked (attribute ord r) = marked r"
  by (simp add: marked_def py_get_def attribute_def map_of_merge_dict attribution_ok)

text \<open>
  An unmarked result of \<open>execute_safely\<close> is an answer of the exchange to this very call; a blocked duplicate and
  a call whose outcome is unknown are marked.
\<close>

lemma execute_safely_marked:
  assumes "execute_safely submit now ord x = (Some r, x1)"
  shows "\<not> marked r \<longleftrightarrow> hands_over ord x \<and> (\<exists>a. submit ord = Inr a \<and> \<not> marked a)"
proof (cases "map_of (in_flight x) (oid ord)")
  case (Some c)
  with assms show ?thesis
    by (auto simp: execute_safely_def eval_nat_numeral hands_over_def marked_def make_duplicate_result_def py_get_def)
next
  case new: None
  have unknown: "marked (make_unknown_result ord now)"
    by (simp add: marked_def make_unknown_result_def py_get_def)
  have row: "marked (result_from_db_row w ord)" for w
    by (simp add: marked_def result_from_db_row_def py_get_def map_of_merge_dict dict_ok_def)
  show ?thesis
  proof (cases "orders_db x")
    case None
    with new assms unknown show ?thesis
      by (cases "submit ord")
        (auto simp: execute_safely_def eval_nat_numeral hands_over_def lookup_persisted_def answered_def Let_def)
  next
    case (Some t)
    with new assms unknown row show ?thesis
      by (cases "lookup_persisted (oid ord) x"; cases "submit ord")
        (auto simp: execute_safely_def eval_nat_numeral hands_over_def answered_def Let_def split: if_splits)
  qed
qed

lemma safely_marked:
  assumes "safely v ord e = (Inr r, e1)"
  shows "\<not> marked r \<longleftrightarrow> placed e1 \<noteq> placed e \<and> (\<exists>a. v_place v ord = Inr a \<and> \<not> marked a)"
proof -
  from assms obtain x1 where "execute_safely (v_place v) (v_now v) ord (ee_exec e) = (Some r, x1)"
    by (auto simp: safely_def split: prod.splits option.splits)
  from execute_safely_marked [OF this] safely_placed(1) [of v ord e] assms show ?thesis by simp
qed

lemma execute_internal_publishes:
  assumes "execute_internal v ord e = (Inr s, e')"
  shows "fills e' = (if v_bus_ok v \<and> status s = FILLED \<and> placed e' \<noteq> placed e \<and> (\<exists>a. v_place v ord = Inr a \<and> \<not> marked a)
      then fills e @ [s] else fills e)"
    and "status s = FILLED \<Longrightarrow> \<not> marked s \<Longrightarrow> placed e' \<noteq> placed e \<and> (\<exists>a. v_place v ord = Inr a \<and> \<not> marked a)"
proof -
  from assms obtain up r e1 where a: "adapter_of v e ord = Inr up" and s: "safely v ord e = (Inr r, e1)"
    by (auto simp: execute_internal_def split: sum.splits prod.splits)
  note f = safely_placed(2) [of v ord e, unfolded s snd_conv] and m = safely_marked [OF s]
  have "fills e' = (if v_bus_ok v \<and> status s = FILLED \<and> \<not> marked r then fills e @ [s] else fills e) \<and>
      placed e' = placed e1 \<and> (marked r \<longrightarrow> s = r)"
  proof (cases "\<not> marked r \<and> status r \<noteq> FILLED")
    case True
    with assms a s have mf: "monitor_fill v ord (attribute ord r) (fill_timeout ord) e1 = (Inr s, e')"
      by (simp add: execute_internal_def Let_def)
    from monitor_fill_fills [OF mf] monitor_fill_frame [OF mf] True f show ?thesis by simp
  next
    case False
    with assms a s f show ?thesis by (auto simp: execute_internal_def Let_def split: if_splits)
  qed
  with m show "fills e' = (if v_bus_ok v \<and> status s = FILLED \<and> placed e' \<noteq> placed e \<and> (\<exists>a. v_place v ord = Inr a \<and> \<not> marked a)
      then fills e @ [s] else fills e)"
    and "status s = FILLED \<Longrightarrow> \<not> marked s \<Longrightarrow> placed e' \<noteq> placed e \<and> (\<exists>a. v_place v ord = Inr a \<and> \<not> marked a)"
    by auto
qed

lemma execute_budgeted_fills:
  assumes "execute_budgeted v ord e = (r, e')"
  shows "fills e' = (if v_bus_ok v \<and> status r = FILLED \<and> placed e' \<noteq> placed e \<and> (\<exists>a. v_place v ord = Inr a \<and> \<not> marked a)
      then fills e @ [r] else fills e)"
    and "status r = FILLED \<Longrightarrow> \<not> marked r \<Longrightarrow> placed e' \<noteq> placed e \<and> (\<exists>a. v_place v ord = Inr a \<and> \<not> marked a)"
proof -
  have "fills e' = (if v_bus_ok v \<and> status r = FILLED \<and> placed e' \<noteq> placed e \<and> (\<exists>a. v_place v ord = Inr a \<and> \<not> marked a)
      then fills e @ [r] else fills e) \<and>
    (status r = FILLED \<and> \<not> marked r \<longrightarrow> placed e' \<noteq> placed e \<and> (\<exists>a. v_place v ord = Inr a \<and> \<not> marked a))"
    using assms
  proof (cases rule: execute_budgeted_cases)
    case (run qt g h res e3)
    show ?thesis
    proof (cases res)
      case (Inl x)
      with run execute_internal_contact [OF run(2)] show ?thesis by (auto simp: rejected_result_def)
    next
      case (Inr s)
      with run execute_internal_publishes [of v ord "e\<lparr>ee_gate := h\<rparr>" s e3] show ?thesis by simp
    qed
  qed simp
  then show "fills e' = (if v_bus_ok v \<and> status r = FILLED \<and> placed e' \<noteq> placed e \<and> (\<exists>a. v_place v ord = Inr a \<and> \<not> marked a)
      then fills e @ [r] else fills e)"
    and "status r = FILLED \<Longrightarrow> \<not> marked r \<Longrightarrow> placed e' \<noteq> placed e \<and> (\<exists>a. v_place v ord = Inr a \<and> \<not> marked a)"
    by simp_all
qed

lemma execute_cases:
  assumes "execute v ord bypass e = Inr (r, e')"
  obtains (refused) "status r = REJECTED" "fills e' = fills e" "placed e' = placed e" "ee_exec e' = ee_exec e"
  | (budgeted) ord1 e1 where "execute_budgeted v ord1 e1 = (r, e')" "fills e1 = fills e"
      "placed e1 = placed e" "ee_exec e1 = ee_exec e" "oid ord1 = oid ord"
proof (cases "omode ord \<noteq> ee_mode e \<or> reduce_only ord")
  case True
  with assms have "execute_budgeted v ord e = (r, e') \<or> status r = REJECTED \<and> e' = e"
    by (auto simp: execute_def bind_result_Inr rejected_result_def split: if_splits)
  with refused budgeted [of ord e] show ?thesis by blast
next
  case False
  show ?thesis
  proof (cases "execute_opening v ord e = Inr (r, e')")
    case True
    then obtain e1 ok where lev: "ensure_leverage v ord e = Inr (e1, ok)"
      and rest: "(if \<not> ok then Inr (rejected_result v e1 ord ''leverage_set_failed'', e1)
        else bind_result (quantize_order v ord e1) (\<lambda>(ord1, why).
          if why \<noteq> None then Inr (rejected_result v e1 ord1 ''min_order_size'', e1)
          else Inr (execute_budgeted v ord1 e1))) = Inr (r, e')"
      by (auto simp: execute_opening_def bind_result_Inr)
    note f = ensure_leverage_frame [OF lev]
    have id1: "oid ord1 = oid ord" if "quantize_order v ord e1 = Inr (ord1, None)" for ord1
    proof -
      have "oid (ord\<lparr>quantity := x, limit_price := y\<rparr>) = oid ord" for x y by simp
      with quantize_order_keeps [OF that] show ?thesis by metis
    qed
    show ?thesis
    proof (cases "\<exists>ord1. quantize_order v ord e1 = Inr (ord1, None) \<and> execute_budgeted v ord1 e1 = (r, e')")
      case True
      then obtain ord1 where q: "quantize_order v ord e1 = Inr (ord1, None)"
        and b: "execute_budgeted v ord1 e1 = (r, e')" by blast
      from id1 [OF q] b f show ?thesis by (intro budgeted [of ord1 e1]) auto
    next
      case False
      with rest f show ?thesis
        by (intro refused) (auto simp: bind_result_Inr rejected_result_def split: if_splits)
    qed
  next
    case other: False
    with assms False have "status r = REJECTED \<and> e' = e"
      by (auto simp: execute_def bind_result_Inr rejected_result_def split: if_splits)
    with refused show ?thesis by blast
  qed
qed

text \<open>
  C27. The fill event, exactly: a call publishes the result it returns, once, when the event bus works, the result is
  filled, the call itself handed an order over, and the exchange answered it with a result that is not marked as
  duplicate or unknown; otherwise it publishes nothing. So a duplicate, which is not handed over, and an order of
  unknown outcome have no event, even when the result is filled; and every filled result without a mark has one.
\<close>

theorem fill_event_iff_filled:
  assumes "execute v ord bypass e = Inr (r, e')"
  shows "fills e' = (if v_bus_ok v \<and> status r = FILLED \<and>
        (\<exists>ord1 a. placed e' = placed e @ [ord1] \<and> v_place v ord1 = Inr a \<and> \<not> marked a)
      then fills e @ [r] else fills e) \<and>
    (v_bus_ok v \<and> status r = FILLED \<and> \<not> marked r \<longrightarrow> fills e' = fills e @ [r])"
  using assms
proof (cases rule: execute_cases)
  case (budgeted ord1 e1)
  note b = execute_budgeted_fills [OF budgeted(1)]
  let ?P = "\<exists>a. v_place v ord1 = Inr a \<and> \<not> marked a"
  have "placed e' \<noteq> placed e \<Longrightarrow> placed e' = placed e @ [ord1]"
    using execute_budgeted_contact [OF budgeted(1)] budgeted(3) by simp
  then have eq: "(\<exists>o1 a. placed e' = placed e @ [o1] \<and> v_place v o1 = Inr a \<and> \<not> marked a) \<longleftrightarrow> placed e' \<noteq> placed e \<and> ?P"
    by (cases "placed e' = placed e") simp_all
  from b(1) have "fills e' = (if v_bus_ok v \<and> status r = FILLED \<and> placed e' \<noteq> placed e \<and> ?P then fills e @ [r] else fills e)"
    unfolding budgeted(2,3) .
  moreover have "status r = FILLED \<Longrightarrow> \<not> marked r \<Longrightarrow> placed e' \<noteq> placed e \<and> ?P"
    using b(2) unfolding budgeted(3) .
  ultimately show ?thesis unfolding eq by simp
qed simp

section \<open>Row of the order\<close>

definition row_status :: "executor \<Rightarrow> nat \<Rightarrow> order_status option" where
  "row_status x i =
     (case orders_db x of None \<Rightarrow> None | Some t \<Rightarrow> map_option ow_status (get_order_by_id t i))"

lemma row_after_status [simp]: "ow_status (row_after r w) = status r"
  by (simp add: row_after_def)

lemma row_status_final [simp]:
  "row_status (persist_final i r x) i =
     (if odb_up x \<and> row_status x i \<noteq> None then Some (status r) else row_status x i)"
  by (auto simp: row_status_def persist_final_def orders.get_upd option.map_comp comp_def split: option.split)

lemma row_status_final_other:
  "j \<noteq> i \<Longrightarrow> row_status (persist_final j r x) i = row_status x i"
  by (auto simp: row_status_def persist_final_def orders.get_upd split: option.split)

lemma row_status_frame [simp]:
  "row_status (x\<lparr>in_flight := f\<rparr>) i = row_status x i" "row_status (release j x) i = row_status x i"
  "row_status (update_inflight j r x) i = row_status x i" "odb_up (update_inflight j r x) = odb_up x"
  "row_status (place ord now x) i = row_status x i"
  by (simp_all add: row_status_def release_def update_inflight_def place_def)

definition has_row :: "exec_engine \<Rightarrow> nat \<Rightarrow> bool" where
  "has_row e i \<longleftrightarrow> odb_up (ee_exec e) \<and> row_status (ee_exec e) i \<noteq> None"

lemma has_row_frame [simp]:
  "has_row (track ord r e) i = has_row e i" "has_row (cancel_order v ord r e) i = has_row e i"
  "has_row (e\<lparr>fills := f\<rparr>) i = has_row e i" "has_row (release_order ord e) i = has_row e i"
  by (simp_all add: has_row_def track_def release_order_def)

lemma row_persisted [simp]:
  "has_row e i \<Longrightarrow> row_status (ee_exec (persist_order_status v i r e)) i = Some (status r)"
  "has_row e i \<Longrightarrow> has_row (persist_order_status v i r e) i"
  "row_status (ee_exec (track ord r e)) i = row_status (ee_exec e) i"
  "row_status (ee_exec (release_order ord e)) i = row_status (ee_exec e) i"
  by (simp_all add: has_row_def persist_order_status_def track_def release_order_def)

lemma row_on_fill [simp]:
  "has_row e (request_id r) \<Longrightarrow> row_status (ee_exec (on_fill v r e)) (request_id r) = Some (status r)"
  by (simp add: on_fill_def)

text \<open>
  After the loop the row shows a result that ended without a fill, and the one the kill switch cut off. Only what is
  filled is left to the fill event, which writes the row under the identity the answer carries.
\<close>

definition row_after_loop :: "venue \<Rightarrow> nat \<Rightarrow> monitored \<Rightarrow> exec_engine \<Rightarrow> bool" where
  "row_after_loop v i m e \<longleftrightarrow> has_row e i \<and>
     (case m of
        Killed c \<Rightarrow> row_status (ee_exec e) i = Some (status c)
      | Left c \<Rightarrow> ended (status c) \<and> status c \<noteq> FILLED \<longrightarrow> row_status (ee_exec e) i = Some (status c)
      | PollRaised x \<Rightarrow> \<not> is_exchange_error x \<and> (\<exists>n. snd (v_poll v n) = Inl x))"

lemma monitor_loop_row:
  assumes "monitor_loop v ord timeout elapsed cur e = (m, e')"
    and "has_row e (oid ord)"
    and "ended (status cur) \<Longrightarrow> row_status (ee_exec e) (oid ord) = Some (status cur)"
  shows "row_after_loop v (oid ord) m e'"
  using assms
proof (induction v ord timeout elapsed cur e rule: monitor_loop.induct)
  case (1 v ord timeout elapsed cur e)
  show ?case
  proof (cases "timeout \<le> elapsed")
    case True
    with "1.prems" show ?thesis by (auto simp: row_after_loop_def)
  next
    case False
    then have lt: "elapsed < timeout" by simp
    consider answer where "v_poll v (nat (elapsed div 2)) = (True, answer)"
      | x where "v_poll v (nat (elapsed div 2)) = (False, Inl x)"
      | r where "v_poll v (nat (elapsed div 2)) = (False, Inr r)"
      by (metis (full_types) surj_pair sum.exhaust)
    then show ?thesis
    proof cases
      case 1
      with "1.prems" show ?thesis by (auto simp: monitor_loop_step(1) [OF lt] row_after_loop_def)
    next
      case (2 x)
      show ?thesis
      proof (cases "is_exchange_error x")
        case True
        with "1.IH"(1) [OF False 2 [symmetric] _ refl] "1.prems" 2 show ?thesis
          by (simp add: monitor_loop_step(2) [OF lt])
      next
        case other: False
        have "\<exists>n. snd (v_poll v n) = Inl x" using 2 by (metis snd_conv)
        with other "1.prems" 2 show ?thesis
          by (auto simp: monitor_loop_step(2) [OF lt] row_after_loop_def)
      qed
    next
      case (3 r)
      show ?thesis
      proof (cases "ended (status r)")
        case True
        with "1.prems" 3 show ?thesis
          by (auto simp: monitor_loop_step(3) [OF lt _ refl] row_after_loop_def split: if_splits)
      next
        case nope: False
        with "1.IH"(2) [OF False 3 [symmetric] _ refl refl refl] "1.prems" 3 show ?thesis
          by (simp add: monitor_loop_step(3) [OF lt _ refl])
      qed
    qed
  qed
qed

text \<open>How the row of the order \<open>i\<close> stands to the outcome of the call.\<close>

definition row_follows :: "venue \<Rightarrow> nat \<Rightarrow> order_result result \<Rightarrow> exec_engine \<Rightarrow> bool" where
  "row_follows v i res e \<longleftrightarrow>
     (case res of
        Inr s \<Rightarrow> row_status (ee_exec e) i = Some (status s) \<or> (status s = FILLED \<and> request_id s \<noteq> i)
      | Inl x \<Rightarrow> \<not> is_exchange_error x \<and> (\<exists>n. snd (v_poll v n) = Inl x))"

lemma monitor_fill_row:
  assumes "monitor_fill v ord r timeout e = (res, e')"
    and "has_row e (oid ord)" and "row_status (ee_exec e) (oid ord) = Some (status r)"
  shows "row_follows v (oid ord) res e'"
proof -
  obtain m e1 where l: "monitor_loop v ord timeout 0 r e = (m, e1)" by fastforce
  from monitor_loop_row [OF l assms(2)] assms(3) have a: "row_after_loop v (oid ord) m e1" by simp
  show ?thesis
  proof (cases m)
    case (Killed c)
    with a l assms(1) show ?thesis by (auto simp: monitor_fill_def row_after_loop_def row_follows_def)
  next
    case (Left c)
    show ?thesis
    proof (cases "status c = FILLED \<and> request_id c = oid ord")
      case True
      with Left a l assms(1) row_on_fill [of e1 c v] show ?thesis
        by (auto simp: monitor_fill_def row_after_loop_def row_follows_def Let_def ended_def)
    next
      case False
      with Left a l assms(1) show ?thesis
        by (auto simp: monitor_fill_def row_after_loop_def row_follows_def Let_def split: if_splits)
    qed
  next
    case (PollRaised x)
    with a l assms(1) show ?thesis by (auto simp: monitor_fill_def row_after_loop_def row_follows_def)
  qed
qed

lemma execute_safely_row:
  assumes "hands_over ord x" and "odb_up x" and "orders_db x \<noteq> None"
  shows "\<exists>r x1. execute_safely submit now ord x = (Some r, x1) \<and> odb_up x1 \<and>
    row_status x1 (oid ord) = Some (status r) \<and> (submit ord = Inr r \<or> marked r)"
proof -
  have new: "map_of (in_flight x) (oid ord) = None" "lookup_persisted (oid ord) x = None"
    using assms(1) by (auto simp: hands_over_def)
  obtain t where t: "orders_db x = Some t" using assms(3) by blast
  let ?p = "persist_pending ord now (place ord now x)"
  have "row_status ?p (oid ord) \<noteq> None"
    using orders.try_create_known [of now ord t] assms(2) t
    by (simp add: persist_pending_def row_status_def)
  moreover have "row_status (y\<lparr>in_flight := f\<rparr>) (oid ord) = row_status y (oid ord)" for y f by simp
  ultimately show ?thesis
    using new t assms(2)
    by (cases "submit ord")
      (simp_all add: execute_safely_def eval_nat_numeral answered_def Let_def marked_def py_get_def
        make_unknown_result_def)
qed

lemma row_frame_internal:
  assumes "execute_internal v ord e = (res, e')" and "placed e' \<noteq> placed e"
    and "odb_up (ee_exec e)" "orders_db (ee_exec e) \<noteq> None"
  shows "row_follows v (oid ord) res e'"
proof -
  from assms(1,2) have h: "hands_over ord (ee_exec e)" using execute_internal_contact by blast
  from execute_safely_row [OF h assms(3,4)] obtain r x1 where
    s: "execute_safely (v_place v) (v_now v) ord (ee_exec e) = (Some r, x1)"
    and x1: "odb_up x1" "row_status x1 (oid ord) = Some (status r)" by blast
  from assms(1,2) obtain up where a: "adapter_of v e ord = Inr up"
    by (auto simp: execute_internal_def split: sum.splits)
  define e1 where "e1 = e\<lparr>ee_exec := x1, placed := placed e @ [ord]\<rparr>"
  have sf: "safely v ord e = (Inr r, e1)" by (simp add: safely_def s h e1_def)
  have e1: "has_row e1 (oid ord)" "row_status (ee_exec e1) (oid ord) = Some (status r)"
    using x1 by (simp_all add: e1_def has_row_def)
  consider "marked r" | "\<not> marked r" "status r = FILLED" | "\<not> marked r" "status r \<noteq> FILLED" by blast
  then show ?thesis
  proof cases
    case 1
    with assms(1) a sf e1 show ?thesis by (auto simp: execute_internal_def row_follows_def)
  next
    case 2
    with assms(1) a sf have "res = Inr (attribute ord r)" "e' = on_fill v (attribute ord r) e1"
      by (simp_all add: execute_internal_def Let_def)
    with 2 e1 row_on_fill [of e1 "attribute ord r" v] show ?thesis
      by (cases "request_id r = oid ord") (simp_all add: row_follows_def)
  next
    case 3
    with assms(1) a sf have "monitor_fill v ord (attribute ord r) (fill_timeout ord) e1 = (res, e')"
      by (simp add: execute_internal_def Let_def)
    from monitor_fill_row [OF this e1(1)] e1(2) show ?thesis by simp
  qed
qed

text \<open>
  C31. When the stored order follows the result. With a working database, the row of an order that was handed over shows
  the status the call returns, with two exceptions and no third: the result is filled and carries another identity than
  the order (then the row that is updated is the one of this identity), or the call returns its rejection because a poll
  raised something that is not an error of the exchange.
\<close>

theorem row_agrees_with_result:
  assumes "execute v ord bypass e = Inr (r, e')" and "placed e' \<noteq> placed e"
    and "odb_up (ee_exec e)" and "orders_db (ee_exec e) \<noteq> None"
  shows "row_status (ee_exec e') (oid ord) = Some (status r) \<or>
    (status r = FILLED \<and> request_id r \<noteq> oid ord) \<or>
    (status r = REJECTED \<and> (\<exists>n x. snd (v_poll v n) = Inl x \<and> \<not> is_exchange_error x))"
  using assms(1)
proof (cases rule: execute_cases)
  case (budgeted ord1 e1)
  show ?thesis
    using budgeted(1)
  proof (cases rule: execute_budgeted_cases)
    case (run qt g h res e3)
    have sent: "placed e3 \<noteq> placed (e1\<lparr>ee_gate := h\<rparr>)" using run(3) budgeted(3) assms(2) by simp
    have db: "odb_up (ee_exec (e1\<lparr>ee_gate := h\<rparr>))" "orders_db (ee_exec (e1\<lparr>ee_gate := h\<rparr>)) \<noteq> None"
      using budgeted(4) assms(3,4) by simp_all
    from row_frame_internal [OF run(2) sent db] budgeted(5) have f: "row_follows v (oid ord) res e3" by simp
    show ?thesis
    proof (cases res)
      case (Inl x)
      with f run(4) show ?thesis by (auto simp: row_follows_def rejected_result_def)
    next
      case (Inr s)
      with f run(3,4) show ?thesis by (auto simp: row_follows_def)
    qed
  qed (use assms(2) budgeted in simp)
qed (use assms(2) in simp)

section \<open>Monitoring\<close>

lemma poll_frame [simp]:
  "adapter_of (v\<lparr>v_poll := p\<rparr>) e ord = adapter_of v e ord"
  "persist_order_status (v\<lparr>v_poll := p\<rparr>) i r e = persist_order_status v i r e"
  "cancel_order (v\<lparr>v_poll := p\<rparr>) ord r e = cancel_order v ord r e"
  "on_fill (v\<lparr>v_poll := p\<rparr>) r e = on_fill v r e"
  by (simp_all add: adapter_of_def persist_order_status_def cancel_order_def on_fill_def fun_eq_iff)

lemma monitor_loop_poll_bound:
  assumes "\<And>n. int n < (timeout + 1) div 2 \<Longrightarrow> p n = v_poll v n" and "0 \<le> elapsed" and "even elapsed"
  shows "monitor_loop (v\<lparr>v_poll := p\<rparr>) ord timeout elapsed cur e = monitor_loop v ord timeout elapsed cur e"
  using assms
proof (induction v ord timeout elapsed cur e rule: monitor_loop.induct)
  case (1 v ord timeout elapsed cur e)
  show ?case
  proof (cases "timeout \<le> elapsed")
    case True
    then show ?thesis by simp
  next
    case False
    then have lt: "elapsed < timeout" by simp
    from "1.prems"(1) [of "nat (elapsed div 2)"] "1.prems"(2,3) False
    have p: "p (nat (elapsed div 2)) = v_poll v (nat (elapsed div 2))" by (auto elim!: evenE)
    note step = monitor_loop_step [OF lt, of "v\<lparr>v_poll := p\<rparr>", simplified p order_refl venue.simps]
    consider answer where "v_poll v (nat (elapsed div 2)) = (True, answer)"
      | x where "v_poll v (nat (elapsed div 2)) = (False, Inl x)"
      | r where "v_poll v (nat (elapsed div 2)) = (False, Inr r)"
      by (metis (full_types) surj_pair sum.exhaust)
    then show ?thesis
    proof cases
      case (1 answer)
      with p show ?thesis by (simp add: monitor_loop_step(1) [OF lt])
    next
      case (2 x)
      with "1.IH"(1) [OF False 2 [symmetric] _ refl] "1.prems" p show ?thesis
        by (simp add: monitor_loop_step(2) [OF lt])
    next
      case (3 r)
      with "1.IH"(2) [OF False 3 [symmetric] _ refl refl refl] "1.prems" p show ?thesis
        by (simp add: monitor_loop_step(3) [OF lt _ refl])
    qed
  qed
qed

text \<open>
  C32. The monitoring of an order ends after at most thirty polls: what the exchange would answer after
  that has no influence, for a market order not even what it answers after the third poll.
\<close>

theorem monitoring_polls_bounded:
  "monitor_fill (v\<lparr>v_poll := (\<lambda>n. if n < (if otype ord = MARKET then 3 else 30) then v_poll v n else late)\<rparr>)
     ord r (fill_timeout ord) e = monitor_fill v ord r (fill_timeout ord) e"
proof -
  let ?p = "\<lambda>n. if n < (if otype ord = MARKET then 3 else 30) then v_poll v n else late"
  have "monitor_loop (v\<lparr>v_poll := ?p\<rparr>) ord (fill_timeout ord) 0 r e = monitor_loop v ord (fill_timeout ord) 0 r e"
    by (rule monitor_loop_poll_bound) (auto simp: fill_timeout_def split: if_splits)
  then show ?thesis by (simp add: monitor_fill_def Let_def split: prod.split monitored.split)
qed

lemma monitor_loop_partial:
  assumes "\<And>n. v_poll v n = (False, Inr q)" and "\<not> ended (status q)" and "\<not> ended (status cur)"
    and "elapsed < timeout"
  shows "\<exists>e'. monitor_loop v ord timeout elapsed cur e = (Left (attribute ord q), e') \<and>
    cancels e' = cancels e \<and> ee_mode e' = ee_mode e"
  using assms
proof (induction v ord timeout elapsed cur e rule: monitor_loop.induct)
  case (1 v ord timeout elapsed cur e)
  from "1.prems"(4) have nt: "\<not> timeout \<le> elapsed" by simp
  note p = "1.prems"(1) [of "nat (elapsed div 2)"]
  show ?case
  proof (cases "elapsed + 2 < timeout")
    case True
    with "1.IH"(2) [OF nt p [symmetric] _ refl refl refl] "1.prems" show ?thesis
      by (simp add: monitor_loop_step(3) [OF "1.prems"(4) p refl] track_def)
  next
    case False
    with "1.prems" show ?thesis
      by (simp add: monitor_loop_step(3) [OF "1.prems"(4) p refl] track_def)
  qed
qed

text \<open>
  What an order that stays partially filled leaves behind: it is cancelled at the timeout, and the
  caller gets the partial result with the quantity that was filled, to book it. There is no fill event
  for it: the event only stands for orders that were filled completely.
\<close>

theorem partial_fill_cancelled_and_returned:
  assumes "\<And>n. v_poll v n = (False, Inr q)" and "status q = PARTIALLY_FILLED"
    and "status r \<noteq> FILLED" and "\<not> ended (status r)" and "adapter_of v e ord = Inr up"
  shows "\<exists>s e'. monitor_fill v ord r (fill_timeout ord) e = (Inr s, e') \<and> filled_quantity s = filled_quantity q \<and>
    status s = PARTIALLY_FILLED \<and> fills e' = fills e \<and> cancels e' = cancels e @ [exchange_order_id q]"
proof -
  have q: "\<not> ended (status q)" using assms(2) by (simp add: ended_def)
  have t: "0 < fill_timeout ord" by (simp add: fill_timeout_def)
  from monitor_loop_partial [OF assms(1) q assms(4) t, of ord e] obtain e1 where
    l: "monitor_loop v ord (fill_timeout ord) 0 r e = (Left (attribute ord q), e1)"
    and c: "cancels e1 = cancels e" "ee_mode e1 = ee_mode e" by blast
  from assms(5) c have a: "adapter_of v e1 ord = Inr up" by (simp add: adapter_of_def)
  have "fills e1 = fills e" using monitor_loop_frame [OF l] by simp
  with l c q a assms(2) show ?thesis
    by (simp add: monitor_fill_def cancel_order_def persist_order_status_def attribute_def)
qed

section \<open>Examples\<close>

definition demo_engine :: exec_engine where
  "demo_engine = \<lparr>ee_mode = PAPER, ee_switch = new_kill_switch PAPER (Some ''t1''), ee_gate = None,
     ee_exec = demo_executor, leverage_cache = [], placed = [], cancels = [], fills = []\<rparr>"

text \<open>An exchange that takes every order and reports the fill at the first poll.\<close>

definition demo_answer :: "nat \<Rightarrow> order_status \<Rightarrow> order_result" where
  "demo_answer i s = (blank_result (demo_order PAPER) 3)\<lparr>request_id := i, status := s,
     filled_quantity := Dec 2, exchange_order_id := ''X1''\<rparr>"

definition demo_venue :: "nat \<Rightarrow> venue" where
  "demo_venue i = \<lparr>v_now = 3, v_pool = [((BINANCE, PAPER), True)], v_registry = None,
     v_preflight = (\<lambda>ord. Inr True), v_default_leverage = Dec 1, v_set_leverage = (\<lambda>s l. Inr ()),
     v_limits = (\<lambda>s. Inr None), v_ticker = (\<lambda>s. Inr (Dec 20, Dec 21)),
     v_place = (\<lambda>ord. Inr (demo_answer 1 SUBMITTED)), v_poll = (\<lambda>n. (False, Inr (demo_answer i FILLED))),
     v_bus_ok = True\<rparr>"

lemmas demo_defs = demo_venue_def demo_engine_def demo_order_def demo_answer_def blank_result_def

lemma demo_gates:
  "execute (demo_venue i) (demo_order PAPER) False demo_engine =
     Inr (execute_budgeted (demo_venue i) (demo_order PAPER)
       (demo_engine\<lparr>leverage_cache := [(''BTC/USDT:binance'', Dec 1)]\<rparr>))"
  by (simp add: demo_defs execute_def check_live_trading_allowed_def new_kill_switch_def
     execute_opening_def ensure_leverage_def adapter_of_def Let_def quantize_order_def ks_init_def symbol_str_def)

lemma demo_runs:
  "\<exists>r e'. execute (demo_venue i) (demo_order PAPER) False demo_engine = Inr (r, e') \<and>
     status r = FILLED \<and> placed e' = [demo_order PAPER] \<and> fills e' = [r] \<and> \<not> marked r \<and> request_id r = i \<and>
     row_status (ee_exec e') 1 = Some (if i = 1 then FILLED else SUBMITTED)"
proof -
  let ?v = "demo_venue i" and ?o = "demo_order PAPER"
  let ?e = "demo_engine\<lparr>leverage_cache := [(''BTC/USDT:binance'', Dec 1)]\<rparr>"
  let ?a = "attribute ?o (demo_answer 1 SUBMITTED)" and ?b = "attribute ?o (demo_answer i FILLED)"
  have h: "hands_over ?o (ee_exec ?e)"
    by (simp add: hands_over_def demo_engine_def demo_executor_def lookup_persisted_def get_order_by_id_def)
  have db: "odb_up (ee_exec ?e)" "orders_db (ee_exec ?e) \<noteq> None" and id: "oid ?o = 1"
    by (simp_all add: demo_engine_def demo_executor_def demo_order_def)
  have um: "\<not> marked (demo_answer j s)" for j s by (simp add: demo_defs marked_def py_get_def)
  from execute_safely_row [OF h db, of "v_place ?v" "v_now ?v"] obtain r x1 where
    x: "execute_safely (v_place ?v) (v_now ?v) ?o (ee_exec ?e) = (Some r, x1)" "odb_up x1"
      "row_status x1 1 = Some (status r)" and r: "v_place ?v ?o = Inr r \<or> marked r"
    unfolding id by blast
  define e1 where "e1 = ?e\<lparr>ee_exec := x1, placed := [?o]\<rparr>"
  have "\<exists>x1. execute_safely (v_place ?v) (v_now ?v) ?o (ee_exec ?e) = (Some (demo_answer 1 SUBMITTED), x1)"
    by (simp add: demo_defs demo_executor_def execute_safely_def eval_nat_numeral lookup_persisted_def
        get_order_by_id_def answered_def)
  with x have r1: "r = demo_answer 1 SUBMITTED" by simp
  have s: "safely ?v ?o ?e = (Inr r, e1)"
    using h x by (simp add: safely_def e1_def demo_engine_def)
  have up: "adapter_of ?v e ?o = Inr True" if "ee_mode e = PAPER" for e
    using that by (simp add: adapter_of_def demo_defs)
  define e2 where "e2 = on_fill ?v ?b (track ?o ?b e1)"
  have poll: "v_poll ?v n = (False, Inr (demo_answer i FILLED))" for n by (simp add: demo_venue_def)
  have t: "(0::int) < fill_timeout ?o" by (simp add: fill_timeout_def)
  have "monitor_fill ?v ?o ?a (fill_timeout ?o) e1 = (Inr ?b, e2)"
    using poll by (simp add: monitor_fill_def monitor_loop_step(3) [OF t poll refl] e2_def ended_def
        demo_answer_def Let_def)
  with s r1 um up [of ?e] have x2: "execute_internal ?v ?o ?e = (Inr ?b, e2)"
    by (simp add: execute_internal_def demo_answer_def demo_engine_def)
  have paper: "check_live_verification_allowed (v_now ?v) ?o (ee_gate ?e) qt = (None, None)" for qt
    by (simp add: check_live_verification_allowed_def demo_order_def demo_engine_def)
  have "?e\<lparr>ee_gate := None\<rparr> = ?e" by (simp add: demo_engine_def)
  with x2 paper have fin: "execute ?v ?o False demo_engine = Inr (?b, release_order ?o e2)"
    by (simp add: demo_gates execute_budgeted_def)
  have row1: "has_row (track ?o ?b e1) 1" "row_status (ee_exec (track ?o ?b e1)) 1 = Some SUBMITTED"
  proof -
    have "has_row e1 1" "row_status (ee_exec e1) 1 = Some SUBMITTED"
      using x r1 by (simp_all add: has_row_def e1_def demo_answer_def)
    then show "has_row (track ?o ?b e1) 1" "row_status (ee_exec (track ?o ?b e1)) 1 = Some SUBMITTED"
      by simp_all
  qed
  have "row_status (ee_exec e2) 1 = Some (if i = 1 then FILLED else SUBMITTED)"
  proof (cases "i = 1")
    case True
    with row1 row_on_fill [of "track ?o ?b e1" ?b ?v] show ?thesis by (simp add: e2_def demo_answer_def)
  next
    case False
    with row1(2) show ?thesis
      by (simp add: e2_def on_fill_def persist_order_status_def row_status_final_other demo_answer_def)
  qed
  moreover have "placed e2 = [?o]" "fills e2 = [?b]"
    by (simp_all add: e2_def e1_def demo_engine_def demo_venue_def)
  moreover have "status ?b = FILLED" "request_id ?b = i" by (simp_all add: demo_answer_def)
  ultimately show ?thesis using fin um by (intro exI [of _ ?b] exI [of _ "release_order ?o e2"]) simp
qed

theorem exchange_contact_is_gated_witness:
  "\<exists>r e'. execute (demo_venue 1) (demo_order PAPER) False demo_engine = Inr (r, e') \<and>
     v_preflight (demo_venue 1) (demo_order PAPER) = Inr True \<and> placed e' = [demo_order PAPER]"
proof -
  from demo_runs [of 1] obtain r e' where x: "execute (demo_venue 1) (demo_order PAPER) False demo_engine = Inr (r, e')"
    and p: "placed e' = [demo_order PAPER]" by blast
  have "placed e' \<noteq> placed demo_engine" using p by (simp add: demo_engine_def)
  from exchange_contact_is_gated [OF x this] x p show ?thesis by blast
qed

theorem fill_event_iff_filled_witness:
  "\<exists>r e'. execute (demo_venue 1) (demo_order PAPER) False demo_engine = Inr (r, e') \<and> fills e' = [r]"
proof -
  from demo_runs [of 1] obtain r e' where x: "execute (demo_venue 1) (demo_order PAPER) False demo_engine = Inr (r, e')"
    and p: "status r = FILLED" "\<not> marked r" by blast
  have "v_bus_ok (demo_venue 1)" "fills demo_engine = []" by (simp_all add: demo_venue_def demo_engine_def)
  with fill_event_iff_filled [OF x, THEN conjunct2] p have "fills e' = [r]" by simp
  with x show ?thesis by blast
qed

theorem row_agrees_with_result_witness:
  "\<exists>r e'. execute (demo_venue 1) (demo_order PAPER) False demo_engine = Inr (r, e') \<and>
     row_status (ee_exec e') 1 = Some (status r)"
proof -
  from demo_runs [of 1] obtain r e' where x: "execute (demo_venue 1) (demo_order PAPER) False demo_engine = Inr (r, e')"
    and p: "placed e' = [demo_order PAPER]" and id: "request_id r = 1" by blast
  have "placed e' \<noteq> placed demo_engine" using p by (simp add: demo_engine_def)
  moreover have "odb_up (ee_exec demo_engine)" "orders_db (ee_exec demo_engine) \<noteq> None"
    by (simp_all add: demo_engine_def demo_executor_def)
  ultimately have "row_status (ee_exec e') (oid (demo_order PAPER)) = Some (status r) \<or>
      (status r = FILLED \<and> request_id r \<noteq> oid (demo_order PAPER)) \<or>
      (status r = REJECTED \<and> (\<exists>n x. snd (v_poll (demo_venue 1) n) = Inl x \<and> \<not> is_exchange_error x))"
    by (rule row_agrees_with_result [OF x])
  moreover have "snd (v_poll (demo_venue 1) n) \<noteq> Inl x" for n x by (simp add: demo_venue_def)
  moreover have "request_id r = oid (demo_order PAPER)" using id by (simp add: demo_order_def)
  ultimately show ?thesis using x by (auto simp: demo_order_def)
qed

theorem partial_fill_cancelled_and_returned_witness:
  "\<exists>s e'. monitor_fill ((demo_venue 1)\<lparr>v_poll := (\<lambda>n. (False, Inr (demo_answer 1 PARTIALLY_FILLED)))\<rparr>)
     (demo_order PAPER) (demo_answer 1 SUBMITTED) (fill_timeout (demo_order PAPER)) demo_engine = (Inr s, e') \<and>
   filled_quantity s = Dec 2 \<and> fills e' = [] \<and> cancels e' = [''X1'']"
  using partial_fill_cancelled_and_returned [of "(demo_venue 1)\<lparr>v_poll := (\<lambda>n. (False, Inr (demo_answer 1 PARTIALLY_FILLED)))\<rparr>"
      "demo_answer 1 PARTIALLY_FILLED" "demo_answer 1 SUBMITTED" demo_engine "demo_order PAPER" True]
  by (auto simp: demo_defs ended_def adapter_of_def)

text \<open>
  An answer of the exchange with an identity of its own, as the adapters' \<open>get_order\<close> makes one
  up, leaves the stored order behind: the call returns a filled order and publishes it, and its row stays
  submitted.
\<close>

theorem foreign_request_id_leaves_row:
  "\<exists>r e'. execute (demo_venue 2) (demo_order PAPER) False demo_engine = Inr (r, e') \<and> status r = FILLED \<and>
     fills e' = [r] \<and> row_status (ee_exec e') 1 = Some SUBMITTED"
  using demo_runs [of 2] by auto

end
