(* ===== verification/Portfolio_Engine.thy ===== *)
theory Portfolio_Engine
  imports Live_Gates
begin

text \<open>
  \<open>sgr/portfolio/engine.py\<close> and the operations of \<open>PositionRepository\<close>
  (\<open>sgr/core/repositories.py\<close>) it uses: open positions, cash, realised results and the copy of the
  open positions in the database from which a restarted process recovers. The hooks that protect a
  position are values of the state; the clock and the identifier of a new position are arguments.
\<close>

section \<open>Position table\<close>

record position_row =
  pr_position :: position
  pr_user :: "string option"
  pr_open :: bool
  pr_closed_at :: "time option"
  pr_reason :: "string option"

text \<open>The rows in the order of their creation.\<close>

type_synonym position_table = "position_row list"

definition same_slot :: "string option \<Rightarrow> position \<Rightarrow> position_row \<Rightarrow> bool" where
  "same_slot u p w \<longleftrightarrow> pr_open w \<and> pr_user w = u \<and> pmode (pr_position w) = pmode p \<and>
     ccxt_symbol (psymbol (pr_position w)) = ccxt_symbol (psymbol p) \<and>
     sym_exchange (psymbol (pr_position w)) = sym_exchange (psymbol p)"

text \<open>An existing row keeps its identity, symbol, exchange, mode and the time it was opened.\<close>

definition overwrite_row :: "position \<Rightarrow> position_row \<Rightarrow> position_row" where
  "overwrite_row p w = w\<lparr>pr_position := p\<lparr>pid := pid (pr_position w), psymbol := psymbol (pr_position w),
     pmode := pmode (pr_position w), opened_at := opened_at (pr_position w)\<rparr>\<rparr>"

fun upsert_open :: "string option \<Rightarrow> position \<Rightarrow> position_table \<Rightarrow> position_table" where
  "upsert_open u p [] =
     [\<lparr>pr_position = p, pr_user = u, pr_open = True, pr_closed_at = None, pr_reason = None\<rparr>]"
| "upsert_open u p (w # t) =
     (if same_slot u p w then overwrite_row p w # t else w # upsert_open u p t)"

definition close_row :: "time \<Rightarrow> dec \<Rightarrow> string \<Rightarrow> position_row \<Rightarrow> position_row" where
  "close_row now realized why w = w\<lparr>pr_position := (pr_position w)\<lparr>realized_pnl := realized\<rparr>,
     pr_open := False, pr_closed_at := Some now, pr_reason := Some why\<rparr>"

definition close_position_row :: "nat \<Rightarrow> time \<Rightarrow> dec \<Rightarrow> string \<Rightarrow> position_table \<Rightarrow> position_table" where
  "close_position_row i now realized why t =
     map (\<lambda>w. if pid (pr_position w) = i then close_row now realized why w else w) t"

text \<open>
  The numeric columns have eight decimals, the leverage two. The rounding of a value to a column is the
  database's, an argument \<open>col\<close> of the digits and the value; it is applied where the rows are read. The table has no
  column for the asset class, so the symbol of a row that is read again has the default one.
\<close>

type_synonym column = "nat \<Rightarrow> dec \<Rightarrow> dec"

definition stored :: "column \<Rightarrow> position \<Rightarrow> position" where
  "stored col p = p\<lparr>psymbol := psymbol p\<lparr>asset := ASSET_SPOT\<rparr>, pquantity := col 8 (pquantity p), entry_price := col 8 (entry_price p),
     current_price := col 8 (current_price p), leverage := col 2 (leverage p),
     unrealized_pnl := col 8 (unrealized_pnl p), realized_pnl := col 8 (realized_pnl p),
     stop_loss_price := map_option (col 8) (stop_loss_price p),
     take_profit_price := map_option (col 8) (take_profit_price p)\<rparr>"

definition get_open_positions ::
  "column \<Rightarrow> trading_mode \<Rightarrow> string option \<Rightarrow> position_table \<Rightarrow> position list"
where
  "get_open_positions col m u t =
     map (stored col) (sort_key opened_at (map pr_position
       (filter (\<lambda>w. pmode (pr_position w) = m \<and> pr_open w \<and> (u = None \<or> pr_user w = u)) t)))"

section \<open>State\<close>

record trade =
  t_symbol :: symbol
  t_side :: position_side
  t_entry_price :: dec
  t_exit_price :: dec
  t_quantity :: dec
  t_realized_pnl :: dec
  t_fees :: dec
  t_strategy :: string
  t_opened_at :: time
  t_closed_at :: time
  t_mode :: trading_mode
  t_reason :: string

text \<open>The answer of the hook that protects a new position: a position to store instead, or none.\<close>

type_synonym opened_hook = "position \<Rightarrow> py_dict \<Rightarrow> position option result"

record portfolio =
  pf_mode :: trading_mode
  cash :: dec
  positions :: "(string, position) dict"
  pf_peak :: dec
  trade_history :: "trade list"
  entry_fees :: "(string, dec) dict"
  recently_closed :: "string list"
  on_opened :: "opened_hook option"
  on_closed :: bool
  closed_calls :: "(position \<times> string) list"
  pf_gate :: "lv_gate option"
  pf_tenant :: "string option"
  position_db :: "position_table option"
  position_db_up :: bool
  trade_db :: "trade list option"
  trade_db_up :: bool

definition new_portfolio ::
  "trading_mode \<Rightarrow> dec \<Rightarrow> string option \<Rightarrow> position_table option \<Rightarrow> trade list option \<Rightarrow> portfolio"
where
  "new_portfolio m initial u pdb tdb = \<lparr>pf_mode = m, cash = initial, positions = [], pf_peak = initial,
     trade_history = [], entry_fees = [], recently_closed = [], on_opened = None, on_closed = False,
     closed_calls = [], pf_gate = None, pf_tenant = u, position_db = pdb, position_db_up = True,
     trade_db = tdb, trade_db_up = True\<rparr>"

definition set_protection_hooks :: "opened_hook option \<Rightarrow> bool \<Rightarrow> portfolio \<Rightarrow> portfolio" where
  "set_protection_hooks hook has_closed s = s\<lparr>on_opened := hook, on_closed := has_closed\<rparr>"

definition set_live_verification_gate :: "lv_gate option \<Rightarrow> portfolio \<Rightarrow> portfolio" where
  "set_live_verification_gate g s = s\<lparr>pf_gate := g\<rparr>"

definition signed_notional :: "position \<Rightarrow> dec" where
  "signed_notional p = (if pside p = LONG then notional_value p else - notional_value p)"

definition portfolio_value :: "portfolio \<Rightarrow> dec" where
  "portfolio_value s = cash s + foldl (\<lambda>acc p. acc + signed_notional p) 0 (dict_values (positions s))"

definition update_peak :: "portfolio \<Rightarrow> portfolio" where
  "update_peak s = (if pf_peak s < portfolio_value s then s\<lparr>pf_peak := portfolio_value s\<rparr> else s)"

section \<open>Persistence\<close>

definition persist_position_upsert :: "position \<Rightarrow> portfolio \<Rightarrow> portfolio" where
  "persist_position_upsert p s =
     (case position_db s of
        None \<Rightarrow> s
      | Some t \<Rightarrow> if position_db_up s then s\<lparr>position_db := Some (upsert_open (pf_tenant s) p t)\<rparr> else s)"

definition persist_position_close :: "nat \<Rightarrow> time \<Rightarrow> dec \<Rightarrow> string \<Rightarrow> portfolio \<Rightarrow> portfolio" where
  "persist_position_close i now realized why s =
     (case position_db s of
        None \<Rightarrow> s
      | Some t \<Rightarrow>
          if position_db_up s then s\<lparr>position_db := Some (close_position_row i now realized why t)\<rparr> else s)"

definition persist_trade :: "trade \<Rightarrow> portfolio \<Rightarrow> portfolio" where
  "persist_trade tr s =
     (case trade_db s of
        None \<Rightarrow> s
      | Some ts \<Rightarrow> if trade_db_up s then s\<lparr>trade_db := Some (ts @ [tr])\<rparr> else s)"

section \<open>Fills\<close>

definition ascii_lower :: "string \<Rightarrow> string" where
  "ascii_lower s = map (\<lambda>c. let n = (of_char c :: nat) in if 65 \<le> n \<and> n \<le> 90 then char_of (n + 32) else c) s"

definition infer_side :: "order_result \<Rightarrow> side" where
  "infer_side r =
     (case py_get (raw_response r) ''side'' (PyStr []) of
        PyStr s \<Rightarrow> if ascii_lower s = ''sell'' then SELL else BUY
      | _ \<Rightarrow> BUY)"

text \<open>
  \<open>str(v)\<close>: the text of a value that is not a string depends on its representation in Python, which
  \<open>pyval\<close> does not keep, and is an argument.
\<close>

type_synonym shown = "pyval \<Rightarrow> string"

definition text_of :: "shown \<Rightarrow> pyval \<Rightarrow> string" where
  "text_of shown v = (case v of PyStr s \<Rightarrow> s | _ \<Rightarrow> shown v)"

definition opened_position :: "shown \<Rightarrow> time \<Rightarrow> nat \<Rightarrow> order_result \<Rightarrow> dec \<Rightarrow> trading_mode \<Rightarrow> position" where
  "opened_position shown now new_id r price m = \<lparr>pid = new_id, psymbol = rsymbol r,
     pside = (if infer_side r = BUY then LONG else SHORT), pquantity = filled_quantity r,
     entry_price = price, current_price = price, leverage = 1, unrealized_pnl = 0, realized_pnl = 0,
     opened_at = now, strategy_name = text_of shown (py_get (raw_response r) ''strategy'' (PyStr ''unknown'')),
     pmode = m, stop_loss_price = None, take_profit_price = None, max_holding_until = None,
     sl_order_id = None, tp_order_id = None, entry_regime = None\<rparr>"

definition protect :: "string \<Rightarrow> position \<Rightarrow> py_dict \<Rightarrow> portfolio \<Rightarrow> portfolio" where
  "protect key p raw s =
     (case on_opened s of
        None \<Rightarrow> s
      | Some hook \<Rightarrow>
          (case hook p raw of
             Inr (Some p1) \<Rightarrow>
               persist_position_upsert p1 (s\<lparr>positions := AList.update key p1 (positions s)\<rparr>)
           | Inr None \<Rightarrow> s
           | Inl x \<Rightarrow> s))"

definition open_position ::
  "shown \<Rightarrow> time \<Rightarrow> nat \<Rightarrow> order_result \<Rightarrow> dec \<Rightarrow> string \<Rightarrow> portfolio \<Rightarrow> portfolio"
where
  "open_position shown now new_id r price key s =
     (let p = opened_position shown now new_id r price (pf_mode s);
          notional = filled_quantity r * price;
          s1 = s\<lparr>positions := AList.update key p (positions s),
                 cash := (if pside p = LONG then cash s - (notional + fees r)
                          else cash s + (notional - fees r)),
                 entry_fees := AList.update key (fees r) (entry_fees s)\<rparr>
      in protect key p (raw_response r) (persist_position_upsert p s1))"

definition side_factor :: "position \<Rightarrow> dec" where
  "side_factor p = (if pside p = LONG then 1 else Dec (- 1))"

definition is_closing :: "position \<Rightarrow> order_result \<Rightarrow> bool" where
  "is_closing p r \<longleftrightarrow> pside p = LONG \<and> infer_side r = SELL \<or> pside p = SHORT \<and> infer_side r = BUY"

text \<open>The numbers of a closing fill.\<close>

definition close_quantity :: "position \<Rightarrow> order_result \<Rightarrow> dec" where
  "close_quantity p r = min (filled_quantity r) (pquantity p)"

definition remaining_fee :: "string \<Rightarrow> portfolio \<Rightarrow> dec" where
  "remaining_fee key s = (case map_of (entry_fees s) key of Some f \<Rightarrow> f | None \<Rightarrow> 0)"

definition fee_share :: "position \<Rightarrow> order_result \<Rightarrow> string \<Rightarrow> portfolio \<Rightarrow> dec" where
  "fee_share p r key s =
     (if 0 < pquantity p then remaining_fee key s * (close_quantity p r / pquantity p) else 0)"

definition realized_by :: "position \<Rightarrow> order_result \<Rightarrow> dec \<Rightarrow> string \<Rightarrow> portfolio \<Rightarrow> dec" where
  "realized_by p r price key s =
     (price - entry_price p) * close_quantity p r * side_factor p - fees r - fee_share p r key s"

definition close_cash :: "position \<Rightarrow> order_result \<Rightarrow> dec \<Rightarrow> portfolio \<Rightarrow> dec" where
  "close_cash p r price s =
     (if pside p = LONG then cash s + (price * close_quantity p r - fees r)
      else cash s - (price * close_quantity p r + fees r))"

definition close_reason :: "shown \<Rightarrow> order_result \<Rightarrow> string" where
  "close_reason shown r =
     text_of shown (py_get (raw_response r) ''exit_reason'' (PyStr ''strategy_signal''))"

definition book_live_loss :: "order_result \<Rightarrow> dec \<Rightarrow> portfolio \<Rightarrow> portfolio" where
  "book_live_loss r realized s =
     (case pf_gate s of
        Some g \<Rightarrow> if rmode r = LIVE then s\<lparr>pf_gate := Some (record_realized_loss (- realized) g)\<rparr> else s
      | None \<Rightarrow> s)"

definition record_closed_trade ::
  "time \<Rightarrow> position \<Rightarrow> dec \<Rightarrow> dec \<Rightarrow> dec \<Rightarrow> dec \<Rightarrow> string \<Rightarrow> portfolio \<Rightarrow> portfolio"
where
  "record_closed_trade now p price qty realized total_fees why s =
     (let tr = \<lparr>t_symbol = psymbol p, t_side = pside p, t_entry_price = entry_price p, t_exit_price = price,
            t_quantity = qty, t_realized_pnl = realized, t_fees = total_fees, t_strategy = strategy_name p,
            t_opened_at = opened_at p, t_closed_at = now, t_mode = pf_mode s, t_reason = why\<rparr>
      in persist_trade tr (s\<lparr>trade_history := trade_history s @ [tr]\<rparr>))"

text \<open>The identifiers of the protective orders, the empty one left out.\<close>

definition protective_ids :: "position \<Rightarrow> string list" where
  "protective_ids p =
     concat (map (\<lambda>x. case x of Some i \<Rightarrow> if i = [] then [] else [i] | None \<Rightarrow> []) [sl_order_id p, tp_order_id p])"

definition close_fully ::
  "shown \<Rightarrow> time \<Rightarrow> position \<Rightarrow> order_result \<Rightarrow> dec \<Rightarrow> dec \<Rightarrow> string \<Rightarrow> portfolio \<Rightarrow> portfolio"
where
  "close_fully shown now p r price realized key s =
     (let why = close_reason shown r;
          s1 = persist_position_close (pid p) now (realized_pnl p + realized) why
                 (s\<lparr>positions := AList.delete key (positions s),
                    entry_fees := AList.delete key (entry_fees s),
                    cash := close_cash p r price s\<rparr>);
          s2 = s1\<lparr>recently_closed := fold List.insert (protective_ids p) (recently_closed s1)\<rparr>
      in if on_closed s2 then s2\<lparr>closed_calls := closed_calls s2 @ [(p, why)]\<rparr> else s2)"

definition close_partly ::
  "position \<Rightarrow> order_result \<Rightarrow> dec \<Rightarrow> dec \<Rightarrow> string \<Rightarrow> portfolio \<Rightarrow> portfolio"
where
  "close_partly p r price realized key s =
     (let p1 = p\<lparr>pquantity := pquantity p - close_quantity p r, current_price := price,
               unrealized_pnl := 0, realized_pnl := realized_pnl p + realized\<rparr>
      in persist_position_upsert p1
           (s\<lparr>entry_fees := AList.update key (remaining_fee key s - fee_share p r key s) (entry_fees s),
              positions := AList.update key p1 (positions s),
              cash := close_cash p r price s\<rparr>))"

definition update_position ::
  "shown \<Rightarrow> time \<Rightarrow> position \<Rightarrow> order_result \<Rightarrow> dec \<Rightarrow> string \<Rightarrow> portfolio \<Rightarrow> portfolio"
where
  "update_position shown now p r price key s =
     (if \<not> is_closing p r then s
      else let realized = realized_by p r price key s;
               s1 = record_closed_trade now p price (close_quantity p r) realized
                      (fees r + fee_share p r key s) (close_reason shown r) (book_live_loss r realized s)
           in if pquantity p \<le> close_quantity p r
              then close_fully shown now p r price realized key s1
              else close_partly p r price realized key s1)"

definition on_order_filled :: "shown \<Rightarrow> time \<Rightarrow> nat \<Rightarrow> order_result \<Rightarrow> portfolio \<Rightarrow> portfolio" where
  "on_order_filled shown now new_id r s =
     (if status r \<noteq> FILLED \<and> status r \<noteq> PARTIALLY_FILLED then s
      else case average_fill_price r of
             None \<Rightarrow> s
           | Some price \<Rightarrow>
               if filled_quantity r \<le> 0 then s
               else let key = symbol_str (rsymbol r)
                    in case map_of (positions s) key of
                         None \<Rightarrow>
                           if exchange_order_id r \<in> set (recently_closed s)
                           then s\<lparr>recently_closed := removeAll (exchange_order_id r) (recently_closed s)\<rparr>
                           else update_peak (open_position shown now new_id r price key s)
                       | Some p \<Rightarrow> update_peak (update_position shown now p r price key s))"

section \<open>Prices and recovery\<close>

definition marked_to_market :: "dec \<Rightarrow> position \<Rightarrow> position" where
  "marked_to_market price p = p\<lparr>current_price := price,
     unrealized_pnl := (price - entry_price p) * pquantity p * side_factor p\<rparr>"

definition priced :: "(string, dec) dict \<Rightarrow> position \<Rightarrow> bool" where
  "priced prices p \<longleftrightarrow> map_of prices (ccxt_symbol (psymbol p)) \<noteq> None"

definition reprice :: "(string, dec) dict \<Rightarrow> position \<Rightarrow> position" where
  "reprice prices p =
     (case map_of prices (ccxt_symbol (psymbol p)) of
        Some x \<Rightarrow> marked_to_market x p | None \<Rightarrow> p)"

definition update_prices :: "(string, dec) dict \<Rightarrow> portfolio \<Rightarrow> portfolio" where
  "update_prices prices s =
     (let changed = map (reprice prices) (filter (priced prices) (dict_values (positions s)));
          s1 = update_peak (s\<lparr>positions := map (\<lambda>(k, p). (k, reprice prices p)) (positions s)\<rparr>)
      in fold persist_position_upsert changed s1)"

definition restore_one :: "position \<Rightarrow> portfolio \<Rightarrow> portfolio" where
  "restore_one p s =
     (let notional = pquantity p * entry_price p
      in s\<lparr>positions := AList.update (symbol_str (psymbol p)) p (positions s),
           cash := (if pside p = LONG then cash s - notional else cash s + notional)\<rparr>)"

text \<open>A missing repository and a database that does not answer raise.\<close>

definition restore_from_persistence :: "column \<Rightarrow> portfolio \<Rightarrow> (portfolio \<times> nat) result" where
  "restore_from_persistence col s =
     (case position_db s of
        None \<Rightarrow> Inl RuntimeError
      | Some t \<Rightarrow>
          if \<not> position_db_up s then Inl (ServiceError 1)
          else let ps = get_open_positions col (pf_mode s) (pf_tenant s) t
               in Inr (update_peak (fold restore_one ps s), length ps))"

definition get_position :: "symbol \<Rightarrow> portfolio \<Rightarrow> position option" where
  "get_position y s = map_of (positions s) (symbol_str y)"

definition drawdown_of :: "portfolio \<Rightarrow> dec" where
  "drawdown_of s = (if 0 < pf_peak s then (pf_peak s - portfolio_value s) / pf_peak s else 0)"

section \<open>Cases of a fill\<close>

lemma on_order_filled_cases:
  obtains (ignored) "on_order_filled shown now i r s = s"
  | (dropped) "on_order_filled shown now i r s =
      s\<lparr>recently_closed := removeAll (exchange_order_id r) (recently_closed s)\<rparr>"
      "map_of (positions s) (symbol_str (rsymbol r)) = None"
  | (opened) price where "average_fill_price r = Some price" "map_of (positions s) (symbol_str (rsymbol r)) = None"
      "0 < filled_quantity r"
      "on_order_filled shown now i r s = update_peak (open_position shown now i r price (symbol_str (rsymbol r)) s)"
  | (updated) p price where "average_fill_price r = Some price"
      "map_of (positions s) (symbol_str (rsymbol r)) = Some p" "0 < filled_quantity r"
      "on_order_filled shown now i r s = update_peak (update_position shown now p r price (symbol_str (rsymbol r)) s)"
proof (cases "(status r \<noteq> FILLED \<and> status r \<noteq> PARTIALLY_FILLED) \<or> average_fill_price r = None \<or> filled_quantity r \<le> 0")
  case True
  then have "on_order_filled shown now i r s = s" by (auto simp: on_order_filled_def split: option.split)
  then show ?thesis by (rule ignored)
next
  case False
  then obtain price where f: "average_fill_price r = Some price" "0 < filled_quantity r"
    "status r = FILLED \<or> status r = PARTIALLY_FILLED" by auto
  show ?thesis
  proof (cases "map_of (positions s) (symbol_str (rsymbol r))")
    case None
    with f dropped opened show ?thesis
      by (cases "exchange_order_id r \<in> set (recently_closed s)") (auto simp: on_order_filled_def Let_def)
  next
    case (Some p)
    with f updated show ?thesis by (auto simp: on_order_filled_def Let_def)
  qed
qed

section \<open>Ledger\<close>

lemma persist_frame [simp, frame]:
  "cash (persist_position_upsert p s) = cash s" "positions (persist_position_upsert p s) = positions s"
  "entry_fees (persist_position_upsert p s) = entry_fees s"
  "trade_history (persist_position_upsert p s) = trade_history s"
  "on_opened (persist_position_upsert p s) = on_opened s" "pf_mode (persist_position_upsert p s) = pf_mode s"
  "recently_closed (persist_position_upsert p s) = recently_closed s"
  "cash (persist_position_close i now x why s) = cash s"
  "positions (persist_position_close i now x why s) = positions s"
  "entry_fees (persist_position_close i now x why s) = entry_fees s"
  "trade_history (persist_position_close i now x why s) = trade_history s"
  "on_opened (persist_position_close i now x why s) = on_opened s"
  "pf_mode (persist_position_close i now x why s) = pf_mode s"
  "recently_closed (persist_position_close i now x why s) = recently_closed s"
  "cash (persist_trade tr s) = cash s" "positions (persist_trade tr s) = positions s"
  "entry_fees (persist_trade tr s) = entry_fees s" "trade_history (persist_trade tr s) = trade_history s"
  "on_opened (persist_trade tr s) = on_opened s" "pf_mode (persist_trade tr s) = pf_mode s"
  "recently_closed (persist_trade tr s) = recently_closed s"
  by (simp_all add: persist_position_upsert_def persist_position_close_def persist_trade_def split: option.split)

lemma booking_frame [simp, frame]:
  "cash (update_peak s) = cash s" "positions (update_peak s) = positions s"
  "entry_fees (update_peak s) = entry_fees s" "trade_history (update_peak s) = trade_history s"
  "on_opened (update_peak s) = on_opened s" "recently_closed (update_peak s) = recently_closed s"
  "pf_mode (update_peak s) = pf_mode s"
  "cash (book_live_loss r x s) = cash s" "positions (book_live_loss r x s) = positions s"
  "entry_fees (book_live_loss r x s) = entry_fees s" "trade_history (book_live_loss r x s) = trade_history s"
  "on_opened (book_live_loss r x s) = on_opened s" "recently_closed (book_live_loss r x s) = recently_closed s"
  "pf_mode (book_live_loss r x s) = pf_mode s"
  by (simp_all add: update_peak_def book_live_loss_def split: option.split)

lemma record_closed_trade_frame [simp, frame]:
  "cash (record_closed_trade now p price qty x f why s) = cash s"
  "positions (record_closed_trade now p price qty x f why s) = positions s"
  "entry_fees (record_closed_trade now p price qty x f why s) = entry_fees s"
  "on_opened (record_closed_trade now p price qty x f why s) = on_opened s"
  "recently_closed (record_closed_trade now p price qty x f why s) = recently_closed s"
  "map t_realized_pnl (trade_history (record_closed_trade now p price qty x f why s)) =
     map t_realized_pnl (trade_history s) @ [x]"
  by (simp_all add: record_closed_trade_def Let_def)

text \<open>
  The books in exact numbers: a position stands with its entry value (a short one negatively), an open
  position with the part of its entry fee that no close has used up yet, a trade with its realised result.
\<close>

definition entry_value :: "position \<Rightarrow> rat" where
  "entry_value p = (if pside p = LONG then 1 else - 1) * dval (pquantity p) * dval (entry_price p)"

definition ledger :: "portfolio \<Rightarrow> rat" where
  "ledger s = dval (cash s) + sum_list (map (entry_value \<circ> snd) (positions s)) +
     sum_list (map (dval \<circ> snd) (entry_fees s)) - sum_list (map dval (map t_realized_pnl (trade_history s)))"

text \<open>The hook may add protection to a position but not change what it is.\<close>

definition same_core :: "position \<Rightarrow> position \<Rightarrow> bool" where
  "same_core p q \<longleftrightarrow> pid q = pid p \<and> psymbol q = psymbol p \<and> pside q = pside p \<and> pquantity q = pquantity p \<and>
     entry_price q = entry_price p \<and> pmode q = pmode p \<and> opened_at q = opened_at p"

definition hook_keeps :: "opened_hook \<Rightarrow> bool" where
  "hook_keeps h \<longleftrightarrow> (\<forall>p raw q. h p raw = Inr (Some q) \<longrightarrow> same_core p q)"

definition book_ok :: "portfolio \<Rightarrow> bool" where
  "book_ok s \<longleftrightarrow> dict_ok (positions s) \<and> dict_ok (entry_fees s) \<and>
     (\<forall>k. map_of (positions s) k = None \<longrightarrow> map_of (entry_fees s) k = None) \<and>
     (case on_opened s of None \<Rightarrow> True | Some h \<Rightarrow> hook_keeps h)"

text \<open>
  Numbers that the 28 digits of the decimal context hold exactly: prices and quantities with eight
  decimals, amounts of money with sixteen, all below \<open>10 ^ 11\<close>.
\<close>

definition unit_number :: "rat \<Rightarrow> bool" where
  "unit_number x \<longleftrightarrow> on_grid 8 x \<and> \<bar>x\<bar> \<le> 10 ^ 11"

definition amount :: "rat \<Rightarrow> bool" where
  "amount x \<longleftrightarrow> on_grid 16 x \<and> \<bar>x\<bar> \<le> 10 ^ 11"

definition regular_fill :: "order_result \<Rightarrow> dec \<Rightarrow> portfolio \<Rightarrow> bool" where
  "regular_fill r price s \<longleftrightarrow>
     unit_number (dval price) \<and> unit_number (dval (filled_quantity r)) \<and>
     \<bar>dval price * dval (filled_quantity r)\<bar> \<le> 10 ^ 11 \<and> amount (dval (fees r)) \<and> amount (dval (cash s)) \<and>
     (case map_of (positions s) (symbol_str (rsymbol r)) of
        None \<Rightarrow> True
      | Some p \<Rightarrow> unit_number (dval (entry_price p)) \<and> unit_number (dval (pquantity p)) \<and> 0 < dval (pquantity p) \<and>
          \<bar>dval (entry_price p) * dval (pquantity p)\<bar> \<le> 10 ^ 11 \<and>
          amount (dval (remaining_fee (symbol_str (rsymbol r)) s)) \<and>
          amount (dval (fee_share p r (symbol_str (rsymbol r)) s)))"

lemma on_grid_mult: "on_grid a x \<Longrightarrow> on_grid b y \<Longrightarrow> on_grid (a + b) (x * y)"
  using Ints_mult [of "x * 10 ^ a" "y * 10 ^ b"] by (simp add: on_grid_def power_add mult_ac)

lemma on_grid_weaken: "on_grid a x \<Longrightarrow> a \<le> b \<Longrightarrow> on_grid b x"
proof -
  assume x: "on_grid a x" and ab: "a \<le> b"
  have "on_grid (b - a) 1" by (simp add: on_grid_def)
  from on_grid_mult [OF x this] ab show ?thesis by simp
qed

lemma product_on_grid: "on_grid 8 x \<Longrightarrow> on_grid 8 y \<Longrightarrow> on_grid 16 (x * y)"
  using on_grid_mult [of 8 x 8 y] by simp

lemma rnd_money: "on_grid 16 x \<Longrightarrow> \<bar>x\<bar> \<le> 10 ^ 12 \<Longrightarrow> rnd_dec x = x"
  using rnd_dec_exact [of 16 x] by simp

lemma rnd_unit: "on_grid 8 x \<Longrightarrow> \<bar>x\<bar> \<le> 10 ^ 12 \<Longrightarrow> rnd_dec x = x"
  using rnd_dec_exact [of 8 x] by simp

lemma entry_value_core: "same_core p q \<Longrightarrow> entry_value q = entry_value p"
  by (simp add: same_core_def entry_value_def)

lemma protect_stores:
  assumes p: "map_of (positions s) key = Some p"
    and hook: "case on_opened s of None \<Rightarrow> True | Some h \<Rightarrow> hook_keeps h"
  shows "\<exists>q. same_core p q \<and> positions (protect key p raw s) = AList.update key q (positions s)"
proof (cases "\<exists>h q. on_opened s = Some h \<and> h p raw = Inr (Some q)")
  case True
  then obtain h q where "on_opened s = Some h" "h p raw = Inr (Some q)" by blast
  with hook show ?thesis by (intro exI [of _ q]) (auto simp: protect_def hook_keeps_def)
next
  case False
  then have "positions (protect key p raw s) = positions s"
    by (auto simp: protect_def split: option.split sum.split)
  with update_same [OF p] show ?thesis by (intro exI [of _ p]) (simp add: same_core_def)
qed

lemma protect_frame [simp, frame]:
  "cash (protect key p raw s) = cash s" "entry_fees (protect key p raw s) = entry_fees s"
  "trade_history (protect key p raw s) = trade_history s" "on_opened (protect key p raw s) = on_opened s"
  "recently_closed (protect key p raw s) = recently_closed s" "pf_mode (protect key p raw s) = pf_mode s"
  by (simp_all add: protect_def split: option.split sum.split)

lemma open_position_books:
  assumes new: "map_of (positions s) key = None" and ok: "book_ok s"
    and p_def: "p = opened_position shown now i r price (pf_mode s)"
  shows "\<exists>q. same_core p q \<and> positions (open_position shown now i r price key s) = positions s @ [(key, q)]"
    and "entry_fees (open_position shown now i r price key s) = entry_fees s @ [(key, fees r)]"
    and "trade_history (open_position shown now i r price key s) = trade_history s"
    and "on_opened (open_position shown now i r price key s) = on_opened s"
    and "cash (open_position shown now i r price key s) =
      (if pside p = LONG then cash s - (filled_quantity r * price + fees r)
       else cash s + (filled_quantity r * price - fees r))"
proof -
  from ok new have nf: "map_of (entry_fees s) key = None" by (simp add: book_ok_def)
  let ?s1 = "persist_position_upsert p (s\<lparr>positions := AList.update key p (positions s),
       cash := (if pside p = LONG then cash s - (filled_quantity r * price + fees r)
                else cash s + (filled_quantity r * price - fees r)),
       entry_fees := AList.update key (fees r) (entry_fees s)\<rparr>)"
  have o: "open_position shown now i r price key s = protect key p (raw_response r) ?s1"
    by (simp add: open_position_def p_def Let_def)
  have "map_of (positions ?s1) key = Some p" by simp
  from protect_stores [OF this, of "raw_response r"] ok obtain q where "same_core p q"
    and "positions (protect key p (raw_response r) ?s1) = AList.update key q (AList.update key p (positions s))"
    by (auto simp: book_ok_def)
  then show "\<exists>q. same_core p q \<and> positions (open_position shown now i r price key s) = positions s @ [(key, q)]"
    unfolding o using update_new_key [OF new, of q] by auto
  show "entry_fees (open_position shown now i r price key s) = entry_fees s @ [(key, fees r)]"
    "trade_history (open_position shown now i r price key s) = trade_history s"
    "on_opened (open_position shown now i r price key s) = on_opened s"
    "cash (open_position shown now i r price key s) =
      (if pside p = LONG then cash s - (filled_quantity r * price + fees r)
       else cash s + (filled_quantity r * price - fees r))"
    unfolding o by (simp_all add: update_new_key nf)
qed

lemma open_position_ledger:
  assumes new: "map_of (positions s) (symbol_str (rsymbol r)) = None" and ok: "book_ok s"
    and reg: "regular_fill r price s"
  shows "ledger (open_position shown now i r price (symbol_str (rsymbol r)) s) = ledger s"
proof -
  let ?key = "symbol_str (rsymbol r)" and ?q = "dval (filled_quantity r)" and ?x = "dval price"
  let ?p = "opened_position shown now i r price (pf_mode s)"
  note b = open_position_books [OF new ok refl, of shown now i r price]
  obtain q where q: "same_core ?p q"
    and pos: "positions (open_position shown now i r price ?key s) = positions s @ [(?key, q)]"
    using b(1) by blast
  from reg have g: "on_grid 16 (?q * ?x)" "\<bar>?q * ?x\<bar> \<le> 10 ^ 11" "amount (dval (fees r))" "amount (dval (cash s))"
    by (auto simp: regular_fill_def unit_number_def mult.commute intro: product_on_grid)
  then have e: "rnd_dec (?q * ?x) = ?q * ?x"
      "rnd_dec (?q * ?x + dval (fees r)) = ?q * ?x + dval (fees r)"
      "rnd_dec (?q * ?x - dval (fees r)) = ?q * ?x - dval (fees r)"
      "rnd_dec (dval (cash s) - (?q * ?x + dval (fees r))) = dval (cash s) - (?q * ?x + dval (fees r))"
      "rnd_dec (dval (cash s) + (?q * ?x - dval (fees r))) = dval (cash s) + (?q * ?x - dval (fees r))"
    by (auto simp: amount_def intro!: rnd_money)
  have "entry_value q = (if pside ?p = LONG then 1 else - 1) * ?q * ?x"
    unfolding entry_value_core [OF q] by (simp add: entry_value_def opened_position_def)
  then show ?thesis
    unfolding ledger_def b(2,3,5) pos by (simp add: e)
qed

lemma update_position_books:
  fixes shown now price key s
  assumes c: "is_closing p r"
  defines "s1 \<equiv> update_position shown now p r price key s"
  shows "positions s1 = (if pquantity p \<le> close_quantity p r then AList.delete key (positions s)
      else AList.update key (p\<lparr>pquantity := pquantity p - close_quantity p r, current_price := price,
        unrealized_pnl := 0, realized_pnl := realized_pnl p + realized_by p r price key s\<rparr>) (positions s))"
    and "entry_fees s1 = (if pquantity p \<le> close_quantity p r then AList.delete key (entry_fees s)
      else AList.update key (remaining_fee key s - fee_share p r key s) (entry_fees s))"
    and "map t_realized_pnl (trade_history s1) =
      map t_realized_pnl (trade_history s) @ [realized_by p r price key s]"
    and "cash s1 = close_cash p r price s" and "on_opened s1 = on_opened s"
  using c unfolding s1_def
  by (simp_all add: update_position_def close_fully_def close_partly_def Let_def remaining_fee_def
      fee_share_def close_cash_def)

lemma close_quantity_bounds:
  assumes "0 < dval (filled_quantity r)" and "0 < dval (pquantity p)"
  shows "0 < dval (close_quantity p r)" and "dval (close_quantity p r) \<le> dval (pquantity p)"
    and "dval (close_quantity p r) \<le> dval (filled_quantity r)"
  using assms by (simp_all add: close_quantity_def)

lemma abs_product_mono: "0 < c \<Longrightarrow> c \<le> d \<Longrightarrow> \<bar>x * d\<bar> \<le> b \<Longrightarrow> \<bar>x * c\<bar> \<le> b" for x :: rat
  using mult_left_mono [of c d "\<bar>x\<bar>"] by (simp add: abs_mult)

lemma closing_exact:
  fixes r price p s
  defines "key \<equiv> symbol_str (rsymbol r)"
  assumes reg: "regular_fill r price s" and p: "map_of (positions s) key = Some p"
    and q: "0 < dval (filled_quantity r)"
  defines "c \<equiv> dval (close_quantity p r)" and "share \<equiv> dval (fee_share p r key s)"
    and "sf \<equiv> (if pside p = LONG then 1 else - 1 :: rat)"
  shows "dval (realized_by p r price key s) = (dval price - dval (entry_price p)) * c * sf - dval (fees r) - share"
    and "dval (close_cash p r price s) = dval (cash s) + dval price * c * sf - dval (fees r)"
    and "dval (pquantity p - close_quantity p r) = dval (pquantity p) - c"
    and "dval (remaining_fee key s - fee_share p r key s) = dval (remaining_fee key s) - share"
proof -
  let ?x = "dval price" and ?e = "dval (entry_price p)" and ?Q = "dval (pquantity p)"
  from reg p have u: "unit_number ?x" "unit_number ?e" "unit_number ?Q" "unit_number (dval (filled_quantity r))"
    "0 < ?Q" and m: "amount (dval (fees r))" "amount (dval (cash s))" "amount share"
      "amount (dval (remaining_fee key s))"
    and b: "\<bar>?x * dval (filled_quantity r)\<bar> \<le> 10 ^ 11" "\<bar>?e * ?Q\<bar> \<le> 10 ^ 11"
    by (auto simp: regular_fill_def key_def share_def)
  note cb = close_quantity_bounds [OF q u(5)]
  have "unit_number c" using u by (simp add: c_def close_quantity_def min_def)
  then have g: "on_grid 16 (?x * c)" "on_grid 16 (?e * c)" "on_grid 8 c" and cc: "\<bar>c\<bar> \<le> 10 ^ 11"
    using u by (auto simp: unit_number_def intro: product_on_grid)
  have bc: "\<bar>?x * c\<bar> \<le> 10 ^ 11" "\<bar>?e * c\<bar> \<le> 10 ^ 11"
    using abs_product_mono [OF cb(1,3) b(1)] abs_product_mono [OF cb(1,2) b(2)] by (simp_all add: c_def)
  have d: "rnd_dec (?x - ?e) = ?x - ?e" "rnd_dec (?Q - c) = ?Q - c"
    using u g cc by (auto simp: unit_number_def intro!: rnd_unit)
  have "(?x - ?e) * c = ?x * c - ?e * c" by (simp add: left_diff_distrib)
  moreover have "on_grid 16 (?x * c - ?e * c)" "\<bar>?x * c - ?e * c\<bar> \<le> 2 * 10 ^ 11" using g bc by auto
  ultimately have g0: "on_grid 16 ((?x - ?e) * c)" "\<bar>(?x - ?e) * c\<bar> \<le> 2 * 10 ^ 11" by simp_all
  then have r1: "rnd_dec ((?x - ?e) * c) = (?x - ?e) * c" by (intro rnd_money) auto
  have pg: "on_grid 16 ((?x - ?e) * c * sf)" "\<bar>(?x - ?e) * c * sf\<bar> \<le> 2 * 10 ^ 11"
    using g0 on_grid_minus [OF g0(1)] by (simp_all add: sf_def)
  have r2: "rnd_dec ((?x - ?e) * c * sf) = (?x - ?e) * c * sf"
    and r3: "rnd_dec ((?x - ?e) * c * sf - dval (fees r)) = (?x - ?e) * c * sf - dval (fees r)"
    and r4: "rnd_dec ((?x - ?e) * c * sf - dval (fees r) - share) = (?x - ?e) * c * sf - dval (fees r) - share"
    using pg m by (auto simp: amount_def intro!: rnd_money)
  have k: "rnd_dec (?x * c) = ?x * c" "rnd_dec (?x * c - dval (fees r)) = ?x * c - dval (fees r)"
    "rnd_dec (?x * c + dval (fees r)) = ?x * c + dval (fees r)"
    "rnd_dec (dval (cash s) + (?x * c - dval (fees r))) = dval (cash s) + (?x * c - dval (fees r))"
    "rnd_dec (dval (cash s) - (?x * c + dval (fees r))) = dval (cash s) - (?x * c + dval (fees r))"
    using m bc g by (auto simp: amount_def intro!: rnd_money)
  have sfv: "dval (side_factor p) = sf" by (simp add: side_factor_def sf_def)
  show "dval (realized_by p r price key s) = (?x - ?e) * c * sf - dval (fees r) - share"
    by (simp add: realized_by_def sfv d r1 r2 r3 r4 flip: c_def share_def)
  show "dval (close_cash p r price s) = dval (cash s) + ?x * c * sf - dval (fees r)"
    using k by (simp add: close_cash_def sf_def flip: c_def)
  show "dval (pquantity p - close_quantity p r) = ?Q - c" by (simp add: d flip: c_def)
  show "dval (remaining_fee key s - fee_share p r key s) = dval (remaining_fee key s) - share"
    using m by (auto simp: amount_def simp flip: share_def intro!: rnd_money)
qed

lemma entry_fee_of: "book_ok s \<Longrightarrow> map_of (positions s) k = None \<Longrightarrow> map_of (entry_fees s) k = None"
  by (simp add: book_ok_def)

lemma fee_book_delete:
  assumes "dict_ok (entry_fees s)"
  shows "sum_list (map (dval \<circ> snd) (AList.delete key (entry_fees s))) =
    sum_list (map (dval \<circ> snd) (entry_fees s)) - dval (remaining_fee key s)"
proof (cases "map_of (entry_fees s) key")
  case None
  then have "AList.delete key (entry_fees s) = entry_fees s"
    by (simp add: delete_id map_of_eq_None_iff)
  with None show ?thesis by (simp add: remaining_fee_def)
next
  case (Some f)
  with sum_list_delete_key [OF assms Some, of dval] show ?thesis by (simp add: remaining_fee_def)
qed

lemma fee_book_update:
  "sum_list (map (dval \<circ> snd) (AList.update key f (entry_fees s))) =
    sum_list (map (dval \<circ> snd) (entry_fees s)) - dval (remaining_fee key s) + dval f"
proof (cases "map_of (entry_fees s) key")
  case None
  then show ?thesis by (simp add: remaining_fee_def update_new_key)
next
  case (Some g)
  with sum_list_update_key [OF Some, of dval f] show ?thesis by (simp add: remaining_fee_def)
qed

lemma close_quantity_full:
  "pquantity p \<le> close_quantity p r \<Longrightarrow> close_quantity p r = pquantity p"
  by (simp add: close_quantity_def min_def dec_eq_iff split: if_splits)

lemma full_share:
  assumes "0 < dval (pquantity p)" and "close_quantity p r = pquantity p"
    and "amount (dval (remaining_fee key s))"
  shows "dval (fee_share p r key s) = dval (remaining_fee key s)"
  using assms by (simp add: fee_share_def amount_def rnd_money rnd_dec_grid_0)

lemma update_position_ledger:
  fixes r price p s
  defines "key \<equiv> symbol_str (rsymbol r)"
  assumes c: "is_closing p r" and reg: "regular_fill r price s" and p: "map_of (positions s) key = Some p"
    and q: "0 < dval (filled_quantity r)" and ok: "book_ok s"
  shows "ledger (update_position shown now p r price key s) = ledger s"
proof -
  let ?s1 = "update_position shown now p r price key s" and ?c = "dval (close_quantity p r)"
  let ?sf = "if pside p = LONG then 1 else - 1 :: rat"
  note b = update_position_books [OF c, of shown now price key s]
  note x = closing_exact [OF reg p [unfolded key_def] q, folded key_def]
  from reg p have Q: "0 < dval (pquantity p)" and rem: "amount (dval (remaining_fee key s))"
    by (auto simp: regular_fill_def key_def)
  have ev: "entry_value p = ?sf * dval (pquantity p) * dval (entry_price p)" by (simp add: entry_value_def)
  have tr: "sum_list (map dval (map t_realized_pnl (trade_history ?s1))) =
      sum_list (map dval (map t_realized_pnl (trade_history s))) + dval (realized_by p r price key s)"
    unfolding b(3) by simp
  show ?thesis
  proof (cases "pquantity p \<le> close_quantity p r")
    case True
    note full = close_quantity_full [OF True]
    have pos: "sum_list (map (entry_value \<circ> snd) (positions ?s1)) =
        sum_list (map (entry_value \<circ> snd) (positions s)) - entry_value p"
      using b(1) True sum_list_delete_key [OF _ p, of entry_value] ok by (simp add: book_ok_def)
    have fee: "sum_list (map (dval \<circ> snd) (entry_fees ?s1)) =
        sum_list (map (dval \<circ> snd) (entry_fees s)) - dval (remaining_fee key s)"
      using b(2) True fee_book_delete ok by (simp add: book_ok_def)
    show ?thesis
      unfolding ledger_def pos fee tr b(4) x(1,2) ev full_share [OF Q full rem] full
      by (simp add: algebra_simps)
  next
    case False
    let ?p1 = "p\<lparr>pquantity := pquantity p - close_quantity p r, current_price := price,
        unrealized_pnl := 0, realized_pnl := realized_pnl p + realized_by p r price key s\<rparr>"
    have pos: "sum_list (map (entry_value \<circ> snd) (positions ?s1)) =
        sum_list (map (entry_value \<circ> snd) (positions s)) - entry_value p + entry_value ?p1"
      using b(1) False sum_list_update_key [OF p, of entry_value ?p1] by simp
    have fee: "sum_list (map (dval \<circ> snd) (entry_fees ?s1)) =
        sum_list (map (dval \<circ> snd) (entry_fees s)) - dval (fee_share p r key s)"
      using b(2) False fee_book_update [of key _ s] x(4) by simp
    have ev1: "entry_value ?p1 = ?sf * (dval (pquantity p) - ?c) * dval (entry_price p)"
      unfolding entry_value_def using x(3) by simp
    show ?thesis
      unfolding ledger_def pos fee tr b(4) x(1,2) ev ev1 by (simp add: algebra_simps)
  qed
qed

text \<open>Preservation of the shape of the books.\<close>

lemma lookup_append_None [simp]: "map_of (d @ e) k = None \<longleftrightarrow> map_of d k = None \<and> map_of e k = None"
  by (simp add: map_of_eq_None_iff)

lemma open_position_ok [preserves]:
  assumes new: "map_of (positions s) key = None" and ok: "book_ok s"
  shows "book_ok (open_position shown now i r price key s)"
proof -
  note b = open_position_books [OF new ok refl, of shown now i r price]
  obtain q where "positions (open_position shown now i r price key s) = positions s @ [(key, q)]"
    using b(1) by blast
  then show ?thesis
    using b(2,4) ok new entry_fee_of [OF ok new]
    by (auto simp: book_ok_def dict_ok_def map_of_eq_None_iff split: if_splits)
qed

lemma update_position_ok [preserves]:
  assumes p: "map_of (positions s) key = Some p" and ok: "book_ok s"
  shows "book_ok (update_position shown now p r price key s)"
proof (cases "is_closing p r")
  case True
  note b = update_position_books [OF True, of shown now price key s]
  show ?thesis
    using ok p unfolding book_ok_def b(1,2,5) by auto
next
  case False
  with ok show ?thesis by (simp add: update_position_def)
qed

lemma recently_frame [simp]:
  "book_ok (s\<lparr>recently_closed := x\<rparr>) = book_ok s" "book_ok (update_peak s) = book_ok s"
  "ledger (s\<lparr>recently_closed := x\<rparr>) = ledger s" "ledger (update_peak s) = ledger s"
  by (simp_all add: book_ok_def ledger_def)

lemma on_order_filled_ok [preserves]: "book_ok s \<Longrightarrow> book_ok (on_order_filled shown now i r s)"
  using open_position_ok update_position_ok
  by (auto simp: on_order_filled_def Let_def split: option.split)

lemma on_order_filled_ledger:
  assumes "book_ok s" and "\<And>price. average_fill_price r = Some price \<Longrightarrow> regular_fill r price s"
  shows "ledger (on_order_filled shown now i r s) = ledger s"
proof (cases "average_fill_price r")
  case None
  then show ?thesis by (simp add: on_order_filled_def)
next
  case (Some price)
  note reg = assms(2) [OF Some]
  show ?thesis
  proof (cases "map_of (positions s) (symbol_str (rsymbol r))")
    case None
    with Some open_position_ledger [OF None assms(1) reg] show ?thesis
      by (simp add: on_order_filled_def Let_def)
  next
    case (Some p)
    with \<open>average_fill_price r = Some price\<close> update_position_ledger [OF _ reg Some _ assms(1), of shown now]
    show ?thesis
      by (cases "is_closing p r") (simp_all add: on_order_filled_def Let_def update_position_def)
  qed
qed

lemma fold_upsert_frame [simp]:
  "cash (fold persist_position_upsert ps s) = cash s"
  "positions (fold persist_position_upsert ps s) = positions s"
  "entry_fees (fold persist_position_upsert ps s) = entry_fees s"
  "trade_history (fold persist_position_upsert ps s) = trade_history s"
  "on_opened (fold persist_position_upsert ps s) = on_opened s"
  "pf_mode (fold persist_position_upsert ps s) = pf_mode s"
  "recently_closed (fold persist_position_upsert ps s) = recently_closed s"
  by (induction ps arbitrary: s) simp_all

lemma entry_value_reprice [simp]: "entry_value (reprice prices p) = entry_value p"
  by (simp add: reprice_def marked_to_market_def entry_value_def split: option.split)

lemma map_of_repriced: "map_of (map (\<lambda>(k, p). (k, f p)) d) k = map_option f (map_of d k)"
  by (induction d) auto

lemma update_prices_positions [simp]:
  "positions (update_prices prices s) = map (\<lambda>(k, p). (k, reprice prices p)) (positions s)"
  by (simp add: update_prices_def Let_def)

lemma update_prices_ok [preserves]: "book_ok s \<Longrightarrow> book_ok (update_prices prices s)"
  by (simp add: book_ok_def map_of_repriced, simp add: update_prices_def Let_def dict_ok_def comp_def case_prod_beta)

lemma update_prices_ledger: "ledger (update_prices prices s) = ledger s"
  by (simp add: ledger_def comp_def case_prod_beta, simp add: update_prices_def Let_def)

text \<open>What reaches a portfolio: fills, with the time and a fresh identifier, and prices.\<close>

datatype pf_event = Fill time nat order_result | Prices "(string, dec) dict"

fun pf_step :: "shown \<Rightarrow> portfolio \<Rightarrow> pf_event \<Rightarrow> portfolio" where
  "pf_step shown s (Fill now i r) = on_order_filled shown now i r s"
| "pf_step shown s (Prices prices) = update_prices prices s"

interpretation books: stateful "pf_step shown" book_ok
proof
  fix s e
  assume "book_ok s"
  then show "book_ok (pf_step shown s e)"
    by (cases e) (simp_all add: on_order_filled_ok update_prices_ok)
qed

fun regular_run :: "shown \<Rightarrow> portfolio \<Rightarrow> pf_event list \<Rightarrow> bool" where
  "regular_run shown s [] = True"
| "regular_run shown s (e # es) \<longleftrightarrow>
     (case e of
        Fill now i r \<Rightarrow> (case average_fill_price r of None \<Rightarrow> True | Some price \<Rightarrow> regular_fill r price s)
      | Prices prices \<Rightarrow> True) \<and> regular_run shown (pf_step shown s e) es"

lemma run_ledger:
  "book_ok s \<Longrightarrow> regular_run shown s es \<Longrightarrow> ledger (run (pf_step shown) s es) = ledger s"
proof (induction es arbitrary: s)
  case (Cons e es)
  have "ledger (pf_step shown s e) = ledger s"
    using Cons.prems by (cases e) (auto simp: update_prices_ledger intro!: on_order_filled_ledger)
  moreover have "book_ok (pf_step shown s e)" by (rule books.step_ok [OF Cons.prems(1)])
  ultimately show ?case using Cons by simp
qed simp

lemma new_portfolio_books: "book_ok (new_portfolio m c u pdb tdb)" "ledger (new_portfolio m c u pdb tdb) = dval c"
  by (simp_all add: new_portfolio_def book_ok_def ledger_def)

text \<open>
  C21. The books balance: after any sequence of fills and price updates, the cash, the entry value of the
  open positions (a short one counted negatively) and the entry fees that are still to be charged add up to the
  initial cash plus the realised results of all trades. Nothing is booked twice or lost, whether a position is opened,
  reduced or closed, long or short. The numbers have to fit the decimal context without rounding, and a
  protection hook must not change what the position is.
\<close>

theorem books_balance:
  assumes "regular_run shown (set_protection_hooks hook oc (new_portfolio m initial u pdb tdb)) es"
    and "case hook of None \<Rightarrow> True | Some h \<Rightarrow> hook_keeps h"
  defines "s \<equiv> run (pf_step shown) (set_protection_hooks hook oc (new_portfolio m initial u pdb tdb)) es"
  shows "dval (cash s) + sum_list (map (entry_value \<circ> snd) (positions s)) +
      sum_list (map (dval \<circ> snd) (entry_fees s)) =
    dval initial + sum_list (map dval (map t_realized_pnl (trade_history s)))"
proof -
  let ?s0 = "set_protection_hooks hook oc (new_portfolio m initial u pdb tdb)"
  have "book_ok ?s0" "ledger ?s0 = dval initial"
    using assms(2) new_portfolio_books [of m initial u pdb tdb]
    by (auto simp: set_protection_hooks_def book_ok_def ledger_def)
  with run_ledger [OF _ assms(1)] have "ledger s = dval initial" by (simp add: s_def)
  then show ?thesis by (simp add: ledger_def)
qed

lemma set_fold_insert: "set (fold List.insert xs ys) = set xs \<union> set ys"
  by (induction xs arbitrary: ys) auto

text \<open>
  The late fill of a protective order does nothing: after a fill that closes a position completely, a fill
  of its stop-loss or take-profit order for the same symbol opens no position in the opposite direction and
  books no cash, fee or trade.
\<close>

theorem sibling_fill_dropped:
  fixes shown now i now2 i2
  assumes p: "map_of (positions s) (symbol_str (rsymbol r)) = Some p" and c: "is_closing p r"
    and r: "status r = FILLED" "average_fill_price r = Some price" "pquantity p \<le> filled_quantity r"
      "0 < filled_quantity r"
    and r2: "exchange_order_id r2 \<in> set (protective_ids p)" "rsymbol r2 = rsymbol r"
    and ok: "book_ok s"
  defines "s1 \<equiv> on_order_filled shown now i r s"
  defines "s2 \<equiv> on_order_filled shown now2 i2 r2 s1"
  shows "map_of (positions s1) (symbol_str (rsymbol r)) = None \<and> positions s2 = positions s1 \<and> cash s2 = cash s1 \<and>
    entry_fees s2 = entry_fees s1 \<and> trade_history s2 = trade_history s1"
proof -
  let ?key = "symbol_str (rsymbol r)"
  have full: "pquantity p \<le> close_quantity p r" using r(3) by (simp add: close_quantity_def)
  have s1: "s1 = update_peak (update_position shown now p r price ?key s)"
    using r p by (simp add: s1_def on_order_filled_def Let_def)
  note b = update_position_books [OF c, of shown now price ?key s]
  have pos: "positions s1 = AList.delete ?key (positions s)" using b(1) full by (simp add: s1)
  have "set (protective_ids p) \<subseteq> set (recently_closed s1)"
    using c full by (simp add: s1 update_position_def close_fully_def Let_def set_fold_insert)
  with r2(1) have "exchange_order_id r2 \<in> set (recently_closed s1)" by blast
  then have "s2 = s1 \<or> s2 = s1\<lparr>recently_closed := removeAll (exchange_order_id r2) (recently_closed s1)\<rparr>"
    using r2(2) pos by (auto simp: s2_def on_order_filled_def Let_def split: option.split)
  then show ?thesis using pos by auto
qed

text \<open>
  What a fill can do to an open position: it never enlarges or flips it. A fill on the side of the
  position leaves it as it is, one on the other side reduces it and removes it when the filled quantity
  reaches its size; what is filled beyond that does not open a position.
\<close>

theorem fill_never_enlarges_or_flips:
  assumes p: "map_of (positions s) (symbol_str (rsymbol r)) = Some p" and q: "is_dec (pquantity p)"
    and pos: "0 < pquantity p"
  shows "case map_of (positions (on_order_filled shown now i r s)) (symbol_str (rsymbol r)) of
      None \<Rightarrow> is_closing p r \<and> pquantity p \<le> filled_quantity r
    | Some p1 \<Rightarrow> if is_closing p r then pside p1 = pside p \<and> pquantity p1 \<le> pquantity p else p1 = p"
proof -
  have less: "rnd_dec (dval (pquantity p) - dval (close_quantity p r)) \<le> dval (pquantity p)"
    if "0 < dval (filled_quantity r)"
    using that pos q by (intro dec.rnd_le_exact) (auto simp: close_quantity_def is_dec_def)
  have close: "pquantity p \<le> close_quantity p r \<Longrightarrow> pquantity p \<le> filled_quantity r"
    by (simp add: close_quantity_def)
  show ?thesis
    using p less close
    by (auto simp: on_order_filled_def Let_def update_position_def close_fully_def close_partly_def
        split: option.split)
qed

section \<open>Examples\<close>

definition demo_fill :: "string \<Rightarrow> int \<Rightarrow> int \<Rightarrow> string \<Rightarrow> order_result" where
  "demo_fill dir q price exid = \<lparr>request_id = 1, exchange_order_id = exid,
     rsymbol = \<lparr>base = ''BTC'', quote = ''USDT'', sym_exchange = BINANCE, asset = ASSET_FUTURES\<rparr>, status = FILLED,
     filled_quantity = Dec (of_int q), average_fill_price = Some (Dec (of_int price)), fees = Dec 1,
     submitted_at = 3, filled_at = None, rmode = PAPER, raw_response = [(''side'', PyStr dir)]\<rparr>"

definition demo_position :: position where
  "demo_position = \<lparr>pid = 1, psymbol = \<lparr>base = ''BTC'', quote = ''USDT'', sym_exchange = BINANCE, asset = ASSET_FUTURES\<rparr>,
     pside = LONG, pquantity = Dec 2, entry_price = Dec 20, current_price = Dec 20, leverage = 1,
     unrealized_pnl = 0, realized_pnl = 0, opened_at = 2, strategy_name = ''momentum'', pmode = PAPER,
     stop_loss_price = Some (Dec 10), take_profit_price = Some (Dec 30), max_holding_until = None,
     sl_order_id = Some ''SL1'', tp_order_id = Some ''TP1'', entry_regime = None\<rparr>"

definition demo_portfolio :: portfolio where
  "demo_portfolio = (new_portfolio PAPER (Dec 100) (Some ''t1'') (Some []) None)
     \<lparr>positions := [(''BTC/USDT:binance'', demo_position)], entry_fees := [(''BTC/USDT:binance'', Dec 1)]\<rparr>"

lemma demo_numbers: "unit_number (of_int k)" "amount (of_int k)" if "\<bar>k\<bar> \<le> 1000"
proof -
  have "\<bar>of_int k :: rat\<bar> = of_int \<bar>k\<bar>" by simp
  also have "\<dots> \<le> of_int 1000" using that of_int_le_iff by blast
  finally have "\<bar>of_int k :: rat\<bar> \<le> 10 ^ 11" by simp
  moreover have "on_grid s (of_int k)" for s by (simp add: on_grid_def)
  ultimately show "unit_number (of_int k)" "amount (of_int k)" by (simp_all add: unit_number_def amount_def)
qed

lemma demo_bookings: "unit_number 2" "unit_number 20" "amount 1" "amount 100" "amount 59"
  using demo_numbers [of 2] demo_numbers [of 20] demo_numbers [of 1] demo_numbers [of 100] demo_numbers [of 59] by simp_all

theorem books_balance_witness:
  "dval (cash (run (pf_step (\<lambda>v. [])) (set_protection_hooks None False
      (new_portfolio PAPER (Dec 100) (Some ''t1'') (Some []) None)) [Fill 5 1 (demo_fill ''buy'' 2 20 ''X1'')])) + 40 + 1
   = 100"
proof -
  let ?s0 = "set_protection_hooks None False (new_portfolio PAPER (Dec 100) (Some ''t1'') (Some []) None)"
  let ?es = "[Fill 5 1 (demo_fill ''buy'' 2 20 ''X1'')]"
  have "regular_run (\<lambda>v. []) ?s0 ?es"
    using demo_bookings
    by (simp add: regular_fill_def demo_fill_def set_protection_hooks_def new_portfolio_def)
  from books_balance [OF this] show ?thesis
    by (simp add: demo_fill_def on_order_filled_def Let_def set_protection_hooks_def new_portfolio_def
        open_position_def protect_def opened_position_def infer_side_def py_get_def
        ascii_lower_def entry_value_def rnd_dec_grid_0)
qed

lemma demo_closing:
  "map_of (positions demo_portfolio) (symbol_str (rsymbol (demo_fill ''sell'' q price i))) = Some demo_position"
  "is_closing demo_position (demo_fill ''sell'' q price i)" "book_ok demo_portfolio"
  by (simp_all add: demo_portfolio_def demo_fill_def symbol_str_def is_closing_def demo_position_def infer_side_def
      py_get_def ascii_lower_def book_ok_def new_portfolio_def)

theorem sibling_fill_dropped_witness:
  "positions (on_order_filled (\<lambda>v. []) 7 9 (demo_fill ''sell'' 2 30 ''SL1'')
      (on_order_filled (\<lambda>v. []) 6 8 (demo_fill ''sell'' 2 30 ''TP1'') demo_portfolio)) =
   positions (on_order_filled (\<lambda>v. []) 6 8 (demo_fill ''sell'' 2 30 ''TP1'') demo_portfolio)"
  using sibling_fill_dropped [where r = "demo_fill ''sell'' 2 30 ''TP1''" and ?r2.0 = "demo_fill ''sell'' 2 30 ''SL1''"
      and s = demo_portfolio and p = demo_position and price = "Dec 30" and shown = "\<lambda>v. []"
      and now = 6 and i = 8 and ?now2.0 = 7 and ?i2.0 = 9] demo_closing(1) [of 2 30 "''TP1''"]
    demo_closing(2) [of 2 30 "''TP1''"] demo_closing(3)
  by (simp add: demo_fill_def demo_position_def protective_ids_def)

theorem fill_never_enlarges_or_flips_witness:
  "case map_of (positions (on_order_filled (\<lambda>v. []) 6 8 (demo_fill ''sell'' 1 30 ''X2'') demo_portfolio))
      ''BTC/USDT:binance'' of None \<Rightarrow> True | Some p1 \<Rightarrow> pside p1 = LONG \<and> dval (pquantity p1) \<le> 2"
proof -
  have dec: "is_dec (pquantity demo_position)" by (simp add: demo_position_def is_dec_def rnd_dec_grid_0)
  have key: "symbol_str (rsymbol (demo_fill dir q price i)) = ''BTC/USDT:binance''" for dir q price i
    by (simp add: demo_fill_def symbol_str_def)
  have p: "pside demo_position = LONG" "pquantity demo_position = Dec 2" by (simp_all add: demo_position_def)
  have pos: "0 < pquantity demo_position" by (simp add: p)
  show ?thesis
    using fill_never_enlarges_or_flips [OF demo_closing(1) dec pos, where shown = "\<lambda>v. []" and now = 6 and i = 8
        and q1 = 1 and price1 = 30 and i1 = "''X2''"]
    unfolding key p by (auto simp: demo_closing(2) split: option.splits)
qed

end
