(* ===== verification/Portfolio_Recovery.thy ===== *)
theory Portfolio_Recovery
  imports Portfolio_Engine
begin

text \<open>
  The copy of the open positions in the database (\<open>PositionRepository\<close>) against the positions in memory
  of \<open>PortfolioEngine\<close>: after any run it holds exactly the open positions of its tenant and mode, so that
  \<open>restore_from_persistence\<close> gives them back to a restarted process.
\<close>

section \<open>Keys\<close>

lemma symbol_str_rev: "rev (symbol_str y) = rev (exchange_value (sym_exchange y)) @ CHR '':'' # rev (ccxt_symbol y)"
  by (simp add: symbol_str_def ccxt_symbol_def)

lemma symbol_str_slot:
  "symbol_str y = symbol_str z \<longleftrightarrow> ccxt_symbol y = ccxt_symbol z \<and> sym_exchange y = sym_exchange z"
proof
  assume "symbol_str y = symbol_str z"
  then have "rev (exchange_value (sym_exchange y)) @ CHR '':'' # rev (ccxt_symbol y) =
      rev (exchange_value (sym_exchange z)) @ CHR '':'' # rev (ccxt_symbol z)"
    by (simp flip: symbol_str_rev)
  then show "ccxt_symbol y = ccxt_symbol z \<and> sym_exchange y = sym_exchange z"
    by (cases "sym_exchange y"; cases "sym_exchange z") simp_all
next
  assume "ccxt_symbol y = ccxt_symbol z \<and> sym_exchange y = sym_exchange z"
  then show "symbol_str y = symbol_str z" by (simp add: symbol_str_def ccxt_symbol_def)
qed

section \<open>The table\<close>

definition mine :: "trading_mode \<Rightarrow> string option \<Rightarrow> position_row \<Rightarrow> bool" where
  "mine m u w \<longleftrightarrow> pmode (pr_position w) = m \<and> pr_open w \<and> pr_user w = u"

definition open_of :: "trading_mode \<Rightarrow> string option \<Rightarrow> position_table \<Rightarrow> position set" where
  "open_of m u t = set (map pr_position (filter (mine m u) t))"

lemma same_slot_mine:
  "same_slot u p w \<longleftrightarrow> mine (pmode p) u w \<and> symbol_str (psymbol (pr_position w)) = symbol_str (psymbol p)"
  by (auto simp: same_slot_def mine_def symbol_str_slot)

definition row_ids :: "position_table \<Rightarrow> nat list" where
  "row_ids t = map (\<lambda>w. pid (pr_position w)) t"

definition fresh_row :: "string option \<Rightarrow> position \<Rightarrow> position_row" where
  "fresh_row u p = \<lparr>pr_position = p, pr_user = u, pr_open = True, pr_closed_at = None, pr_reason = None\<rparr>"

lemma upsert_open_cases:
  obtains (insert) "\<forall>w \<in> set t. \<not> same_slot u p w" "upsert_open u p t = t @ [fresh_row u p]"
  | (update) xs w ys where "t = xs @ w # ys" "same_slot u p w" "upsert_open u p t = xs @ overwrite_row p w # ys"
proof (induction t arbitrary: thesis)
  case Nil
  then show ?case by (simp add: fresh_row_def)
next
  case (Cons w t)
  show ?case
  proof (cases "same_slot u p w")
    case True
    with Cons.prems(2) [of "[]" w t] show ?thesis by simp
  next
    case False
    show ?thesis
    proof (rule Cons.IH)
      assume "\<forall>w \<in> set t. \<not> same_slot u p w" "upsert_open u p t = t @ [fresh_row u p]"
      with False Cons.prems(1) show thesis by simp
    next
      fix xs v ys
      assume "t = xs @ v # ys" "same_slot u p v" "upsert_open u p t = xs @ overwrite_row p v # ys"
      with False Cons.prems(2) [of "w # xs" v ys] show thesis by simp
    qed
  qed
qed

lemma upsert_new:
  assumes "\<forall>w \<in> set t. \<not> same_slot u p w"
  shows "upsert_open u p t = t @ [fresh_row u p]"
  by (rule upsert_open_cases [of t u p]) (use assms in auto)

lemma open_of_insert [simp]:
  "open_of m u (t @ [fresh_row u p]) = (if pmode p = m then insert p (open_of m u t) else open_of m u t)"
  by (simp add: open_of_def fresh_row_def mine_def)

lemma row_ids_insert [simp]: "row_ids (t @ [fresh_row u p]) = row_ids t @ [pid p]"
  by (simp add: row_ids_def fresh_row_def)

lemma distinct_ids_row: "distinct (row_ids t) \<Longrightarrow> v \<in> set t \<Longrightarrow> w \<in> set t \<Longrightarrow>
    pid (pr_position v) = pid (pr_position w) \<Longrightarrow> v = w"
  by (auto simp: row_ids_def distinct_map dest: inj_onD)

text \<open>An update of a position that kept its identity replaces exactly that position.\<close>

lemma upsert_known:
  assumes d: "distinct (row_ids t)" and p0: "p0 \<in> open_of m u t" and m: "pmode p = m"
    and keep: "pid p = pid p0" "psymbol p = psymbol p0" "opened_at p = opened_at p0"
    and one: "\<And>q. q \<in> open_of m u t \<Longrightarrow> symbol_str (psymbol q) = symbol_str (psymbol p0) \<Longrightarrow> q = p0"
  shows "row_ids (upsert_open u p t) = row_ids t"
    and "open_of m u (upsert_open u p t) = insert p (open_of m u t - {p0})"
proof -
  obtain w0 where w0: "w0 \<in> set t" "mine m u w0" "pr_position w0 = p0"
    using p0 by (auto simp: open_of_def)
  have m0: "pmode p0 = m" using w0 by (auto simp: mine_def)
  show "row_ids (upsert_open u p t) = row_ids t"
    by (rule upsert_open_cases [of t u p]) (use w0 keep m m0 in \<open>auto simp: row_ids_def overwrite_row_def same_slot_mine\<close>)
  show "open_of m u (upsert_open u p t) = insert p (open_of m u t - {p0})"
  proof (rule upsert_open_cases [of t u p])
    assume "\<forall>w \<in> set t. \<not> same_slot u p w"
    with w0 keep m show ?thesis by (auto simp: same_slot_mine)
  next
    fix xs w ys
    assume t: "t = xs @ w # ys" and s: "same_slot u p w" and u: "upsert_open u p t = xs @ overwrite_row p w # ys"
    have w: "mine m u w" "pr_position w = p0"
      using s t m keep one [of "pr_position w"] by (auto simp: same_slot_mine open_of_def)
    have "p\<lparr>pid := pid p0, psymbol := psymbol p0, pmode := pmode p0, opened_at := opened_at p0\<rparr> = p"
      by (subst keep [symmetric])+ (simp add: m m0 [symmetric])
    then have o: "mine m u (overwrite_row p w)" "pr_position (overwrite_row p w) = p"
      using w by (simp_all add: overwrite_row_def mine_def m0 m)
    have other: "pr_position v \<noteq> p0" if "v \<in> set xs \<union> set ys" for v
    proof
      assume "pr_position v = p0"
      then have "v = w" using distinct_ids_row [OF d, of v w] that w t by auto
      with that d t show False by (auto simp: row_ids_def)
    qed
    show ?thesis
      unfolding u open_of_def using o w(1)
      by (auto simp: t w(2)) (use other in blast)+
  qed
qed

lemma close_known:
  assumes d: "distinct (row_ids t)" and p0: "p0 \<in> open_of m u t"
  shows "row_ids (close_position_row (pid p0) now x why t) = row_ids t"
    and "open_of m u (close_position_row (pid p0) now x why t) = open_of m u t - {p0}"
proof -
  show "row_ids (close_position_row (pid p0) now x why t) = row_ids t"
    by (auto simp: row_ids_def close_position_row_def close_row_def)
  obtain w0 where w0: "w0 \<in> set t" "mine m u w0" "pr_position w0 = p0" using p0 by (auto simp: open_of_def)
  have closed: "\<not> mine m u (close_row now x why w)" for w by (simp add: mine_def close_row_def)
  have "pid (pr_position w) = pid p0 \<longleftrightarrow> w = w0" if "w \<in> set t" for w
    using that w0 distinct_ids_row [OF d that w0(1)] by auto
  moreover have "pr_position w = p0 \<longleftrightarrow> w = w0" if "w \<in> set t" for w
    using that w0 distinct_ids_row [OF d that w0(1)] by auto
  ultimately show "open_of m u (close_position_row (pid p0) now x why t) = open_of m u t - {p0}"
    using closed by (fastforce simp: open_of_def close_position_row_def)
qed

section \<open>Mirror\<close>

text \<open>
  The invariant: the database works, every position is filed under its symbol and belongs to the mode of
  the engine, and the open rows of the tenant are the positions in memory.
\<close>

definition mirrored :: "portfolio \<Rightarrow> bool" where
  "mirrored s \<longleftrightarrow> position_db_up s \<and>
     (\<forall>(k, p) \<in> set (positions s). k = symbol_str (psymbol p) \<and> pmode p = pf_mode s) \<and>
     (\<exists>t. position_db s = Some t \<and> distinct (row_ids t) \<and>
        open_of (pf_mode s) (pf_tenant s) t = set (dict_values (positions s)))"

lemma db_frame [simp, frame]:
  "position_db (persist_trade tr s) = position_db s" "position_db_up (persist_trade tr s) = position_db_up s"
  "pf_tenant (persist_trade tr s) = pf_tenant s"
  "position_db (update_peak s) = position_db s" "position_db_up (update_peak s) = position_db_up s"
  "pf_tenant (update_peak s) = pf_tenant s"
  "position_db (book_live_loss r x s) = position_db s" "position_db_up (book_live_loss r x s) = position_db_up s"
  "pf_tenant (book_live_loss r x s) = pf_tenant s"
  "position_db_up (persist_position_upsert p s) = position_db_up s"
  "pf_tenant (persist_position_upsert p s) = pf_tenant s"
  "position_db_up (persist_position_close i now y why s) = position_db_up s"
  "pf_tenant (persist_position_close i now y why s) = pf_tenant s"
  by (simp_all add: persist_trade_def update_peak_def book_live_loss_def persist_position_upsert_def
      persist_position_close_def split: option.split)

lemma record_db_frame [simp, frame]:
  "position_db (record_closed_trade now p price qty x f why s) = position_db s"
  "position_db_up (record_closed_trade now p price qty x f why s) = position_db_up s"
  "pf_tenant (record_closed_trade now p price qty x f why s) = pf_tenant s"
  "pf_mode (record_closed_trade now p price qty x f why s) = pf_mode s"
  by (simp_all add: record_closed_trade_def Let_def)

lemma mirrored_frame [simp]:
  "mirrored (update_peak s) = mirrored s" "mirrored (s\<lparr>recently_closed := l\<rparr>) = mirrored s"
  "mirrored (s\<lparr>closed_calls := cs\<rparr>) = mirrored s"
  "mirrored (record_closed_trade now p price qty x f why (book_live_loss r y s)) = mirrored s"
  by (simp_all add: mirrored_def)

lemma values_update:
  "dict_ok d \<Longrightarrow> set (dict_values (AList.update k w d)) = insert w (snd ` {e \<in> set d. fst e \<noteq> k})"
  by (simp add: dict_values_def set_update_dict)

lemma values_delete: "set (dict_values (AList.delete k d)) = snd ` {e \<in> set d. fst e \<noteq> k}"
  by (simp add: dict_values_def set_delete_dict)

text \<open>The values filed under other keys: all but the one of the key, as every value belongs to its key.\<close>

lemma values_without:
  assumes "dict_ok d" and "map_of d k = Some v" and "\<And>k v. (k, v) \<in> set d \<Longrightarrow> k = f v"
  shows "snd ` {e \<in> set d. fst e \<noteq> k} = set (dict_values d) - {v}"
proof -
  have kv: "(k, v) \<in> set d" using assms(1,2) by (simp add: dict_ok_lookup)
  have other: "k1 \<noteq> k \<longleftrightarrow> x \<noteq> v" if "(k1, x) \<in> set d" for k1 x
  proof
    show "k1 \<noteq> k \<Longrightarrow> x \<noteq> v" using assms(3) [OF that] assms(3) [OF kv] by blast
    show "x \<noteq> v \<Longrightarrow> k1 \<noteq> k" using that assms(1,2) dict_ok_lookup [of d k1 x] by auto
  qed
  then have "{e \<in> set d. fst e \<noteq> k} = {e \<in> set d. snd e \<noteq> v}" by fastforce
  then show ?thesis by (auto simp: dict_values_def)
qed

text \<open>The three ways an operation changes the positions keep the mirror.\<close>

lemma mirrored_insert:
  assumes m: "mirrored s" and ok: "dict_ok (positions s)" and new: "map_of (positions s) (symbol_str (psymbol p)) = None"
    and p: "pmode p = pf_mode s" and fresh: "pid p \<notin> set (row_ids (the (position_db s)))"
  shows "mirrored (persist_position_upsert p (s\<lparr>positions := AList.update (symbol_str (psymbol p)) p (positions s),
    cash := c, entry_fees := f\<rparr>))"
proof -
  obtain t where t: "position_db s = Some t" using m by (auto simp: mirrored_def)
  have "\<not> same_slot (pf_tenant s) p w" if "w \<in> set t" for w
  proof
    assume "same_slot (pf_tenant s) p w"
    then have "pr_position w \<in> open_of (pf_mode s) (pf_tenant s) t"
      and y: "symbol_str (psymbol (pr_position w)) = symbol_str (psymbol p)"
      using that p by (auto simp: same_slot_mine open_of_def)
    then have "pr_position w \<in> set (dict_values (positions s))" using m t by (simp add: mirrored_def)
    then obtain k where "(k, pr_position w) \<in> set (positions s)" by (auto simp: dict_values_def)
    moreover from this have "k = symbol_str (psymbol p)" using m y by (auto simp: mirrored_def)
    ultimately show False using new by (auto simp: map_of_eq_None_iff image_iff)
  qed
  then have "upsert_open (pf_tenant s) p t = t @ [fresh_row (pf_tenant s) p]" by (intro upsert_new) blast
  then show ?thesis
    using m t p fresh new
    by (auto simp: mirrored_def persist_position_upsert_def update_new_key dict_values_def)
qed

lemma mirrored_replace:
  assumes m: "mirrored s" and ok: "dict_ok (positions s)"
    and p0: "map_of (positions s) (symbol_str (psymbol p)) = Some p0"
    and keep: "pid p = pid p0" "psymbol p = psymbol p0" "opened_at p = opened_at p0" "pmode p = pmode p0"
  shows "mirrored (persist_position_upsert p (s\<lparr>positions := AList.update (symbol_str (psymbol p)) p (positions s),
    cash := c, entry_fees := f\<rparr>))"
proof -
  let ?k = "symbol_str (psymbol p)"
  obtain t where t: "position_db s = Some t" using m by (auto simp: mirrored_def)
  have d: "distinct (row_ids t)" and o: "open_of (pf_mode s) (pf_tenant s) t = set (dict_values (positions s))"
    and up: "position_db_up s" and filed: "\<And>k q. (k, q) \<in> set (positions s) \<Longrightarrow> k = symbol_str (psymbol q)"
      "\<And>k q. (k, q) \<in> set (positions s) \<Longrightarrow> pmode q = pf_mode s"
    using m t by (auto simp: mirrored_def)
  have in0: "(?k, p0) \<in> set (positions s)" using ok p0 by (simp add: dict_ok_lookup)
  then have p0o: "p0 \<in> open_of (pf_mode s) (pf_tenant s) t" unfolding o by (force simp: dict_values_def)
  have pm: "pmode p = pf_mode s" using keep(4) filed(2) [OF in0] by simp
  have one: "q = p0" if "q \<in> open_of (pf_mode s) (pf_tenant s) t" "symbol_str (psymbol q) = symbol_str (psymbol p0)" for q
  proof -
    have "q \<in> set (dict_values (positions s))" using that(1) o by simp
    then obtain k where "(k, q) \<in> set (positions s)" by (auto simp: dict_values_def)
    then have "(symbol_str (psymbol q), q) \<in> set (positions s)" using filed(1) by blast
    then show ?thesis using that(2) keep(2) ok p0 by (simp add: dict_ok_lookup [symmetric])
  qed
  note u = upsert_known [OF d p0o pm keep(1-3) one]
  have v: "set (dict_values (AList.update ?k p (positions s))) = insert p (set (dict_values (positions s)) - {p0})"
    unfolding values_update [OF ok] by (subst values_without [OF ok p0 filed(1)]) auto
  have f: "\<And>k q. (k, q) \<in> set (AList.update ?k p (positions s)) \<Longrightarrow> k = symbol_str (psymbol q) \<and> pmode q = pf_mode s"
    using filed pm by (auto simp: set_update_dict [OF ok])
  show ?thesis
    using t up u v f d o by (auto simp: mirrored_def persist_position_upsert_def)
qed

lemma mirrored_delete:
  assumes m: "mirrored s" and ok: "dict_ok (positions s)" and p: "map_of (positions s) k = Some p"
  shows "mirrored (persist_position_close (pid p) now x why (s\<lparr>positions := AList.delete k (positions s),
    entry_fees := f, cash := c\<rparr>))"
proof -
  obtain t where t: "position_db s = Some t" using m by (auto simp: mirrored_def)
  have d: "distinct (row_ids t)" and o: "open_of (pf_mode s) (pf_tenant s) t = set (dict_values (positions s))"
    and up: "position_db_up s" and filed: "\<And>k q. (k, q) \<in> set (positions s) \<Longrightarrow> k = symbol_str (psymbol q)"
      "\<And>k q. (k, q) \<in> set (positions s) \<Longrightarrow> pmode q = pf_mode s"
    using m t by (auto simp: mirrored_def)
  have "(k, p) \<in> set (positions s)" using ok p by (simp add: dict_ok_lookup)
  then have "p \<in> open_of (pf_mode s) (pf_tenant s) t" unfolding o by (force simp: dict_values_def)
  note c = close_known [OF d this, of now x why]
  have v: "set (dict_values (AList.delete k (positions s))) = set (dict_values (positions s)) - {p}"
    unfolding values_delete by (rule values_without [OF ok p filed(1)])
  show ?thesis
    using t up c v d o filed by (auto simp: mirrored_def persist_position_close_def set_delete_dict)
qed

section \<open>Fills and prices\<close>

lemma mirrored_protect:
  assumes m: "mirrored s" and ok: "dict_ok (positions s)"
    and p: "map_of (positions s) (symbol_str (psymbol p)) = Some p"
    and hook: "case on_opened s of None \<Rightarrow> True | Some h \<Rightarrow> hook_keeps h"
  shows "mirrored (protect (symbol_str (psymbol p)) p raw s)"
proof (cases "\<exists>h q. on_opened s = Some h \<and> h p raw = Inr (Some q)")
  case True
  then obtain h q where h: "on_opened s = Some h" "h p raw = Inr (Some q)" by blast
  with hook have c: "same_core p q" by (auto simp: hook_keeps_def)
  then have q: "map_of (positions s) (symbol_str (psymbol q)) = Some p" using p by (simp add: same_core_def)
  from mirrored_replace [OF m ok q, where c = "cash s" and f = "entry_fees s"] h c show ?thesis
    by (simp add: protect_def same_core_def)
next
  case False
  then have "protect (symbol_str (psymbol p)) p raw s = s"
    by (auto simp: protect_def split: option.split sum.split)
  with m show ?thesis by simp
qed

lemma mirrored_open_position:
  assumes m: "mirrored s" and ok: "book_ok s" and new: "map_of (positions s) (symbol_str (rsymbol r)) = None"
    and fresh: "i \<notin> set (row_ids (the (position_db s)))"
  shows "mirrored (open_position shown now i r price (symbol_str (rsymbol r)) s)"
proof -
  let ?p = "opened_position shown now i r price (pf_mode s)"
  have p: "psymbol ?p = rsymbol r" "pmode ?p = pf_mode s" "pid ?p = i" by (simp_all add: opened_position_def)
  define c where "c = (if pside ?p = LONG then cash s - (filled_quantity r * price + fees r)
    else cash s + (filled_quantity r * price - fees r))"
  let ?s1 = "persist_position_upsert ?p (s\<lparr>positions := AList.update (symbol_str (psymbol ?p)) ?p (positions s),
     cash := c, entry_fees := AList.update (symbol_str (rsymbol r)) (fees r) (entry_fees s)\<rparr>)"
  have "mirrored ?s1"
    using m ok new fresh by (intro mirrored_insert) (simp_all add: p book_ok_def)
  then have "mirrored (protect (symbol_str (psymbol ?p)) ?p (raw_response r) ?s1)"
    using ok by (intro mirrored_protect) (simp_all add: book_ok_def)
  then show ?thesis by (simp add: open_position_def Let_def p c_def)
qed

lemma mirrored_update_position:
  assumes m: "mirrored s" and ok: "book_ok s" and p: "map_of (positions s) (symbol_str (rsymbol r)) = Some p"
  shows "mirrored (update_position shown now p r price (symbol_str (rsymbol r)) s)"
proof (cases "is_closing p r")
  case True
  let ?key = "symbol_str (rsymbol r)" and ?x = "realized_by p r price (symbol_str (rsymbol r)) s"
  define s1 where "s1 = record_closed_trade now p price (close_quantity p r) ?x
    (fees r + fee_share p r ?key s) (close_reason shown r) (book_live_loss r ?x s)"
  have m1: "mirrored s1" and ok1: "dict_ok (positions s1)" and p1: "map_of (positions s1) ?key = Some p"
    using m ok p by (simp_all add: s1_def book_ok_def)
  have "?key = symbol_str (psymbol p)"
    using m ok p by (auto simp: mirrored_def book_ok_def dict_ok_lookup)
  then have p2: "map_of (positions s1) (symbol_str (psymbol q)) = Some p" "symbol_str (psymbol q) = ?key"
    if "psymbol q = psymbol p" for q using p1 that by simp_all
  show ?thesis
  proof (cases "pquantity p \<le> close_quantity p r")
    case c: True
    from mirrored_delete [OF m1 ok1 p1] True c show ?thesis
      by (simp add: update_position_def close_fully_def Let_def s1_def [symmetric])
  next
    case c: False
    define q where "q = p\<lparr>pquantity := pquantity p - close_quantity p r, current_price := price,
      unrealized_pnl := 0, realized_pnl := realized_pnl p + ?x\<rparr>"
    have q: "psymbol q = psymbol p" "pid q = pid p" "opened_at q = opened_at p" "pmode q = pmode p"
      by (simp_all add: q_def)
    let ?f = "AList.update ?key (remaining_fee ?key s1 - fee_share p r ?key s1) (entry_fees s1)"
    have "update_position shown now p r price ?key s = persist_position_upsert q
        (s1\<lparr>positions := AList.update ?key q (positions s1), cash := close_cash p r price s1, entry_fees := ?f\<rparr>)"
    proof -
      have "s1\<lparr>entry_fees := f, positions := d, cash := x\<rparr> = s1\<lparr>positions := d, cash := x, entry_fees := f\<rparr>"
        for f d x by simp
      moreover have "update_position shown now p r price ?key s = close_partly p r price ?x ?key s1"
        using True c by (simp add: update_position_def Let_def s1_def)
      moreover have "close_partly p r price ?x ?key s1 = persist_position_upsert q
          (s1\<lparr>entry_fees := ?f, positions := AList.update ?key q (positions s1), cash := close_cash p r price s1\<rparr>)"
        by (simp add: close_partly_def Let_def q_def)
      ultimately show ?thesis by (simp only:)
    qed
    with mirrored_replace [OF m1 ok1 p2(1) [OF q(1)] q(2,1,3,4)] p2(2) [OF q(1)] show ?thesis by simp
  qed
next
  case False
  with m show ?thesis by (simp add: update_position_def)
qed

lemma mirrored_on_order_filled [preserves]:
  assumes "mirrored s" and "book_ok s" and "i \<notin> set (row_ids (the (position_db s)))"
  shows "mirrored (on_order_filled shown now i r s)"
proof (cases rule: on_order_filled_cases [of shown now i r s])
  case (opened price)
  with mirrored_open_position [OF assms(1,2) opened(2) assms(3)] show ?thesis by simp
next
  case (updated p price)
  with mirrored_update_position [OF assms(1,2) updated(2)] show ?thesis by simp
qed (use assms(1) in simp_all)

lemma fold_persist:
  "position_db s = Some t \<Longrightarrow> position_db_up s \<Longrightarrow>
   position_db (fold persist_position_upsert ps s) = Some (fold (upsert_open (pf_tenant s)) ps t)"
  by (induction ps arbitrary: s t) (simp_all add: persist_position_upsert_def)

lemma fold_persist_frame [simp]:
  "position_db_up (fold persist_position_upsert ps s) = position_db_up s"
  "pf_tenant (fold persist_position_upsert ps s) = pf_tenant s"
  by (induction ps arbitrary: s) simp_all

lemma open_of_mode: "q \<in> open_of m u t \<Longrightarrow> pmode q = m"
  by (auto simp: open_of_def mine_def)

lemma reprice_core [simp]:
  "pid (reprice prices p) = pid p" "psymbol (reprice prices p) = psymbol p" "pmode (reprice prices p) = pmode p"
  "opened_at (reprice prices p) = opened_at p"
  by (simp_all add: reprice_def marked_to_market_def split: option.split)

lemma fold_reprice_rows:
  assumes "distinct (row_ids t)" and "inj_on (\<lambda>p. symbol_str (psymbol p)) (open_of m u t)"
    and "set qs \<subseteq> open_of m u t" and "distinct qs"
  shows "distinct (row_ids (fold (upsert_open u) (map (reprice prices) qs) t)) \<and>
    open_of m u (fold (upsert_open u) (map (reprice prices) qs) t) =
      open_of m u t - set qs \<union> reprice prices ` set qs"
  using assms
proof (induction qs arbitrary: t)
  case (Cons q qs)
  let ?p = "reprice prices q" and ?O = "open_of m u t"
  have q: "q \<in> ?O" using Cons.prems(3) by simp
  have one: "x = q" if "x \<in> ?O" "symbol_str (psymbol x) = symbol_str (psymbol q)" for x
    using inj_onD [OF Cons.prems(2) that(2) that(1) q] .
  have pm: "pmode ?p = m" using open_of_mode [OF q] by simp
  note t1 = upsert_known [OF Cons.prems(1) q pm reprice_core(1,2,4) one]
  have "inj_on (\<lambda>p. symbol_str (psymbol p)) (insert ?p (?O - {q}))"
    using Cons.prems(2) one by (auto simp: inj_on_def)
  moreover have "set qs \<subseteq> insert ?p (?O - {q})" "distinct qs" using Cons.prems(3,4) by auto
  ultimately have IH: "distinct (row_ids (fold (upsert_open u) (map (reprice prices) qs) (upsert_open u ?p t))) \<and>
      open_of m u (fold (upsert_open u) (map (reprice prices) qs) (upsert_open u ?p t)) =
        insert ?p (?O - {q}) - set qs \<union> reprice prices ` set qs"
    using Cons.IH [of "upsert_open u ?p t"] Cons.prems(1) t1 by simp
  have "?p \<notin> set qs \<or> ?p = q"
    using Cons.prems(3) one [of ?p] by auto
  then have "insert ?p (?O - {q}) - set qs \<union> reprice prices ` set qs =
      ?O - set (q # qs) \<union> reprice prices ` set (q # qs)"
    using Cons.prems(4) by auto
  with IH show ?case by simp
qed simp

lemma mirrored_keys:
  assumes "mirrored s" and "dict_ok (positions s)" and "position_db s = Some t"
  shows "inj_on (\<lambda>p. symbol_str (psymbol p)) (open_of (pf_mode s) (pf_tenant s) t)"
proof (rule inj_onI)
  fix p q
  assume pq: "p \<in> open_of (pf_mode s) (pf_tenant s) t" "q \<in> open_of (pf_mode s) (pf_tenant s) t"
    and e: "symbol_str (psymbol p) = symbol_str (psymbol q)"
  have filed: "(symbol_str (psymbol x), x) \<in> set (positions s)" if "x \<in> open_of (pf_mode s) (pf_tenant s) t" for x
    using that assms by (auto simp: mirrored_def dict_values_def)
  from filed [OF pq(1)] filed [OF pq(2)] e assms(2) show "p = q" by (simp add: dict_ok_lookup [symmetric])
qed

lemma mirrored_update_prices [preserves]:
  assumes m: "mirrored s" and ok: "book_ok s"
  shows "mirrored (update_prices prices s)"
proof -
  obtain t where t: "position_db s = Some t" using m by (auto simp: mirrored_def)
  have d: "dict_ok (positions s)" using ok by (simp add: book_ok_def)
  let ?qs = "filter (priced prices) (dict_values (positions s))"
  have o: "open_of (pf_mode s) (pf_tenant s) t = set (dict_values (positions s))" and up: "position_db_up s"
    and r: "distinct (row_ids t)" using m t by (auto simp: mirrored_def)
  have filed: "\<And>k q. (k, q) \<in> set (positions s) \<Longrightarrow> k = symbol_str (psymbol q) \<and> pmode q = pf_mode s"
    using m by (auto simp: mirrored_def)
  have dv: "distinct ?qs"
  proof -
    have "map (\<lambda>p. symbol_str (psymbol p)) (dict_values (positions s)) = map fst (positions s)"
      using filed by (auto simp: dict_values_def)
    with d show ?thesis by (metis dict_ok_def distinct_filter distinct_map)
  qed
  have sub: "set ?qs \<subseteq> open_of (pf_mode s) (pf_tenant s) t" unfolding o by auto
  note f = fold_reprice_rows [OF r mirrored_keys [OF m d t] sub dv, of prices]
  have same: "reprice prices p = p" if "\<not> priced prices p" for p
    using that by (simp add: priced_def reprice_def)
  have vals: "reprice prices ` set (dict_values (positions s)) =
      set (dict_values (positions s)) - set ?qs \<union> reprice prices ` set ?qs"
    using same by (auto simp: image_iff) metis+
  have vals1: "set (dict_values (positions (update_prices prices s))) = reprice prices ` set (dict_values (positions s))"
    by (simp add: dict_values_def case_prod_beta image_image)
  have db: "position_db (update_prices prices s) =
      Some (fold (upsert_open (pf_tenant s)) (map (reprice prices) ?qs) t)"
    by (simp add: update_prices_def Let_def fold_persist t up)
  have fr: "pf_mode (update_prices prices s) = pf_mode s" "pf_tenant (update_prices prices s) = pf_tenant s"
    "position_db_up (update_prices prices s) = position_db_up s"
    by (simp_all add: update_prices_def Let_def)
  have "\<forall>(k, p) \<in> set (positions (update_prices prices s)). k = symbol_str (psymbol p) \<and> pmode p = pf_mode s"
    using filed by auto
  then show ?thesis
    unfolding mirrored_def fr using db f vals vals1 o up by auto
qed

section \<open>Runs\<close>

text \<open>New positions get identifiers that no row of the table has.\<close>

fun fresh_ids :: "shown \<Rightarrow> portfolio \<Rightarrow> pf_event list \<Rightarrow> bool" where
  "fresh_ids shown s [] = True"
| "fresh_ids shown s (e # es) \<longleftrightarrow>
     (case e of
        Fill now i r \<Rightarrow> i \<notin> set (row_ids (the (position_db s)))
      | Prices prices \<Rightarrow> True) \<and> fresh_ids shown (pf_step shown s e) es"

lemma mirrored_run:
  "mirrored s \<Longrightarrow> book_ok s \<Longrightarrow> fresh_ids shown s es \<Longrightarrow>
   mirrored (run (pf_step shown) s es) \<and> book_ok (run (pf_step shown) s es)"
proof (induction es arbitrary: s)
  case (Cons e es)
  have "mirrored (pf_step shown s e)"
    using Cons.prems by (cases e) (simp_all add: mirrored_on_order_filled mirrored_update_prices)
  moreover have "book_ok (pf_step shown s e)" by (rule books.step_ok [OF Cons.prems(2)])
  ultimately show ?case using Cons by simp
qed simp

lemma pf_step_frame [frame]:
  "pf_mode (pf_step shown s e) = pf_mode s" "pf_tenant (pf_step shown s e) = pf_tenant s"
proof -
  have p: "pf_mode (protect key p raw s) = pf_mode s" "pf_tenant (protect key p raw s) = pf_tenant s" for key p raw s
    by (simp_all add: protect_def split: option.split sum.split)
  have o: "pf_mode (on_order_filled shown now i r s) = pf_mode s \<and>
      pf_tenant (on_order_filled shown now i r s) = pf_tenant s" for now i r
    by (cases rule: on_order_filled_cases [of shown now i r s])
      (simp_all add: open_position_def Let_def p update_position_def close_fully_def close_partly_def)
  show "pf_mode (pf_step shown s e) = pf_mode s" "pf_tenant (pf_step shown s e) = pf_tenant s"
    using o by (cases e; simp add: update_prices_def Let_def)+
qed

lemma run_frame [frame]:
  "pf_mode (run (pf_step shown) s es) = pf_mode s" "pf_tenant (run (pf_step shown) s es) = pf_tenant s"
  by (induction es arbitrary: s) (simp_all add: pf_step_frame)

lemma restore_one_positions:
  "positions (restore_one p s) = AList.update (symbol_str (psymbol p)) p (positions s)"
  by (simp add: restore_one_def Let_def)

lemma restored_positions:
  assumes "inj_on (\<lambda>p. symbol_str (psymbol p)) (set ps)"
  shows "map_of (positions (fold restore_one ps s)) k =
    (case find (\<lambda>p. symbol_str (psymbol p) = k) ps of Some p \<Rightarrow> Some p | None \<Rightarrow> map_of (positions s) k)"
  using assms
proof (induction ps arbitrary: s)
  case (Cons p ps)
  have IH: "map_of (positions (fold restore_one ps (restore_one p s))) k =
      (case find (\<lambda>p. symbol_str (psymbol p) = k) ps of
         Some p \<Rightarrow> Some p | None \<Rightarrow> map_of (positions (restore_one p s)) k)"
    using Cons by simp
  show ?case
  proof (cases "symbol_str (psymbol p) = k")
    case True
    have "q = p" if "find (\<lambda>p. symbol_str (psymbol p) = k) ps = Some q" for q
    proof -
      from that have "q \<in> set ps" "symbol_str (psymbol q) = k" by (auto simp: find_Some_iff)
      then show ?thesis using Cons.prems True by (auto simp: inj_on_def)
    qed
    with IH True show ?thesis
      by (cases "find (\<lambda>p. symbol_str (psymbol p) = k) ps") (auto simp: restore_one_positions)
  next
    case False
    with IH show ?thesis by (simp add: restore_one_positions split: option.split)
  qed
qed simp

lemma stored_core [simp]:
  "symbol_str (psymbol (stored col p)) = symbol_str (psymbol p)" "pid (stored col p) = pid p" "pside (stored col p) = pside p"
  by (simp_all add: stored_def symbol_str_def)

lemma find_stored:
  "find (\<lambda>p. symbol_str (psymbol p) = k) (map (stored col) ps) =
     map_option (stored col) (find (\<lambda>p. symbol_str (psymbol p) = k) ps)"
  by (induction ps) simp_all

text \<open>
  C26. A restart loses no position: whatever fills and prices a process has handled, the positions that a
  new process of the same tenant and mode restores from the database are exactly the open positions of the old
  one, with their protection and with their numbers rounded to the columns of the table (the asset class of the symbol is
  not stored and becomes the default), although other tenants keep
  their positions in the same table. It takes a working database,
  fresh identifiers for new positions and a table without open rows of this tenant at the beginning.
\<close>

theorem restore_recovers_positions:
  fixes m u hook oc initial t0 tdb
  defines "s0 \<equiv> set_protection_hooks hook oc (new_portfolio m initial (Some u) (Some t0) tdb)"
  assumes "distinct (row_ids t0)" and "open_of m (Some u) t0 = {}"
    and "case hook of None \<Rightarrow> True | Some h \<Rightarrow> hook_keeps h" and "fresh_ids shown s0 es"
  defines "s \<equiv> run (pf_step shown) s0 es"
  shows "\<exists>s1 n. restore_from_persistence col (new_portfolio m c (Some u) (position_db s) tdb1) = Inr (s1, n) \<and>
    map_of (positions s1) = map_option (stored col) \<circ> map_of (positions s)"
proof -
  have s0: "mirrored s0" "book_ok s0" "pf_mode s0 = m" "pf_tenant s0 = Some u"
    using assms(2-4) by (simp_all add: s0_def mirrored_def set_protection_hooks_def new_portfolio_def book_ok_def
      dict_values_def)
  have s: "mirrored s" "book_ok s" "pf_mode s = m" "pf_tenant s = Some u"
    using mirrored_run [OF s0(1,2) assms(5)] s0 by (simp_all add: s_def run_frame)
  then obtain t where t: "position_db s = Some t" by (auto simp: mirrored_def)
  have d: "dict_ok (positions s)" using s(2) by (simp add: book_ok_def)
  define ps where "ps = sort_key opened_at (map pr_position (filter (\<lambda>w. pmode (pr_position w) = m \<and> pr_open w \<and> pr_user w = Some u) t))"
  have set: "set ps = open_of m (Some u) t"
    by (auto simp: ps_def open_of_def mine_def)
  have o: "open_of m (Some u) t = set (dict_values (positions s))" using s t by (auto simp: mirrored_def)
  have inj: "inj_on (\<lambda>p. symbol_str (psymbol p)) (set ps)"
    unfolding set using mirrored_keys [OF s(1) d t] s by simp
  have filed: "(symbol_str (psymbol x), x) \<in> set (positions s)" if "x \<in> set ps" for x
    using that s unfolding set o by (auto simp: mirrored_def dict_values_def)
  let ?f = "\<lambda>k. find (\<lambda>p. symbol_str (psymbol p) = k) ps"
  have "?f k = map_of (positions s) k" for k
  proof (cases "?f k")
    case None
    then have "symbol_str (psymbol x) \<noteq> k" if "x \<in> set ps" for x using that by (auto simp: find_None_iff)
    moreover have "x \<in> set ps \<and> symbol_str (psymbol x) = k" if "map_of (positions s) k = Some x" for x
    proof -
      from that d have "(k, x) \<in> set (positions s)" by (simp add: dict_ok_lookup)
      then have "x \<in> set (dict_values (positions s))" by (force simp: dict_values_def)
      moreover have "symbol_str (psymbol x) = k" using s(1) \<open>(k, x) \<in> set (positions s)\<close> by (auto simp: mirrored_def)
      ultimately show ?thesis unfolding set o by blast
    qed
    ultimately have "map_of (positions s) k = None" by (cases "map_of (positions s) k") auto
    with None show ?thesis by simp
  next
    case (Some x)
    then have "x \<in> set ps" "symbol_str (psymbol x) = k" by (auto simp: find_Some_iff)
    with filed [of x] d have "map_of (positions s) k = Some x" by (simp add: dict_ok_lookup)
    with Some show ?thesis by simp
  qed
  moreover have "positions (new_portfolio m c (Some u) (Some t) tdb1) = []" by (simp add: new_portfolio_def)
  moreover have "inj_on (\<lambda>p. symbol_str (psymbol p)) (set (map (stored col) ps))"
    using inj by (auto simp: inj_on_def)
  ultimately have "map_of (positions (fold restore_one (map (stored col) ps) (new_portfolio m c (Some u) (Some t) tdb1))) =
      map_option (stored col) \<circ> map_of (positions s)"
    by (intro ext) (simp only: restored_positions find_stored, simp split: option.split)
  moreover have "get_open_positions col m (Some u) t = map (stored col) ps"
    by (simp add: get_open_positions_def ps_def)
  ultimately show ?thesis
    by (simp add: restore_from_persistence_def t new_portfolio_def Let_def)
qed

text \<open>A column that rounds half away from zero.\<close>

definition demo_column :: column where
  "demo_column n x = Dec (of_int ((if dval x < 0 then - 1 else 1) * \<lfloor>\<bar>dval x\<bar> * 10 ^ n + 1 / 2\<rfloor>) / 10 ^ n)"

theorem restore_recovers_positions_witness:
  "\<exists>s1 n p. restore_from_persistence demo_column (new_portfolio PAPER (Dec 50) (Some ''t1'')
     (position_db (run (pf_step (\<lambda>v. [])) (set_protection_hooks None False
       (new_portfolio PAPER (Dec 100) (Some ''t1'') (Some []) None)) [Fill 5 1 (demo_fill ''buy'' 2 20 ''X1'')])) None)
     = Inr (s1, n) \<and> map_of (positions s1) ''BTC/USDT:binance'' = Some p \<and> pquantity p = Dec 2"
proof -
  let ?s0 = "set_protection_hooks None False (new_portfolio PAPER (Dec 100) (Some ''t1'') (Some []) None)"
  let ?es = "[Fill 5 1 (demo_fill ''buy'' 2 20 ''X1'')]"
  let ?after = "run (pf_step (\<lambda>v. [])) ?s0 ?es"
  have "fresh_ids (\<lambda>v. []) ?s0 ?es"
    by (simp add: set_protection_hooks_def new_portfolio_def row_ids_def)
  moreover have "distinct (row_ids [])" "open_of PAPER (Some ''t1'') [] = {}"
    "case (None :: opened_hook option) of None \<Rightarrow> True | Some h \<Rightarrow> hook_keeps h"
    by (simp_all add: row_ids_def open_of_def)
  ultimately obtain s1 n where
    r: "restore_from_persistence demo_column (new_portfolio PAPER (Dec 50) (Some ''t1'') (position_db ?after) None) = Inr (s1, n)"
    and m: "map_of (positions s1) = map_option (stored demo_column) \<circ> map_of (positions ?after)"
    using restore_recovers_positions [of "[]" PAPER "''t1''" None "\<lambda>v. []" False "Dec 100" None ?es demo_column "Dec 50" None]
    by blast
  obtain p where "map_of (positions ?after) ''BTC/USDT:binance'' = Some p" "pquantity p = Dec 2"
    by (simp add: demo_fill_def on_order_filled_def Let_def symbol_str_def set_protection_hooks_def
        new_portfolio_def open_position_def protect_def opened_position_def)
  moreover have "demo_column 8 (Dec 2) = Dec 2" by (simp add: demo_column_def floor_eq_iff)
  ultimately have "map_of (positions s1) ''BTC/USDT:binance'' = Some (stored demo_column p)"
    "pquantity (stored demo_column p) = Dec 2"
    using m by (simp_all add: stored_def)
  with r show ?thesis by blast
qed

end
