(* ===== verification/Market_Types.thy ===== *)
theory Market_Types
  imports Core_Types
begin

text \<open>
  The features a strategy sees (\<open>sgr/market_data/types.py\<close>, the fields the modelled code reads) and the
  classification of the market regime from them (\<open>sgr/strategy/regime_classifier.py\<close>). An indicator is
  \<open>None\<close> while there is not enough history for it.
\<close>

section \<open>Features\<close>

record indicators =
  rsi_14 :: "flt option"
  macd_histogram :: "flt option"
  adx_14 :: "flt option"
  di_plus :: "flt option"
  di_minus :: "flt option"
  atr_14 :: "dec option"
  atr_pct :: "flt option"
  bb_upper :: "dec option"
  bb_middle :: "dec option"
  bb_lower :: "dec option"
  bb_width :: "flt option"
  bb_position :: "flt option"
  kc_upper :: "dec option"
  kc_lower :: "dec option"
  ema_9 :: "dec option"
  ema_21 :: "dec option"
  ema_50 :: "dec option"
  vwap :: "dec option"
  volume_ratio :: "flt option"

record feature_set =
  f_symbol :: symbol
  f_timestamp :: time
  f_timeframe :: string
  f_close :: dec
  f_indicators :: indicators
  order_imbalance_5 :: "flt option"
  returns_5 :: "flt option"
  returns_10 :: "flt option"
  f_regime :: market_regime
  f_volume :: dec
  funding_annualized :: "flt option"

text \<open>\<open>order_imbalance_5\<close> is \<open>None\<close> without an order book, \<open>funding_annualized\<close> without futures features.\<close>

record market_context =
  c_symbol :: symbol
  primary :: feature_set
  c_regime :: market_regime

text \<open>A test on an indicator: false when it is missing.\<close>

definition present :: "('a \<Rightarrow> bool) \<Rightarrow> 'a option \<Rightarrow> bool" where
  "present P x = (case x of None \<Rightarrow> False | Some v \<Rightarrow> P v)"

lemma present_simps [simp]: "present P None = False" "present P (Some v) = P v"
  by (simp_all add: present_def)

lemma present_iff: "present P x \<longleftrightarrow> (\<exists>v. x = Some v \<and> P v)"
  by (cases x) simp_all

text \<open>Whole seconds of a time, and the Redis keys of a feature set.\<close>

definition unix_seconds :: "time \<Rightarrow> int" where
  "unix_seconds t = (if 0 \<le> t then t div 1000000 else - (- t div 1000000))"

definition cache_key :: "feature_set \<Rightarrow> string" where
  "cache_key f = ''features:'' @ symbol_switch_key (f_symbol f) @ '':'' @ f_timeframe f @ '':'' @
     int_str (unix_seconds (f_timestamp f))"

definition latest_key :: "feature_set \<Rightarrow> string" where
  "latest_key f = ''features:latest:'' @ symbol_switch_key (f_symbol f) @ '':'' @ f_timeframe f"

section \<open>Regime\<close>

definition HIGH_VOLATILITY_ATR_PCT :: flt where
  "HIGH_VOLATILITY_ATR_PCT = flit (1/20)"

definition breaks_out :: "indicators \<Rightarrow> bool" where
  "breaks_out i \<longleftrightarrow>
     (case (bb_width i, bb_position i) of
        (Some w, Some p) \<Rightarrow> flit (45/1000) < w \<and> (p \<le> flit (1/20) \<or> flit (19/20) \<le> p)
      | _ \<Rightarrow> False)"

text \<open>The direction of a trend, if there is a clear one.\<close>

definition trend_direction :: "flt \<Rightarrow> indicators \<Rightarrow> market_regime option" where
  "trend_direction adx i =
     (case (di_plus i, di_minus i) of
        (Some p, Some m) \<Rightarrow>
          if flit 25 < adx \<and> m < p then Some TRENDING_UP
          else if flit 25 < adx \<and> p < m then Some TRENDING_DOWN
          else None
      | _ \<Rightarrow> None)"

definition trend_confidence :: "flt \<Rightarrow> flt" where
  "trend_confidence adx = min (flit (1/2) + (adx - flit 25) / flit 50) (flit (9/10))"

definition classify_regime :: "indicators \<Rightarrow> market_regime \<times> flt" where
  "classify_regime i =
     (case (adx_14 i, atr_pct i) of
        (Some adx, Some atr) \<Rightarrow>
          if HIGH_VOLATILITY_ATR_PCT < atr
          then (HIGH_VOLATILITY, min (flit (1/2) + (atr - HIGH_VOLATILITY_ATR_PCT)) (flit (9/10)))
          else if breaks_out i then (BREAKOUT, flit (6/10))
          else (case trend_direction adx i of
                  Some r \<Rightarrow> (r, trend_confidence adx)
                | None \<Rightarrow>
                    if adx < flit 20
                    then if atr < flit (12/1000) then (LOW_VOLATILITY, flit (55/100)) else (RANGING, flit (6/10))
                    else (UNKNOWN_REGIME, flit (3/10)))
      | _ \<Rightarrow> (UNKNOWN_REGIME, flit 0))"

section \<open>Facts\<close>

lemma flit_le [simp]: "flit x \<le> flit y" if "x \<le> y"
  by (rule flit_mono [OF that])

lemma half_le_sum: "0 \<le> fval d \<Longrightarrow> flit (1/2) \<le> flit (1/2) + d"
  unfolding less_eq_flt_def fval_simps(3)
  by (rule flt.rnd_ge_exact) (simp, rule flit_is_float [unfolded is_float_def])

lemma diff_nonneg: "y \<le> x \<Longrightarrow> 0 \<le> fval (x - y)" for x y :: flt
  by (simp add: flt.rnd_nonneg)

lemma conf_bounds:
  "0 \<le> fval d \<Longrightarrow> min (flit (1/2) + d) (flit (9/10)) \<le> flit (9/10) \<and>
     flit (1/2) \<le> min (flit (1/2) + d) (flit (9/10))"
  using half_le_sum [of d] by (simp del: flt_order)

lemma trend_direction_cases:
  assumes "trend_direction adx i = Some r"
  obtains p m where "di_plus i = Some p" "di_minus i = Some m" "flit 25 < adx"
    "r = TRENDING_UP \<and> m < p \<or> r = TRENDING_DOWN \<and> p < m"
  using assms by (auto simp: trend_direction_def simp del: flt_order split: option.splits if_splits)

text \<open>
  What stands behind a regime: each one is only reported on its own evidence. High volatility comes
  before everything else, a breakout needs wide bands and a price at their edge, a trend a strong index and
  a direction, the two quiet regimes a weak index and a volatility below the threshold of the high one; crisis
  is never reported. A regime that is known has at least even confidence, and none has more than nine tenths.
\<close>

theorem regime_has_evidence:
  "case classify_regime i of (r, conf) \<Rightarrow>
     conf \<le> flit (9/10) \<and> (r = UNKNOWN_REGIME \<or> flit (1/2) \<le> conf) \<and>
     (case r of
        HIGH_VOLATILITY \<Rightarrow> present (\<lambda>a. HIGH_VOLATILITY_ATR_PCT < a) (atr_pct i)
      | BREAKOUT \<Rightarrow> breaks_out i \<and> present (\<lambda>a. a \<le> HIGH_VOLATILITY_ATR_PCT) (atr_pct i)
      | TRENDING_UP \<Rightarrow> present (\<lambda>a. flit 25 < a) (adx_14 i) \<and>
          (\<exists>p m. di_plus i = Some p \<and> di_minus i = Some m \<and> m < p)
      | TRENDING_DOWN \<Rightarrow> present (\<lambda>a. flit 25 < a) (adx_14 i) \<and>
          (\<exists>p m. di_plus i = Some p \<and> di_minus i = Some m \<and> p < m)
      | LOW_VOLATILITY \<Rightarrow> present (\<lambda>a. a < flit 20) (adx_14 i) \<and> present (\<lambda>a. a < flit (12/1000)) (atr_pct i)
      | RANGING \<Rightarrow> present (\<lambda>a. a < flit 20) (adx_14 i) \<and> present (\<lambda>a. a \<le> HIGH_VOLATILITY_ATR_PCT) (atr_pct i)
      | CRISIS \<Rightarrow> False
      | UNKNOWN_REGIME \<Rightarrow> True)"
proof (cases "adx_14 i")
  case None
  then show ?thesis by (simp add: classify_regime_def del: flt_order)
next
  case adx: (Some adx)
  show ?thesis
  proof (cases "atr_pct i")
    case None
    with adx show ?thesis by (simp add: classify_regime_def del: flt_order)
  next
    case atr: (Some atr)
    consider "HIGH_VOLATILITY_ATR_PCT < atr"
      | "atr \<le> HIGH_VOLATILITY_ATR_PCT" "breaks_out i"
      | r where "atr \<le> HIGH_VOLATILITY_ATR_PCT" "\<not> breaks_out i" "trend_direction adx i = Some r"
      | "atr \<le> HIGH_VOLATILITY_ATR_PCT" "\<not> breaks_out i" "trend_direction adx i = None"
      by (metis not_le option.exhaust)
    then show ?thesis
    proof cases
      case 1
      then have "0 \<le> fval (atr - HIGH_VOLATILITY_ATR_PCT)" by (intro diff_nonneg) simp
      from conf_bounds [OF this] 1 adx atr show ?thesis
        by (simp add: classify_regime_def del: flt_order)
    next
      case 2
      with adx atr leD [OF 2(1)] show ?thesis by (simp add: classify_regime_def del: flt_order)
    next
      case (3 r)
      from 3(3) obtain p m where d: "di_plus i = Some p" "di_minus i = Some m" "flit 25 < adx"
        "r = TRENDING_UP \<and> m < p \<or> r = TRENDING_DOWN \<and> p < m" by (rule trend_direction_cases)
      have "0 \<le> fval (adx - flit 25)" using d(3) by (intro diff_nonneg) simp
      then have "0 \<le> fval ((adx - flit 25) / flit 50)"
        by (simp add: flt.rnd_nonneg flit_def)
      from conf_bounds [OF this] 3 d adx atr leD [OF 3(1)] show ?thesis
        by (auto simp: classify_regime_def trend_confidence_def simp del: flt_order)
    next
      case 4
      with adx atr leD [OF 4(1)] show ?thesis by (simp add: classify_regime_def del: flt_order)
    qed
  qed
qed

section \<open>An example\<close>

text \<open>The features of a rising market.\<close>

definition demo_indicators :: indicators where
  "demo_indicators = \<lparr>rsi_14 = Some (flit 60), macd_histogram = Some (flit 1), adx_14 = Some (flit 30),
     di_plus = Some (flit 30), di_minus = Some (flit 10), atr_14 = Some (Dec 2), atr_pct = Some (flit (1/50)),
     bb_upper = None, bb_middle = None, bb_lower = None, bb_width = None, bb_position = None,
     kc_upper = None, kc_lower = None, ema_9 = Some (Dec 101), ema_21 = Some (Dec 100), ema_50 = None, vwap = None,
     volume_ratio = Some (flit 2)\<rparr>"

definition demo_features :: feature_set where
  "demo_features = \<lparr>f_symbol = \<lparr>base = ''BTC'', quote = ''USDT'', sym_exchange = BINANCE, asset = ASSET_FUTURES\<rparr>, f_timestamp = 0,
     f_timeframe = ''1h'', f_close = Dec 100,
     f_indicators = demo_indicators, order_imbalance_5 = None, returns_5 = Some (flit 1), returns_10 = Some (flit 1),
     f_regime = TRENDING_UP, f_volume = Dec 5000, funding_annualized = None\<rparr>"

end
