(* ===== verification/Strategies.thy ===== *)
theory Strategies
  imports Market_Types Strategy_Registry
begin

text \<open>
  The signal strategies of \<open>sgr/strategy/\<close>: momentum, mean reversion, breakout, trend following and
  volatility-adjusted momentum. Each scores its criteria, and signals a direction when the share of the
  points reaches its minimum. The identifier of the signal is an argument; its time is left out.
\<close>

section \<open>Scores\<close>

text \<open>The points a criterion gives, if it gives any, are added in the order of the code.\<close>

definition credit :: "bool \<Rightarrow> rat \<Rightarrow> flt option" where
  "credit b w = (if b then Some (flit w) else None)"

definition graded :: "bool \<Rightarrow> rat \<Rightarrow> bool \<Rightarrow> rat \<Rightarrow> flt option" where
  "graded full w partial v = (if full then Some (flit w) else credit partial v)"

definition total :: "flt option list \<Rightarrow> flt" where
  "total ws = foldl (\<lambda>acc w. case w of None \<Rightarrow> acc | Some x \<Rightarrow> acc + x) (flit 0) ws"

definition max_total :: "rat list \<Rightarrow> flt" where
  "max_total ws = foldl (\<lambda>acc w. acc + flit w) (flit 0) ws"

definition share :: "flt \<Rightarrow> flt \<Rightarrow> flt" where
  "share score maximum = (if 0 < maximum then score / maximum else flit 0)"

text \<open>\<open>round(x, 2)\<close>: half to even on the exact value, then the nearest double.\<close>

definition round2 :: "flt \<Rightarrow> flt" where
  "round2 x = flit (of_int (rhe (fval x * 100)) / 100)"

definition opt_float :: "flt option \<Rightarrow> pyval" where
  "opt_float x = (case x of Some v \<Rightarrow> PyFloat v | None \<Rightarrow> PyNone)"

text \<open>\<open>round(p, 2) if p else None\<close>\<close>

definition rounded_price :: "flt option \<Rightarrow> pyval" where
  "rounded_price p = (case p of Some v \<Rightarrow> if fval v = 0 then PyNone else PyFloat (round2 v) | None \<Rightarrow> PyNone)"

text \<open>An optional decimal that counts as missing when it is zero.\<close>

definition nonzero :: "dec option \<Rightarrow> flt option" where
  "nonzero d = (case d of Some v \<Rightarrow> if dval v = 0 then None else Some (float_of v) | None \<Rightarrow> None)"

definition make_signal ::
  "nat \<Rightarrow> string \<Rightarrow> market_context \<Rightarrow> signal_direction \<Rightarrow> flt \<Rightarrow> py_dict \<Rightarrow> signal"
where
  "make_signal i name c d conf meta = \<lparr>sid = i, sig_strategy = name, sig_symbol = c_symbol c, direction = d,
     confidence = conf, size_hint = flit 1, regime = c_regime c, sig_metadata = meta\<rparr>"

type_synonym generator = "nat \<Rightarrow> market_context \<Rightarrow> signal option result"

section \<open>Momentum\<close>

record momentum_params =
  m_returns_5_min :: flt
  m_rsi_low :: flt
  m_rsi_high :: flt
  m_volume_ratio_min :: flt
  m_min_confidence :: flt

definition default_momentum :: momentum_params where
  "default_momentum = \<lparr>m_returns_5_min = flit (1/100), m_rsi_low = flit 55, m_rsi_high = flit 80,
     m_volume_ratio_min = flit (11/10), m_min_confidence = flit (55/100)\<rparr>"

definition momentum_valid :: "market_context \<Rightarrow> bool" where
  "momentum_valid c \<longleftrightarrow> rsi_14 (f_indicators (primary c)) \<noteq> None \<and> returns_5 (primary c) \<noteq> None \<and>
     returns_10 (primary c) \<noteq> None \<and> 0 < f_close (primary c)"

definition momentum_score_long :: "momentum_params \<Rightarrow> feature_set \<Rightarrow> flt" where
  "momentum_score_long p f =
     (let i = f_indicators f
      in total
       [graded (present (\<lambda>r. m_returns_5_min p < r) (returns_5 f)) (5/2) (present (\<lambda>r. 0 < r) (returns_5 f)) 1,
        credit (present (\<lambda>r. 0 < r) (returns_10 f)) (3/2),
        credit (present (\<lambda>r. m_rsi_low p < r \<and> r < m_rsi_high p) (rsi_14 i)) 2,
        credit (present (\<lambda>x. 0 < x) (macd_histogram i)) 2,
        credit (present (\<lambda>x. m_volume_ratio_min p \<le> x) (volume_ratio i)) (3/2),
        credit (present (\<lambda>x. flit 18 < x) (adx_14 i)) (1/2)])"

definition momentum_score_short :: "momentum_params \<Rightarrow> feature_set \<Rightarrow> flt" where
  "momentum_score_short p f =
     (let i = f_indicators f; lo = flit 100 - m_rsi_high p; hi = flit 100 - m_rsi_low p
      in total
       [graded (present (\<lambda>r. r < - m_returns_5_min p) (returns_5 f)) (5/2) (present (\<lambda>r. r < 0) (returns_5 f)) 1,
        credit (present (\<lambda>r. r < 0) (returns_10 f)) (3/2),
        credit (present (\<lambda>r. lo < r \<and> r < hi) (rsi_14 i)) 2,
        credit (present (\<lambda>x. x < 0) (macd_histogram i)) 2,
        credit (present (\<lambda>x. m_volume_ratio_min p \<le> x) (volume_ratio i)) (3/2),
        credit (present (\<lambda>x. flit 18 < x) (adx_14 i)) (1/2)])"

definition momentum_max :: flt where
  "momentum_max = max_total [5/2, 3/2, 2, 2, 3/2, 1/2]"

definition momentum_evaluate ::
  "momentum_params \<Rightarrow> signal_direction \<Rightarrow> flt \<Rightarrow> nat \<Rightarrow> market_context \<Rightarrow> signal option"
where
  "momentum_evaluate p d score i c =
     (let f = primary c; conf = share score momentum_max
      in if conf < m_min_confidence p then None
         else Some (make_signal i ''momentum_v1'' c d (min conf (flit 1))
           [(''score'', PyFloat (round2 score)), (''returns_5'', opt_float (returns_5 f)),
            (''returns_10'', opt_float (returns_10 f)), (''rsi_14'', opt_float (rsi_14 (f_indicators f))),
            (''volume_ratio'', opt_float (volume_ratio (f_indicators f)))]))"

definition momentum :: "momentum_params \<Rightarrow> generator" where
  "momentum p i c =
     (if \<not> momentum_valid c then Inr None
      else if c_regime c = TRENDING_UP
      then Inr (momentum_evaluate p SIG_LONG (momentum_score_long p (primary c)) i c)
      else if c_regime c = TRENDING_DOWN
      then Inr (momentum_evaluate p SIG_SHORT (momentum_score_short p (primary c)) i c)
      else Inr None)"

section \<open>The better side\<close>

text \<open>Three strategies score both sides and signal the one that is strictly better and good enough.\<close>

definition better_side ::
  "flt \<Rightarrow> flt \<Rightarrow> flt \<Rightarrow> (signal_direction \<Rightarrow> flt \<Rightarrow> signal) \<Rightarrow> signal option"
where
  "better_side minimum long short mk =
     (if minimum \<le> long \<and> short < long then Some (mk SIG_LONG (min long (flit 1)))
      else if minimum \<le> short \<and> long < short then Some (mk SIG_SHORT (min short (flit 1)))
      else None)"

section \<open>Mean reversion\<close>

record reversion_params =
  rv_oversold :: flt
  rv_overbought :: flt
  rv_bb_long :: flt
  rv_bb_short :: flt
  rv_min_confidence :: flt
  rv_require_imbalance :: bool

definition default_reversion :: reversion_params where
  "default_reversion = \<lparr>rv_oversold = flit 35, rv_overbought = flit 65, rv_bb_long = flit (15/100),
     rv_bb_short = flit (85/100), rv_min_confidence = flit (55/100), rv_require_imbalance = True\<rparr>"

definition reversion_valid :: "market_context \<Rightarrow> bool" where
  "reversion_valid c \<longleftrightarrow>
     (let i = f_indicators (primary c)
      in rsi_14 i \<noteq> None \<and> bb_position i \<noteq> None \<and> atr_14 i \<noteq> None \<and> 0 < f_close (primary c))"

definition reversion_score_long :: "reversion_params \<Rightarrow> feature_set \<Rightarrow> flt" where
  "reversion_score_long p f =
     (let i = f_indicators f
      in total
       [graded (present (\<lambda>r. r < rv_oversold p) (rsi_14 i)) (5/2) (present (\<lambda>r. r < flit 40) (rsi_14 i)) 1,
        graded (present (\<lambda>x. x < rv_bb_long p) (bb_position i)) 2 (present (\<lambda>x. x < flit (1/4)) (bb_position i)) 1,
        credit (present (\<lambda>x. x < 0) (macd_histogram i)) (3/2),
        graded (present (\<lambda>x. flit (1/10) < x) (order_imbalance_5 f)) 1 (\<not> rv_require_imbalance p) (1/2),
        credit (present (\<lambda>x. x < flit (4/100)) (bb_width i)) 1,
        credit (present (\<lambda>x. x < flit 20) (adx_14 i)) (1/2)])"

definition reversion_score_short :: "reversion_params \<Rightarrow> feature_set \<Rightarrow> flt" where
  "reversion_score_short p f =
     (let i = f_indicators f
      in total
       [graded (present (\<lambda>r. rv_overbought p < r) (rsi_14 i)) (5/2) (present (\<lambda>r. flit 60 < r) (rsi_14 i)) 1,
        graded (present (\<lambda>x. rv_bb_short p < x) (bb_position i)) 2 (present (\<lambda>x. flit (3/4) < x) (bb_position i)) 1,
        credit (present (\<lambda>x. 0 < x) (macd_histogram i)) (3/2),
        graded (present (\<lambda>x. x < - flit (1/10)) (order_imbalance_5 f)) 1 (\<not> rv_require_imbalance p) (1/2),
        credit (present (\<lambda>x. x < flit (4/100)) (bb_width i)) 1,
        credit (present (\<lambda>x. x < flit 20) (adx_14 i)) (1/2)])"

definition reversion_max :: flt where
  "reversion_max = max_total [5/2, 2, 3/2, 1, 1, 1/2]"

definition reversion_signal ::
  "nat \<Rightarrow> market_context \<Rightarrow> flt \<Rightarrow> flt \<Rightarrow> signal_direction \<Rightarrow> flt \<Rightarrow> signal"
where
  "reversion_signal i c long_score short_score d conf =
     (let f = primary c; ind = f_indicators f; close = float_of (f_close f);
          stop = map_option (\<lambda>a. a * flit (3/2)) (nonzero (atr_14 ind));
          stop_price = (case stop of
              None \<Rightarrow> None
            | Some x \<Rightarrow> if fval x = 0 then None
                        else Some (if d = SIG_LONG then close - x else close + x))
      in make_signal i ''mean_reversion_v1'' c d conf
        [(''score'', PyFloat (round2 (if d = SIG_LONG then long_score else short_score))),
         (''rsi_14'', opt_float (rsi_14 ind)), (''bb_position'', opt_float (bb_position ind)),
         (''target_price'', rounded_price (nonzero (bb_middle ind))),
         (''stop_price'', rounded_price stop_price)])"

definition mean_reversion :: "reversion_params \<Rightarrow> generator" where
  "mean_reversion p i c =
     (if \<not> reversion_valid c \<or> c_regime c \<noteq> RANGING then Inr None
      else let ls = reversion_score_long p (primary c); ss = reversion_score_short p (primary c)
           in Inr (better_side (rv_min_confidence p) (share ls reversion_max) (share ss reversion_max)
                (reversion_signal i c ls ss)))"

section \<open>Breakout\<close>

record breakout_params =
  bo_high :: flt
  bo_low :: flt
  bo_width_min :: flt
  bo_volume_ratio_min :: flt
  bo_rsi_high :: flt
  bo_rsi_low :: flt
  bo_min_confidence :: flt

definition default_breakout :: breakout_params where
  "default_breakout = \<lparr>bo_high = flit (9/10), bo_low = flit (1/10), bo_width_min = flit (45/1000),
     bo_volume_ratio_min = flit (12/10), bo_rsi_high = flit 75, bo_rsi_low = flit 25,
     bo_min_confidence = flit (55/100)\<rparr>"

definition breakout_valid :: "market_context \<Rightarrow> bool" where
  "breakout_valid c \<longleftrightarrow>
     (let i = f_indicators (primary c)
      in bb_position i \<noteq> None \<and> bb_width i \<noteq> None \<and> atr_14 i \<noteq> None \<and> 0 < f_close (primary c))"

text \<open>A Bollinger band outside the Keltner channel.\<close>

definition outside :: "(flt \<Rightarrow> flt \<Rightarrow> bool) \<Rightarrow> dec option \<Rightarrow> dec option \<Rightarrow> bool" where
  "outside R bb kc \<longleftrightarrow> present (\<lambda>k. present (\<lambda>b. R (float_of b) (float_of k)) bb) kc"

definition breakout_score_long :: "breakout_params \<Rightarrow> indicators \<Rightarrow> flt" where
  "breakout_score_long p i = total
     [credit (present (\<lambda>x. bo_high p \<le> x) (bb_position i)) (5/2),
      credit (present (\<lambda>x. bo_width_min p \<le> x) (bb_width i)) 2,
      credit (outside (\<lambda>b k. k < b) (bb_upper i) (kc_upper i)) (3/2),
      credit (present (\<lambda>x. bo_volume_ratio_min p \<le> x) (volume_ratio i)) (3/2),
      credit (present (\<lambda>x. flit 55 < x \<and> x < bo_rsi_high p) (rsi_14 i)) 1,
      credit (present (\<lambda>x. flit 18 < x) (adx_14 i)) (1/2)]"

definition breakout_score_short :: "breakout_params \<Rightarrow> indicators \<Rightarrow> flt" where
  "breakout_score_short p i = total
     [credit (present (\<lambda>x. x \<le> bo_low p) (bb_position i)) (5/2),
      credit (present (\<lambda>x. bo_width_min p \<le> x) (bb_width i)) 2,
      credit (outside (\<lambda>b k. b < k) (bb_lower i) (kc_lower i)) (3/2),
      credit (present (\<lambda>x. bo_volume_ratio_min p \<le> x) (volume_ratio i)) (3/2),
      credit (present (\<lambda>x. bo_rsi_low p < x \<and> x < flit 45) (rsi_14 i)) 1,
      credit (present (\<lambda>x. flit 18 < x) (adx_14 i)) (1/2)]"

definition breakout_max :: flt where
  "breakout_max = max_total [5/2, 2, 3/2, 3/2, 1, 1/2]"

definition breakout_signal ::
  "nat \<Rightarrow> market_context \<Rightarrow> flt \<Rightarrow> flt \<Rightarrow> signal_direction \<Rightarrow> flt \<Rightarrow> signal"
where
  "breakout_signal i c long_score short_score d conf =
     (let f = primary c; ind = f_indicators f; close = float_of (f_close f); stop = nonzero (atr_14 ind);
          near = (\<lambda>x. if fval x = 0 then None else Some (if d = SIG_LONG then close - x else close + x));
          far = (\<lambda>x. if fval x = 0 then None
                     else Some (if d = SIG_LONG then close + x * flit 2 else close - x * flit 2))
      in make_signal i ''breakout_v1'' c d conf
        [(''score'', PyFloat (round2 (if d = SIG_LONG then long_score else short_score))),
         (''bb_position'', opt_float (bb_position ind)), (''bb_width'', opt_float (bb_width ind)),
         (''volume_ratio'', opt_float (volume_ratio ind)),
         (''stop_price'', rounded_price (Option.bind stop near)),
         (''target_price'', rounded_price (Option.bind stop far))])"

definition breakout :: "breakout_params \<Rightarrow> generator" where
  "breakout p i c =
     (if \<not> breakout_valid c \<or> c_regime c \<noteq> BREAKOUT then Inr None
      else let ind = f_indicators (primary c); ls = breakout_score_long p ind; ss = breakout_score_short p ind
           in Inr (better_side (bo_min_confidence p) (share ls breakout_max) (share ss breakout_max)
                (breakout_signal i c ls ss)))"

section \<open>Trend following\<close>

record trend_params =
  tf_rsi_min_long :: flt
  tf_rsi_max_short :: flt
  tf_adx_min :: flt
  tf_volume_ratio_min :: flt
  tf_min_confidence :: flt

definition default_trend :: trend_params where
  "default_trend = \<lparr>tf_rsi_min_long = flit 50, tf_rsi_max_short = flit 50, tf_adx_min = flit 25,
     tf_volume_ratio_min = flit (8/10), tf_min_confidence = flit (55/100)\<rparr>"

definition trend_valid :: "market_context \<Rightarrow> bool" where
  "trend_valid c \<longleftrightarrow>
     (let i = f_indicators (primary c)
      in rsi_14 i \<noteq> None \<and> adx_14 i \<noteq> None \<and> ema_9 i \<noteq> None \<and> ema_21 i \<noteq> None \<and> 0 < f_close (primary c))"

text \<open>Two averages, both there and not zero, in a relation to each other.\<close>

definition averages :: "(flt \<Rightarrow> flt \<Rightarrow> bool) \<Rightarrow> dec option \<Rightarrow> dec option \<Rightarrow> bool" where
  "averages R a b \<longleftrightarrow> present (\<lambda>x. present (R x) (nonzero b)) (nonzero a)"

text \<open>The second one is only asked for being there when the first relation holds.\<close>

definition trend_score :: "(flt \<Rightarrow> flt \<Rightarrow> bool) \<Rightarrow> bool \<Rightarrow> bool \<Rightarrow> bool \<Rightarrow> trend_params \<Rightarrow> feature_set \<Rightarrow> flt" where
  "trend_score R rsi_full rsi_bonus band p f =
     (let i = f_indicators f; aligned = averages R (ema_9 i) (ema_21 i)
      in total
       [credit rsi_full 2, credit (rsi_full \<and> rsi_bonus) (1/2),
        credit aligned 2,
        credit (aligned \<and> present (\<lambda>c. present (\<lambda>b. R (float_of b) c) (ema_21 i)) (nonzero (ema_50 i))) (1/2),
        graded (present (\<lambda>x. tf_adx_min p \<le> x) (adx_14 i)) (3/2) (present (\<lambda>x. flit 20 \<le> x) (adx_14 i)) (3/4),
        credit (present (\<lambda>x. R (float_of (f_close f)) x) (nonzero (vwap i))) 1,
        credit (present (\<lambda>x. tf_volume_ratio_min p \<le> x) (volume_ratio i)) 1,
        credit band (1/2),
        credit (present (\<lambda>a. present (\<lambda>b. R a b) (di_minus i)) (di_plus i)) 1])"

definition trend_score_long :: "trend_params \<Rightarrow> feature_set \<Rightarrow> flt" where
  "trend_score_long p f =
     (let i = f_indicators f
      in trend_score (\<lambda>a b. b < a) (present (\<lambda>r. tf_rsi_min_long p < r) (rsi_14 i))
           (present (\<lambda>r. flit 60 < r) (rsi_14 i))
           (present (\<lambda>x. flit (4/10) < x \<and> x < flit (85/100)) (bb_position i)) p f)"

definition trend_score_short :: "trend_params \<Rightarrow> feature_set \<Rightarrow> flt" where
  "trend_score_short p f =
     (let i = f_indicators f
      in trend_score (\<lambda>a b. a < b) (present (\<lambda>r. r < tf_rsi_max_short p) (rsi_14 i))
           (present (\<lambda>r. r < flit 40) (rsi_14 i))
           (present (\<lambda>x. flit (15/100) < x \<and> x < flit (6/10)) (bb_position i)) p f)"

definition trend_max :: flt where
  "trend_max = max_total [2, 2, 3/2, 1, 1, 1/2, 1]"

definition trend_conf :: "trend_params \<Rightarrow> flt \<Rightarrow> feature_set \<Rightarrow> flt" where
  "trend_conf p score f =
     (let conf = share score trend_max
      in if present (\<lambda>x. x < tf_adx_min p) (adx_14 (f_indicators f)) then conf * flit (1/2) else conf)"

text \<open>\<open>a and b and float(a) > float(b)\<close> gives the first falsy operand.\<close>

definition alignment_value :: "indicators \<Rightarrow> pyval" where
  "alignment_value i =
     (case ema_9 i of
        None \<Rightarrow> PyNone
      | Some a \<Rightarrow>
          if dval a = 0 then PyDec a
          else case ema_21 i of
                 None \<Rightarrow> PyNone
               | Some b \<Rightarrow> if dval b = 0 then PyDec b else PyBool (float_of b < float_of a))"

definition trend_evaluate ::
  "trend_params \<Rightarrow> signal_direction \<Rightarrow> flt \<Rightarrow> nat \<Rightarrow> market_context \<Rightarrow> signal option"
where
  "trend_evaluate p d score i c =
     (let f = primary c; ind = f_indicators f; conf = trend_conf p score f
      in if conf < tf_min_confidence p then None
         else Some (make_signal i ''trend_following_v1'' c d (min conf (flit 1))
           ([(''score'', PyFloat (round2 score))] @
            (if d = SIG_LONG then [(''max_score'', PyFloat (round2 trend_max))] else []) @
            [(''rsi_14'', opt_float (rsi_14 ind)), (''adx_14'', opt_float (adx_14 ind))] @
            (if d = SIG_LONG
             then [(''ema_alignment'', alignment_value ind), (''volume_ratio'', opt_float (volume_ratio ind))]
             else []))))"

definition trend_following :: "trend_params \<Rightarrow> generator" where
  "trend_following p i c =
     (if \<not> trend_valid c then Inr None
      else if c_regime c = TRENDING_UP
      then Inr (trend_evaluate p SIG_LONG (trend_score_long p (primary c)) i c)
      else if c_regime c = TRENDING_DOWN
      then Inr (trend_evaluate p SIG_SHORT (trend_score_short p (primary c)) i c)
      else Inr None)"

section \<open>Volatility-adjusted momentum\<close>

record vol_params =
  va_returns_5_min :: flt
  va_rsi_low :: flt
  va_rsi_high :: flt
  va_volume_ratio_min :: flt
  va_min_confidence :: flt
  va_reference :: flt

definition default_vol :: vol_params where
  "default_vol = \<lparr>va_returns_5_min = flit (2/100), va_rsi_low = flit 58, va_rsi_high = flit 78,
     va_volume_ratio_min = flit (13/10), va_min_confidence = flit (55/100),
     va_reference = HIGH_VOLATILITY_ATR_PCT\<rparr>"

definition vol_valid :: "market_context \<Rightarrow> bool" where
  "vol_valid c \<longleftrightarrow> rsi_14 (f_indicators (primary c)) \<noteq> None \<and> atr_pct (f_indicators (primary c)) \<noteq> None \<and>
     returns_5 (primary c) \<noteq> None \<and> 0 < f_close (primary c)"

text \<open>\<open>sign * x\<close> with a sign of one or minus one is exact.\<close>

definition signed :: "bool \<Rightarrow> flt \<Rightarrow> flt" where
  "signed long x = (if long then x else - x)"

definition vol_score :: "vol_params \<Rightarrow> bool \<Rightarrow> feature_set \<Rightarrow> flt" where
  "vol_score p long f =
     (let i = f_indicators f;
          lo = (if long then va_rsi_low p else flit 100 - va_rsi_high p);
          hi = (if long then va_rsi_high p else flit 100 - va_rsi_low p)
      in total
       [credit (present (\<lambda>r. va_returns_5_min p < signed long r) (returns_5 f)) (5/2),
        credit (present (\<lambda>r. 0 < signed long r) (returns_10 f)) (3/2),
        credit (present (\<lambda>r. lo < r \<and> r < hi) (rsi_14 i)) 2,
        credit (present (\<lambda>x. 0 < signed long x) (macd_histogram i)) 2,
        credit (present (\<lambda>x. va_volume_ratio_min p \<le> x) (volume_ratio i)) 2])"

definition vol_max :: flt where
  "vol_max = max_total [5/2, 3/2, 2, 2, 2]"

definition dampen :: "vol_params \<Rightarrow> flt \<Rightarrow> flt \<Rightarrow> flt" where
  "dampen p conf atr =
     (let excess = max (atr - va_reference p) (flit 0)
      in conf / (flit 1 + excess / va_reference p))"

definition vol_signal :: "nat \<Rightarrow> market_context \<Rightarrow> flt \<Rightarrow> flt \<Rightarrow> flt \<Rightarrow> signal_direction \<Rightarrow> flt \<Rightarrow> signal" where
  "vol_signal i c atr long_score short_score d conf =
     make_signal i ''volatility_adjusted_momentum_v1'' c d conf
       [(''score'', PyFloat (round2 (if d = SIG_LONG then long_score else short_score))),
        (''atr_pct'', PyFloat atr), (''returns_5'', opt_float (returns_5 (primary c))),
        (''volume_ratio'', opt_float (volume_ratio (f_indicators (primary c)))),
        (''volatility_damped'', PyBool True)]"

text \<open>A reference of zero divides by zero.\<close>

definition volatility_momentum :: "vol_params \<Rightarrow> generator" where
  "volatility_momentum p i c =
     (if \<not> vol_valid c \<or> c_regime c \<noteq> HIGH_VOLATILITY then Inr None
      else if fval (va_reference p) = 0 then Inl DivisionByZero
      else let f = primary c;
               atr = (case atr_pct (f_indicators f) of
                   Some a \<Rightarrow> if fval a = 0 then va_reference p else a | None \<Rightarrow> va_reference p);
               ls = vol_score p True f; ss = vol_score p False f
           in Inr (better_side (va_min_confidence p)
                (dampen p (share ls vol_max) atr) (dampen p (share ss vol_max) atr)
                (vol_signal i c atr ls ss)))"

section \<open>The contract of a strategy\<close>

text \<open>
  What the strategy engine relies on: a signal carries the name of its strategy, the symbol and the regime of
  the context, and a confidence that is at least the minimum of the strategy and at most one; it is only given in
  the regimes the strategy supports, and in a trend only in its direction.
\<close>

locale signal_source =
  fixes generate :: generator
    and name :: string
    and regimes :: "market_regime list"
    and minimum :: flt
  assumes signal_named: "generate i c = Inr (Some s) \<Longrightarrow> sig_strategy s = name \<and> sig_symbol s = c_symbol c"
    and signal_regime: "generate i c = Inr (Some s) \<Longrightarrow> regime s = c_regime c \<and> c_regime c \<in> set regimes"
    and signal_confidence: "generate i c = Inr (Some s) \<Longrightarrow>
      min minimum (flit 1) \<le> confidence s \<and> confidence s \<le> flit 1"
    and signal_direction: "generate i c = Inr (Some s) \<Longrightarrow>
      (direction s = SIG_LONG \<and> c_regime c \<noteq> TRENDING_DOWN) \<or> (direction s = SIG_SHORT \<and> c_regime c \<noteq> TRENDING_UP)"
    and signal_same: "generate i c = Inr (Some s) \<Longrightarrow> \<exists>s'. generate j c = Inr (Some s')"
begin

lemma never_closes: "generate i c = Inr (Some s) \<Longrightarrow> direction s \<noteq> SIG_CLOSE \<and> direction s \<noteq> SIG_NEUTRAL"
  using signal_direction [of i c s] by auto

lemma quiet_outside: "c_regime c \<notin> set regimes \<Longrightarrow> generate i c \<noteq> Inr (Some s)"
  using signal_regime [of i c s] by blast

end

text \<open>What a generator gives whose signals come from one call of \<open>make_signal\<close>.\<close>

definition good_signal :: "string \<Rightarrow> market_context \<Rightarrow> flt \<Rightarrow> signal \<Rightarrow> bool" where
  "good_signal name c minimum s \<longleftrightarrow> sig_strategy s = name \<and> sig_symbol s = c_symbol c \<and> regime s = c_regime c \<and>
     min minimum (flit 1) \<le> confidence s \<and> confidence s \<le> flit 1"

lemma momentum_evaluate_good:
  "momentum_evaluate p d sc i c = Some s \<Longrightarrow>
     good_signal ''momentum_v1'' c (m_min_confidence p) s \<and> direction s = d"
  by (auto simp: momentum_evaluate_def Let_def good_signal_def make_signal_def min_def not_less
      simp del: flt_order split: if_splits)

lemma trend_evaluate_good:
  "trend_evaluate p d sc i c = Some s \<Longrightarrow>
     good_signal ''trend_following_v1'' c (tf_min_confidence p) s \<and> direction s = d"
  by (auto simp: trend_evaluate_def Let_def good_signal_def make_signal_def min_def not_less
      simp del: flt_order split: if_splits)

lemma momentum_good:
  "momentum p i c = Inr (Some s) \<Longrightarrow> good_signal ''momentum_v1'' c (m_min_confidence p) s \<and>
     ((direction s = SIG_LONG \<and> c_regime c = TRENDING_UP) \<or> (direction s = SIG_SHORT \<and> c_regime c = TRENDING_DOWN))"
  by (auto simp: momentum_def split: if_splits dest!: momentum_evaluate_good)

lemma trend_following_good:
  "trend_following p i c = Inr (Some s) \<Longrightarrow> good_signal ''trend_following_v1'' c (tf_min_confidence p) s \<and>
     ((direction s = SIG_LONG \<and> c_regime c = TRENDING_UP) \<or> (direction s = SIG_SHORT \<and> c_regime c = TRENDING_DOWN))"
  by (auto simp: trend_following_def split: if_splits dest!: trend_evaluate_good)

lemma better_side_made:
  assumes "better_side m l sh mk = Some s"
  shows "\<exists>d x. s = mk d x \<and> (d = SIG_LONG \<or> d = SIG_SHORT) \<and> min m (flit 1) \<le> x \<and> x \<le> flit 1"
  using assms
  by (auto simp: better_side_def min_def not_less simp del: flt_order split: if_splits)

lemma reversion_signal_fields [simp]:
  "sig_strategy (reversion_signal i c l sh d x) = ''mean_reversion_v1''"
  "sig_symbol (reversion_signal i c l sh d x) = c_symbol c" "regime (reversion_signal i c l sh d x) = c_regime c"
  "confidence (reversion_signal i c l sh d x) = x" "direction (reversion_signal i c l sh d x) = d"
  by (simp_all add: reversion_signal_def make_signal_def Let_def)

lemma breakout_signal_fields [simp]:
  "sig_strategy (breakout_signal i c l sh d x) = ''breakout_v1''"
  "sig_symbol (breakout_signal i c l sh d x) = c_symbol c" "regime (breakout_signal i c l sh d x) = c_regime c"
  "confidence (breakout_signal i c l sh d x) = x" "direction (breakout_signal i c l sh d x) = d"
  by (simp_all add: breakout_signal_def make_signal_def Let_def)

lemma vol_signal_fields [simp]:
  "sig_strategy (vol_signal i c a l sh d x) = ''volatility_adjusted_momentum_v1''"
  "sig_symbol (vol_signal i c a l sh d x) = c_symbol c" "regime (vol_signal i c a l sh d x) = c_regime c"
  "confidence (vol_signal i c a l sh d x) = x" "direction (vol_signal i c a l sh d x) = d"
  by (simp_all add: vol_signal_def make_signal_def Let_def)

lemma mean_reversion_good:
  "mean_reversion p i c = Inr (Some s) \<Longrightarrow> good_signal ''mean_reversion_v1'' c (rv_min_confidence p) s \<and>
     (direction s = SIG_LONG \<or> direction s = SIG_SHORT) \<and> c_regime c = RANGING"
  by (auto simp: mean_reversion_def Let_def good_signal_def split: if_splits dest!: better_side_made)

lemma breakout_good:
  "breakout p i c = Inr (Some s) \<Longrightarrow> good_signal ''breakout_v1'' c (bo_min_confidence p) s \<and>
     (direction s = SIG_LONG \<or> direction s = SIG_SHORT) \<and> c_regime c = BREAKOUT"
  by (auto simp: breakout_def Let_def good_signal_def split: if_splits dest!: better_side_made)

lemma volatility_momentum_good:
  "volatility_momentum p i c = Inr (Some s) \<Longrightarrow>
     good_signal ''volatility_adjusted_momentum_v1'' c (va_min_confidence p) s \<and>
     (direction s = SIG_LONG \<or> direction s = SIG_SHORT) \<and> c_regime c = HIGH_VOLATILITY"
  by (auto simp: volatility_momentum_def Let_def good_signal_def split: if_splits dest!: better_side_made)

text \<open>Every strategy keeps the contract.\<close>

lemmas contract_defs = good_signal_def

interpretation momentum: signal_source "momentum p" "''momentum_v1''" "[TRENDING_UP, TRENDING_DOWN]"
  "m_min_confidence p"
proof (unfold_locales, goal_cases)
  case (5 i c s j)
  then show ?case by (auto simp: momentum_def momentum_evaluate_def Let_def split: if_splits)
qed (auto dest: momentum_good simp: good_signal_def)

interpretation trend_following: signal_source "trend_following p" "''trend_following_v1''"
  "[TRENDING_UP, TRENDING_DOWN]" "tf_min_confidence p"
proof (unfold_locales, goal_cases)
  case (5 i c s j)
  then show ?case by (auto simp: trend_following_def trend_evaluate_def Let_def split: if_splits)
qed (auto dest: trend_following_good simp: good_signal_def)

interpretation mean_reversion: signal_source "mean_reversion p" "''mean_reversion_v1''" "[RANGING]"
  "rv_min_confidence p"
proof (unfold_locales, goal_cases)
  case (5 i c s j)
  then show ?case by (auto simp: mean_reversion_def better_side_def Let_def split: if_splits)
qed (auto dest: mean_reversion_good simp: good_signal_def)

interpretation breakout: signal_source "breakout p" "''breakout_v1''" "[BREAKOUT]" "bo_min_confidence p"
proof (unfold_locales, goal_cases)
  case (5 i c s j)
  then show ?case by (auto simp: breakout_def better_side_def Let_def split: if_splits)
qed (auto dest: breakout_good simp: good_signal_def)

interpretation volatility_momentum: signal_source "volatility_momentum p"
  "''volatility_adjusted_momentum_v1''" "[HIGH_VOLATILITY]" "va_min_confidence p"
proof (unfold_locales, goal_cases)
  case (5 i c s j)
  then show ?case by (auto simp: volatility_momentum_def better_side_def Let_def split: if_splits)
qed (auto dest: volatility_momentum_good simp: good_signal_def)

section \<open>The registered strategies\<close>

text \<open>What the decorator puts into the registry when the modules are imported: instances with default parameters.\<close>

definition momentum_strategy :: strategy where
  "momentum_strategy = \<lparr>strat_name = ''momentum_v1'', version = ''1.0.0'',
     supported_regimes = [TRENDING_UP, TRENDING_DOWN]\<rparr>"

definition reversion_strategy :: strategy where
  "reversion_strategy = \<lparr>strat_name = ''mean_reversion_v1'', version = ''1.0.0'', supported_regimes = [RANGING]\<rparr>"

definition breakout_strategy :: strategy where
  "breakout_strategy = \<lparr>strat_name = ''breakout_v1'', version = ''1.0.0'', supported_regimes = [BREAKOUT]\<rparr>"

definition trend_strategy :: strategy where
  "trend_strategy = \<lparr>strat_name = ''trend_following_v1'', version = ''1.0.0'',
     supported_regimes = [TRENDING_UP, TRENDING_DOWN]\<rparr>"

definition vol_strategy :: strategy where
  "vol_strategy = \<lparr>strat_name = ''volatility_adjusted_momentum_v1'', version = ''1.0.0'',
     supported_regimes = [HIGH_VOLATILITY]\<rparr>"

definition builtin_strategies :: "(strategy \<times> generator) list" where
  "builtin_strategies =
     [(momentum_strategy, momentum default_momentum), (reversion_strategy, mean_reversion default_reversion),
      (breakout_strategy, breakout default_breakout), (trend_strategy, trend_following default_trend),
      (vol_strategy, volatility_momentum default_vol)]"

lemmas builtin_defs = builtin_strategies_def momentum_strategy_def reversion_strategy_def
  breakout_strategy_def trend_strategy_def vol_strategy_def
  default_momentum_def default_reversion_def default_breakout_def default_trend_def default_vol_def

text \<open>The generators that the registry's names stand for.\<close>

definition builtin_generator :: "string \<Rightarrow> generator" where
  "builtin_generator n =
     (case find (\<lambda>(s, g). strat_name s = n) builtin_strategies of Some (s, g) \<Rightarrow> g | None \<Rightarrow> (\<lambda>i c. Inr None))"

lemma builtin_min: "min (flit (55/100)) (flit 1) = flit (55/100)"
  by (rule min_absorb1) (rule flit_mono, simp)

text \<open>
  Every registered strategy, with its default parameters, signals only in a regime it supports, under its own
  name and for the symbol of the context, with a confidence between its threshold of 0.55 and one; it
  never goes long in a falling trend nor short in a rising one, and never closes.
\<close>

theorem signals_fit_strategy:
  assumes "(s, g) \<in> set builtin_strategies" and "g i c = Inr (Some sg)"
  shows "sig_strategy sg = strat_name s \<and> sig_symbol sg = c_symbol c \<and> regime sg = c_regime c \<and>
    c_regime c \<in> set (supported_regimes s) \<and> flit (55/100) \<le> confidence sg \<and> confidence sg \<le> flit 1 \<and>
    (direction sg = SIG_LONG \<and> c_regime c \<noteq> TRENDING_DOWN \<or> direction sg = SIG_SHORT \<and> c_regime c \<noteq> TRENDING_UP)"
  using assms
  by (auto simp: builtin_defs builtin_min good_signal_def simp del: flt_order
      dest!: momentum_good mean_reversion_good breakout_good trend_following_good volatility_momentum_good)

text \<open>A rising market with every criterion of the momentum strategy met.\<close>

definition demo_context :: market_context where
  "demo_context = \<lparr>c_symbol = f_symbol demo_features, primary = demo_features, c_regime = TRENDING_UP\<rparr>"

lemma demo_signals:
  "\<exists>s. momentum default_momentum 7 demo_context = Inr (Some s) \<and> flit (1/2) \<le> confidence s \<and>
     direction s = SIG_LONG"
proof -
  have "case momentum default_momentum 7 demo_context of
      Inr (Some s) \<Rightarrow> flit (1/2) \<le> confidence s \<and> direction s = SIG_LONG | _ \<Rightarrow> False"
    by code_simp
  then show ?thesis by (auto split: sum.splits option.splits simp del: flt_order)
qed

theorem signals_fit_strategy_witness:
  "\<exists>s. momentum default_momentum 7 demo_context = Inr (Some s) \<and> direction s = SIG_LONG \<and>
     flit (55/100) \<le> confidence s"
proof -
  from demo_signals obtain s where s: "momentum default_momentum 7 demo_context = Inr (Some s)" by blast
  have "(momentum_strategy, momentum default_momentum) \<in> set builtin_strategies"
    by (simp add: builtin_strategies_def)
  from signals_fit_strategy [OF this s] s show ?thesis
    by (auto simp: demo_context_def simp del: flt_order)
qed

end
