(* ===== verification/Feature_Store.thy ===== *)
theory Feature_Store
  imports Market_Types
begin

text \<open>
  \<open>sgr/market_data/feature_store.py\<close>: the cache of the features and of the last regime in Redis. Of Redis the
  model has a table of keys with the time their value expires (\<open>SET\<close> with \<open>EX\<close>, \<open>GET\<close>, \<open>MGET\<close>,
  \<open>DEL\<close>) and the published messages. How a feature set is written as JSON and read back is left to the
  arguments \<open>enc\<close> and \<open>dec\<close>.
\<close>

section \<open>Redis\<close>

record feature_store =
  fs_connected :: bool
  fs_up :: bool
  fs_keys :: "(string, string \<times> time) dict"
  fs_published :: "(string \<times> string) list"

definition new_feature_store :: feature_store where
  "new_feature_store = \<lparr>fs_connected = False, fs_up = True, fs_keys = [], fs_published = []\<rparr>"

definition connect_store :: "feature_store \<Rightarrow> feature_store result" where
  "connect_store s = (if fs_up s then Inr (s\<lparr>fs_connected := True\<rparr>) else Inl (ServiceError 2))"

text \<open>A store that is not connected raises at once, and one whose server is down when it is asked.\<close>

definition with_redis :: "feature_store \<Rightarrow> 'a \<Rightarrow> 'a result" where
  "with_redis s x =
     (if \<not> fs_connected s then Inl RuntimeError else if \<not> fs_up s then Inl (ServiceError 2) else Inr x)"

definition redis_get :: "time \<Rightarrow> string \<Rightarrow> feature_store \<Rightarrow> string option" where
  "redis_get now k s =
     (case map_of (fs_keys s) k of Some (v, e) \<Rightarrow> if now < e then Some v else None | None \<Rightarrow> None)"

definition redis_set :: "time \<Rightarrow> string \<Rightarrow> string \<Rightarrow> int \<Rightarrow> feature_store \<Rightarrow> feature_store" where
  "redis_set now k v ttl s = s\<lparr>fs_keys := AList.update k (v, now + seconds ttl) (fs_keys s)\<rparr>"

section \<open>Operations\<close>

definition ttl_table :: "(string, int) dict" where
  "ttl_table = [(''1m'', 15 * 60), (''3m'', 20 * 60), (''5m'', 60 * 60), (''15m'', 2 * 60 * 60),
     (''30m'', 3 * 60 * 60), (''1h'', 6 * 60 * 60), (''2h'', 12 * 60 * 60), (''4h'', 24 * 60 * 60),
     (''6h'', 36 * 60 * 60), (''1d'', 7 * 24 * 60 * 60)]"

definition ttl_of :: "string \<Rightarrow> int" where
  "ttl_of tf = (case map_of ttl_table tf of Some t \<Rightarrow> t | None \<Rightarrow> 60 * 60)"

text \<open>The publication comes after the two keys are written.\<close>

definition save_features :: "(feature_set \<Rightarrow> string) \<Rightarrow> time \<Rightarrow> feature_set \<Rightarrow> feature_store \<Rightarrow> feature_store result" where
  "save_features enc now f s =
     (let ttl = ttl_of (f_timeframe f);
          channel = ''feature_update:'' @ symbol_switch_key (f_symbol f) @ '':'' @ f_timeframe f;
          s1 = redis_set now (latest_key f) (enc f) ttl (redis_set now (cache_key f) (enc f) (ttl * 10) s)
      in with_redis s (s1\<lparr>fs_published := fs_published s1 @ [(channel, latest_key f)]\<rparr>))"

definition latest_features_key :: "string \<Rightarrow> string \<Rightarrow> string" where
  "latest_features_key sk tf = ''features:latest:'' @ sk @ '':'' @ tf"

definition get_latest ::
  "(string \<Rightarrow> feature_set option) \<Rightarrow> time \<Rightarrow> string \<Rightarrow> string \<Rightarrow> feature_store \<Rightarrow> feature_set option result"
where
  "get_latest dec now sk tf s =
     with_redis s (Option.bind (redis_get now (latest_features_key sk tf) s) dec)"

definition get_at ::
  "(string \<Rightarrow> feature_set option) \<Rightarrow> time \<Rightarrow> string \<Rightarrow> string \<Rightarrow> time \<Rightarrow> feature_store \<Rightarrow> feature_set option result"
where
  "get_at dec now sk tf ts s =
     with_redis s (Option.bind
       (redis_get now (''features:'' @ sk @ '':'' @ tf @ '':'' @ int_str (unix_seconds ts)) s) dec)"

text \<open>\<open>MGET\<close> without a key is an error.\<close>

definition get_many_latest ::
  "(string \<Rightarrow> feature_set option) \<Rightarrow> time \<Rightarrow> string list \<Rightarrow> string \<Rightarrow> feature_store \<Rightarrow>
   (string, feature_set option) dict result"
where
  "get_many_latest dec now sks tf s =
     bind_result (with_redis s ()) (\<lambda>u.
       if sks = [] then Inl (ServiceError 2)
       else Inr (foldl (\<lambda>d sk. AList.update sk (Option.bind (redis_get now (latest_features_key sk tf) s) dec) d)
              [] sks))"

definition regime_key :: "string \<Rightarrow> string \<Rightarrow> string" where
  "regime_key sk tf = ''regime:latest:'' @ sk @ '':'' @ tf"

definition save_regime :: "time \<Rightarrow> string \<Rightarrow> string \<Rightarrow> market_regime \<Rightarrow> feature_store \<Rightarrow> feature_store result" where
  "save_regime now sk tf r s = with_redis s (redis_set now (regime_key sk tf) (regime_value r) (ttl_of tf) s)"

text \<open>An error of the server counts as no regime, a store that was never connected raises.\<close>

definition get_latest_regime :: "time \<Rightarrow> string \<Rightarrow> string \<Rightarrow> feature_store \<Rightarrow> market_regime option result" where
  "get_latest_regime now sk tf s =
     (if \<not> fs_connected s then Inl RuntimeError
      else if \<not> fs_up s then Inr None
      else Inr (Option.bind (redis_get now (regime_key sk tf) s) regime_of_value))"

definition invalidate :: "string \<Rightarrow> string \<Rightarrow> feature_store \<Rightarrow> feature_store result" where
  "invalidate sk tf s = with_redis s (s\<lparr>fs_keys := AList.delete (latest_features_key sk tf) (fs_keys s)\<rparr>)"

section \<open>Keys\<close>

text \<open>A timeframe has no colon, so the last colon of a key separates it from the symbol.\<close>

lemma last_colon:
  assumes "a @ CHR '':'' # x = b @ CHR '':'' # y" and "CHR '':'' \<notin> set x" and "CHR '':'' \<notin> set y"
  shows "a = b \<and> x = y"
proof -
  have e: "rev x @ CHR '':'' # rev a = rev y @ CHR '':'' # rev b"
    using arg_cong [OF assms(1), of rev] by simp
  have t: "takeWhile (\<lambda>c. c \<noteq> CHR '':'') (rev z @ CHR '':'' # c) = rev z" if "CHR '':'' \<notin> set z" for z c
    using that by (subst takeWhile_append2) auto
  from arg_cong [OF e, of "takeWhile (\<lambda>c. c \<noteq> CHR '':'')"] have "rev x = rev y"
    unfolding t [OF assms(2)] t [OF assms(3)] .
  with e show ?thesis by simp
qed

lemma latest_features_key_inj:
  "CHR '':'' \<notin> set tf \<Longrightarrow> CHR '':'' \<notin> set tf' \<Longrightarrow>
   latest_features_key sk tf = latest_features_key sk' tf' \<longleftrightarrow> sk = sk' \<and> tf = tf'"
  using last_colon [of sk tf sk' tf'] by (auto simp: latest_features_key_def)

lemma regime_key_inj:
  "CHR '':'' \<notin> set tf \<Longrightarrow> CHR '':'' \<notin> set tf' \<Longrightarrow>
   regime_key sk tf = regime_key sk' tf' \<longleftrightarrow> sk = sk' \<and> tf = tf'"
  using last_colon [of sk tf sk' tf'] by (auto simp: regime_key_def)

lemma exchange_not_latest: "exchange_value x @ CHR '':'' # a \<noteq> CHR ''l'' # CHR ''a'' # b"
  by (cases x) simp_all

lemma key_spaces:
  "cache_key f \<noteq> latest_features_key sk tf" "regime_key sk tf \<noteq> latest_features_key sk' tf'"
  "latest_key f = latest_features_key (symbol_switch_key (f_symbol f)) (f_timeframe f)"
  using exchange_not_latest by (simp_all add: cache_key_def latest_features_key_def regime_key_def latest_key_def
      symbol_switch_key_def)

lemma redis_get_set:
  "redis_get t k' (redis_set now k v ttl s) =
     (if k' = k then if t < now + seconds ttl then Some v else None else redis_get t k' s)"
  by (simp add: redis_get_def redis_set_def)

lemma redis_set_frame [simp]:
  "fs_connected (redis_set now k v ttl s) = fs_connected s" "fs_up (redis_set now k v ttl s) = fs_up s"
  by (simp_all add: redis_set_def)

lemma with_redis_Inr: "with_redis s x = Inr y \<longleftrightarrow> fs_connected s \<and> fs_up s \<and> x = y"
  by (simp add: with_redis_def)

text \<open>
  What was saved last is what the readers get: after features are saved, their symbol and timeframe
  give them back until the time to live of the timeframe is over and nothing afterwards, and every other
  symbol and timeframe gives what it gave before. This rests on a timeframe having no colon, and on
  JSON that is read back as it was written.
\<close>

theorem saved_features_are_latest:
  assumes "save_features enc now f s = Inr s1" and "dec (enc f) = Some f"
    and "CHR '':'' \<notin> set (f_timeframe f)" and "CHR '':'' \<notin> set tf"
  shows "get_latest dec t sk tf s1 =
    (if sk = symbol_switch_key (f_symbol f) \<and> tf = f_timeframe f
     then Inr (if t < now + seconds (ttl_of tf) then Some f else None)
     else get_latest dec t sk tf s)"
proof -
  let ?k = "latest_features_key sk tf"
  from assms(1) have s: "fs_connected s" "fs_up s"
    and s1: "s1 = redis_set now (latest_key f) (enc f) (ttl_of (f_timeframe f))
      (redis_set now (cache_key f) (enc f) (ttl_of (f_timeframe f) * 10) s)\<lparr>fs_published := fs_published s @
        [(''feature_update:'' @ symbol_switch_key (f_symbol f) @ '':'' @ f_timeframe f, latest_key f)]\<rparr>"
    by (auto simp: save_features_def Let_def with_redis_Inr redis_set_def)
  have "redis_get t ?k s1 =
      (if ?k = latest_key f then if t < now + seconds (ttl_of (f_timeframe f)) then Some (enc f) else None
       else redis_get t ?k s)"
    unfolding s1 using key_spaces(1) [of f sk tf] by (simp add: redis_get_def redis_set_def)
  moreover have "?k = latest_key f \<longleftrightarrow> sk = symbol_switch_key (f_symbol f) \<and> tf = f_timeframe f"
    unfolding key_spaces(3) by (rule latest_features_key_inj) (use assms in simp_all)
  moreover have "fs_connected s1" "fs_up s1" using s by (simp_all add: s1)
  ultimately show ?thesis using s assms(2) by (simp add: get_latest_def with_redis_def)
qed

text \<open>The same for the regime, which does not touch the features.\<close>

lemma saved_regime_is_latest:
  assumes "save_regime now sk tf r s = Inr s1" and "CHR '':'' \<notin> set tf" and "CHR '':'' \<notin> set tf'"
  shows "get_latest_regime t sk' tf' s1 =
      (if sk' = sk \<and> tf' = tf then Inr (if t < now + seconds (ttl_of tf) then Some r else None)
       else get_latest_regime t sk' tf' s)"
    and "get_latest dec t sk' tf' s1 = get_latest dec t sk' tf' s"
proof -
  from assms(1) have s: "fs_connected s" "fs_up s"
    and s1: "s1 = redis_set now (regime_key sk tf) (regime_value r) (ttl_of tf) s"
    by (simp_all add: save_regime_def with_redis_Inr)
  show "get_latest_regime t sk' tf' s1 =
      (if sk' = sk \<and> tf' = tf then Inr (if t < now + seconds (ttl_of tf) then Some r else None)
       else get_latest_regime t sk' tf' s)"
    using s regime_key_inj [OF assms(3,2)] by (simp add: s1 get_latest_regime_def redis_get_set)
  show "get_latest dec t sk' tf' s1 = get_latest dec t sk' tf' s"
    using key_spaces(2) [of sk tf sk' tf'] by (simp add: s1 get_latest_def with_redis_def redis_get_set)
qed

definition demo_store :: feature_store where
  "demo_store = new_feature_store\<lparr>fs_connected := True\<rparr>"

theorem saved_features_are_latest_witness:
  "\<exists>s1. save_features (\<lambda>f. ''json'') 5 demo_features demo_store = Inr s1 \<and>
     get_latest (\<lambda>v. Some demo_features) 6 ''binance:BTC/USDT'' ''1h'' s1 = Inr (Some demo_features) \<and>
     get_latest (\<lambda>v. Some demo_features) (5 + seconds (6 * 60 * 60)) ''binance:BTC/USDT'' ''1h'' s1 = Inr None"
proof -
  obtain s1 where s1: "save_features (\<lambda>f. ''json'') 5 demo_features demo_store = Inr s1"
    by (simp add: save_features_def Let_def with_redis_def demo_store_def new_feature_store_def)
  have k: "symbol_switch_key (f_symbol demo_features) = ''binance:BTC/USDT''" "f_timeframe demo_features = ''1h''"
    "ttl_of ''1h'' = 6 * 60 * 60"
    by (simp_all add: demo_features_def symbol_switch_key_def ccxt_symbol_def ttl_of_def ttl_table_def)
  have "get_latest (\<lambda>v. Some demo_features) t ''binance:BTC/USDT'' ''1h'' s1 =
      Inr (if t < 5 + seconds (6 * 60 * 60) then Some demo_features else None)" for t
    using saved_features_are_latest [OF s1, of "\<lambda>v. Some demo_features" "''1h''" t "''binance:BTC/USDT''"]
    by (simp add: k)
  with s1 show ?thesis by (simp add: seconds_def)
qed

end
