(* ===== verification/Strategy_Engine.thy ===== *)
theory Strategy_Engine
  imports Strategies Feature_Store
begin

text \<open>
  \<open>sgr/strategy/engine.py\<close> and \<open>sgr/strategy/symbol_gate.py\<close>: which active strategies are asked for a
  symbol, and how their signals become one. What the registered strategy objects do is the argument
  \<open>gens\<close> by name, fresh identifiers are \<open>ids\<close>; the validation rows of the database are part of the gate.
\<close>

section \<open>Gate of the symbols\<close>

record validation_row =
  vr_symbol :: string
  vr_exchange :: string
  vr_timeframe :: string
  vr_strategy :: string
  vr_status :: string
  vr_best :: bool
  vr_score :: "flt option"
  vr_batch :: string

type_synonym validation_table = "validation_row list"

text \<open>\<open>ORDER BY score DESC\<close> puts rows without a score first.\<close>

definition get_best_by_symbol :: "string option \<Rightarrow> nat \<Rightarrow> validation_table \<Rightarrow> validation_row list" where
  "get_best_by_symbol batch limit t =
     (let rows = filter (\<lambda>w. vr_best w \<and> (case batch of Some b \<Rightarrow> b = [] \<or> vr_batch w = b | None \<Rightarrow> True)) t
      in take limit (filter (\<lambda>w. vr_score w = None) rows @
           sort_key (\<lambda>w. - fval (the (vr_score w))) (filter (\<lambda>w. vr_score w \<noteq> None) rows)))"

record symbol_gate =
  sg_active :: "(string, string option) dict"
  sg_refreshed :: "time option"
  sg_table :: validation_table
  sg_db_up :: bool

definition new_symbol_gate :: "validation_table \<Rightarrow> symbol_gate" where
  "new_symbol_gate t = \<lparr>sg_active = [], sg_refreshed = None, sg_table = t, sg_db_up = True\<rparr>"

definition gate_allows :: "symbol_gate \<Rightarrow> string \<Rightarrow> string \<Rightarrow> bool" where
  "gate_allows g y n = (case map_of (sg_active g) y of None \<Rightarrow> True | Some a \<Rightarrow> a = Some n)"

definition has_result_for :: "symbol_gate \<Rightarrow> string \<Rightarrow> bool" where
  "has_result_for g y \<longleftrightarrow> map_of (sg_active g) y \<noteq> None"

definition gate_stale :: "time \<Rightarrow> symbol_gate \<Rightarrow> bool" where
  "gate_stale now g =
     (case sg_refreshed g of None \<Rightarrow> True | Some t \<Rightarrow> seconds (15 * 60) < now - t)"

definition active_of_row :: "validation_row \<Rightarrow> string option" where
  "active_of_row w = (if vr_status w = ''active'' then Some (vr_strategy w) else None)"

definition gate_map :: "validation_row list \<Rightarrow> (string, string option) dict" where
  "gate_map rows = foldl (\<lambda>d w. AList.update (vr_symbol w) (active_of_row w) d) []
     (filter (\<lambda>w. vr_exchange w = ''binance'' \<and> vr_timeframe w = ''1h'') rows)"

definition refresh_gate :: "time \<Rightarrow> symbol_gate \<Rightarrow> symbol_gate" where
  "refresh_gate now g =
     (if sg_db_up g
      then g\<lparr>sg_active := gate_map (get_best_by_symbol None 5000 (sg_table g)), sg_refreshed := Some now\<rparr>
      else g)"

definition refresh_if_stale :: "time \<Rightarrow> symbol_gate \<Rightarrow> symbol_gate" where
  "refresh_if_stale now g = (if gate_stale now g then refresh_gate now g else g)"

section \<open>Aggregation\<close>

text \<open>\<open>max\<close> with a key: the first one among the strongest.\<close>

definition stronger :: "signal \<Rightarrow> signal \<Rightarrow> signal" where
  "stronger b s = (if confidence b < confidence s then s else b)"

definition strongest :: "signal \<Rightarrow> signal list \<Rightarrow> signal" where
  "strongest = foldl stronger"

definition mean_confidence :: "signal list \<Rightarrow> flt" where
  "mean_confidence ss = foldl (\<lambda>acc s. acc + confidence s) 0 ss / flit (of_nat (length ss))"

definition of_direction :: "signal_direction \<Rightarrow> signal list \<Rightarrow> signal list" where
  "of_direction d ss = filter (\<lambda>s. direction s = d) ss"

definition agreed :: "signal list \<Rightarrow> signal option" where
  "agreed cs =
     (case cs of
        [] \<Rightarrow> None
      | c # rest \<Rightarrow>
          let best = strongest c rest
          in if rest = [] then Some best
             else Some (best\<lparr>confidence :=
               min (confidence best * flit (11/10) + mean_confidence cs * flit (1/10)) (flit 1)\<rparr>))"

definition aggregate :: "signal list \<Rightarrow> signal option" where
  "aggregate ss =
     (let longs = of_direction SIG_LONG ss; shorts = of_direction SIG_SHORT ss; closes = of_direction SIG_CLOSE ss
      in if longs \<noteq> [] \<and> shorts \<noteq> [] then None
         else agreed (if longs \<noteq> [] then longs else if shorts \<noteq> [] then shorts else closes))"

section \<open>Engine\<close>

record strategy_engine =
  se_store :: feature_store
  se_registry :: strategy_registry
  se_gate :: symbol_gate
  se_allowlist :: "string list option"
  se_gate_off :: bool
  se_bus_up :: bool
  se_published :: "signal list"

definition gate_off_symbols :: "string list" where
  "gate_off_symbols =
     [''BTC/USDT'', ''ETH/USDT'', ''SOL/USDT'', ''XRP/USDT'', ''BNB/USDT'', ''ADA/USDT'', ''AVAX/USDT'',
      ''DOT/USDT'', ''NEAR/USDT'', ''LINK/USDT'', ''FET/USDT'', ''RENDER/USDT'', ''INJ/USDT'', ''SUI/USDT'',
      ''APT/USDT'', ''TIA/USDT'', ''1000PEPE/USDT'', ''DOGE/USDT'', ''1000SHIB/USDT'', ''1000FLOKI/USDT'',
      ''WIF/USDT'', ''1000BONK/USDT'', ''XAU/USDT'', ''XAG/USDT'']"

definition MIN_SIGNAL_CONFIDENCE :: flt where
  "MIN_SIGNAL_CONFIDENCE = flit (1/2)"

definition strategies_for :: "market_regime \<Rightarrow> strategy_engine \<Rightarrow> strategy list" where
  "strategies_for r e =
     (let active = get_active (Some r) (se_registry e)
      in case se_allowlist e of None \<Rightarrow> active | Some names \<Rightarrow> filter (\<lambda>s. strat_name s \<in> set names) active)"

definition asked :: "strategy_engine \<Rightarrow> string \<Rightarrow> string \<Rightarrow> bool" where
  "asked e y n \<longleftrightarrow> (se_gate_off e \<and> y \<in> set gate_off_symbols) \<or> gate_allows (se_gate e) y n"

text \<open>A strategy that raises is skipped, as is a weak signal.\<close>

definition signal_of ::
  "(string \<Rightarrow> generator) \<Rightarrow> (string \<Rightarrow> nat) \<Rightarrow> market_context \<Rightarrow> strategy \<Rightarrow> signal list"
where
  "signal_of gens ids c s =
     (case gens (strat_name s) (ids (strat_name s)) c of
        Inr (Some g) \<Rightarrow> if MIN_SIGNAL_CONFIDENCE \<le> confidence g then [g] else []
      | _ \<Rightarrow> [])"

definition collect_signals ::
  "(string \<Rightarrow> generator) \<Rightarrow> (string \<Rightarrow> nat) \<Rightarrow> market_context \<Rightarrow> strategy_engine \<Rightarrow> strategy list \<Rightarrow> signal list"
where
  "collect_signals gens ids c e ss =
     concat (map (signal_of gens ids c) (filter (\<lambda>s. asked e (ccxt_symbol (c_symbol c)) (strat_name s)) ss))"

definition publish_signal :: "signal \<Rightarrow> strategy_engine \<Rightarrow> strategy_engine" where
  "publish_signal s e = (if se_bus_up e then e\<lparr>se_published := se_published e @ [s]\<rparr> else e)"

definition context_of :: "market_regime \<Rightarrow> feature_set \<Rightarrow> market_context" where
  "context_of r f = \<lparr>c_symbol = f_symbol f, primary = f\<lparr>f_regime := r\<rparr>, c_regime = r\<rparr>"

definition remember_regime :: "time \<Rightarrow> string \<Rightarrow> string \<Rightarrow> market_regime \<Rightarrow> strategy_engine \<Rightarrow> strategy_engine" where
  "remember_regime now sk tf r e =
     (case save_regime now sk tf r (se_store e) of Inr st \<Rightarrow> e\<lparr>se_store := st\<rparr> | Inl x \<Rightarrow> e)"

text \<open>The part of \<open>process\<close> after the features have been loaded.\<close>

definition process_features ::
  "(string \<Rightarrow> generator) \<Rightarrow> (string \<Rightarrow> nat) \<Rightarrow> time \<Rightarrow> string \<Rightarrow> string \<Rightarrow> market_regime \<Rightarrow> feature_set \<Rightarrow>
   strategy_engine \<Rightarrow> strategy_engine \<times> signal option"
where
  "process_features gens ids now sk tf r0 f e =
     (let r = (if r0 = UNKNOWN_REGIME then fst (classify_regime (f_indicators f)) else r0);
          e1 = remember_regime now sk tf r e;
          active = strategies_for r e1
      in if active = [] then (e1, None)
         else let e2 = e1\<lparr>se_gate := refresh_if_stale now (se_gate e1)\<rparr>;
                  signals = collect_signals gens ids (context_of r f) e2 active
              in case aggregate signals of
                   None \<Rightarrow> (e2, None)
                 | Some best \<Rightarrow> (publish_signal best e2, Some best))"

definition process ::
  "(string \<Rightarrow> feature_set option) \<Rightarrow> (string \<Rightarrow> generator) \<Rightarrow> (string \<Rightarrow> nat) \<Rightarrow> time \<Rightarrow> string \<Rightarrow> string \<Rightarrow>
   market_regime \<Rightarrow> strategy_engine \<Rightarrow> strategy_engine \<times> signal option result"
where
  "process dec gens ids now sk tf r0 e =
     (case get_latest dec now sk tf (se_store e) of
        Inl x \<Rightarrow> (e, Inl x)
      | Inr None \<Rightarrow> (e, Inr None)
      | Inr (Some f) \<Rightarrow>
          (case process_features gens ids now sk tf r0 f e of (e1, s) \<Rightarrow> (e1, Inr s)))"

section \<open>Facts on the aggregation\<close>

lemma strongest_in: "strongest b ss \<in> insert b (set ss)"
  by (induction ss arbitrary: b) (auto simp: strongest_def stronger_def split: if_splits)

lemma strongest_max: "s \<in> insert b (set ss) \<Longrightarrow> confidence s \<le> confidence (strongest b ss)"
proof (induction ss arbitrary: b s)
  case (Cons x ss)
  have "confidence b \<le> confidence (stronger b x)" "confidence x \<le> confidence (stronger b x)"
    by (simp_all add: stronger_def)
  moreover have "confidence (stronger b x) \<le> confidence (strongest (stronger b x) ss)"
    by (rule Cons.IH) simp
  moreover have "s \<in> set ss \<Longrightarrow> confidence s \<le> confidence (strongest (stronger b x) ss)"
    by (rule Cons.IH) simp
  ultimately show ?case using Cons.prems by (auto simp: strongest_def)
qed (simp add: strongest_def)

lemma agreed_None: "agreed cs = None \<longleftrightarrow> cs = []"
  by (cases cs) (simp_all add: agreed_def Let_def)

text \<open>The confidence that a result based on the signal \<open>s\<close> has, when the signals \<open>cs\<close> agree.\<close>

definition boosted :: "signal list \<Rightarrow> signal \<Rightarrow> flt" where
  "boosted cs s = (if length cs = 1 then confidence s
     else min (confidence s * flit (11/10) + mean_confidence cs * flit (1/10)) (flit 1))"

lemma agreed_Some:
  assumes "agreed cs = Some b"
  shows "\<exists>s \<in> set cs. (\<forall>x \<in> set cs. confidence x \<le> confidence s) \<and> b = s\<lparr>confidence := confidence b\<rparr> \<and>
    (length cs = 1 \<longrightarrow> b = s) \<and> confidence b = boosted cs s"
proof (cases cs)
  case (Cons c rest)
  have b: "b = (strongest c rest)\<lparr>confidence := confidence b\<rparr>" "rest = [] \<longrightarrow> b = strongest c rest"
    "confidence b = boosted cs (strongest c rest)"
    using assms by (auto simp: Cons agreed_def Let_def boosted_def split: if_splits)
  have "strongest c rest \<in> set cs" using strongest_in [of c rest] by (simp add: Cons)
  moreover have "\<forall>x \<in> set cs. confidence x \<le> confidence (strongest c rest)"
    using strongest_max [of _ c rest] by (simp add: Cons del: flt_order)
  ultimately show ?thesis using b by (intro bexI [of _ "strongest c rest"]) (simp_all add: Cons del: flt_order)
qed (use assms in \<open>simp add: agreed_def\<close>)

text \<open>What aggregation means, without the order in which the code looks at the directions.\<close>

lemma aggregate_iff:
  "aggregate ss = None \<longleftrightarrow>
     (of_direction SIG_LONG ss \<noteq> [] \<and> of_direction SIG_SHORT ss \<noteq> []) \<or>
     (\<forall>s \<in> set ss. direction s = SIG_NEUTRAL)"
proof -
  have "direction s = SIG_NEUTRAL \<longleftrightarrow> direction s \<noteq> SIG_LONG \<and> direction s \<noteq> SIG_SHORT \<and> direction s \<noteq> SIG_CLOSE"
    for s by (cases "direction s") simp_all
  then show ?thesis
    by (auto simp: aggregate_def Let_def agreed_None of_direction_def filter_empty_conv)
qed

lemma aggregate_Some:
  assumes "aggregate ss = Some b"
  obtains s where "s \<in> set ss" "direction b = direction s" "direction s \<noteq> SIG_NEUTRAL"
    "b = s\<lparr>confidence := confidence b\<rparr>"
    "\<And>x. x \<in> set ss \<Longrightarrow> direction x = direction s \<Longrightarrow> confidence x \<le> confidence s"
    "\<And>x. x \<in> set ss \<Longrightarrow> direction s = SIG_LONG \<Longrightarrow> direction x \<noteq> SIG_SHORT"
    "\<And>x. x \<in> set ss \<Longrightarrow> direction s = SIG_SHORT \<Longrightarrow> direction x \<noteq> SIG_LONG"
    "\<And>x. x \<in> set ss \<Longrightarrow> direction s = SIG_CLOSE \<Longrightarrow> direction x \<noteq> SIG_LONG \<and> direction x \<noteq> SIG_SHORT"
    "length (of_direction (direction s) ss) = 1 \<longrightarrow> b = s" "confidence b = boosted (of_direction (direction s) ss) s"
proof -
  obtain d where d: "d \<noteq> SIG_NEUTRAL" "agreed (of_direction d ss) = Some b"
    and both: "of_direction SIG_LONG ss = [] \<or> of_direction SIG_SHORT ss = []"
    and close: "d = SIG_CLOSE \<longrightarrow> of_direction SIG_LONG ss = [] \<and> of_direction SIG_SHORT ss = []"
    using assms by (auto simp: aggregate_def Let_def split: if_splits)
  from agreed_Some [OF d(2)] obtain s where s: "s \<in> set (of_direction d ss)"
    "\<And>x. x \<in> set (of_direction d ss) \<Longrightarrow> confidence x \<le> confidence s"
    "b = s\<lparr>confidence := confidence b\<rparr>" "length (of_direction d ss) = 1 \<longrightarrow> b = s" "confidence b = boosted (of_direction d ss) s"
    by blast
  have b: "direction b = direction s" by (subst s(3)) simp
  have sd: "s \<in> set ss" "direction s = d" using s(1) by (simp_all add: of_direction_def)
  have one: "direction x \<noteq> SIG_SHORT \<or> direction y \<noteq> SIG_LONG" if "x \<in> set ss" "y \<in> set ss" for x y
    using both that by (auto simp: of_direction_def filter_empty_conv)
  show thesis
  proof (rule that [of s])
    show "confidence x \<le> confidence s" if "x \<in> set ss" "direction x = direction s" for x
      by (rule s(2)) (use that sd in \<open>simp add: of_direction_def\<close>)
    show "direction x \<noteq> SIG_SHORT" if "x \<in> set ss" "direction s = SIG_LONG" for x
      using one [of x s] that sd by blast
    show "direction x \<noteq> SIG_LONG" if "x \<in> set ss" "direction s = SIG_SHORT" for x
      using one [of s x] that sd by blast
    show "direction x \<noteq> SIG_LONG \<and> direction x \<noteq> SIG_SHORT" if "x \<in> set ss" "direction s = SIG_CLOSE" for x
      using close that sd by (auto simp: of_direction_def filter_empty_conv)
  qed (use b s sd d(1) in simp_all)
qed

lemma refresh_frame [simp]: "sg_table (refresh_if_stale now g) = sg_table g"
  by (simp add: refresh_if_stale_def refresh_gate_def)

lemma remember_frame [simp]:
  "se_registry (remember_regime now sk tf r e) = se_registry e"
  "se_gate (remember_regime now sk tf r e) = se_gate e"
  "se_allowlist (remember_regime now sk tf r e) = se_allowlist e"
  "se_gate_off (remember_regime now sk tf r e) = se_gate_off e"
  "se_published (remember_regime now sk tf r e) = se_published e"
  "se_bus_up (remember_regime now sk tf r e) = se_bus_up e"
  by (simp_all add: remember_regime_def split: sum.split)

lemma strategies_for_frame [simp]:
  "strategies_for r (remember_regime now sk tf r' e) = strategies_for r e"
  by (simp add: strategies_for_def)

lemma collected:
  "s \<in> set (collect_signals gens ids c e ss) \<longleftrightarrow>
     (\<exists>x \<in> set ss. asked e (ccxt_symbol (c_symbol c)) (strat_name x) \<and>
        gens (strat_name x) (ids (strat_name x)) c = Inr (Some s) \<and> MIN_SIGNAL_CONFIDENCE \<le> confidence s)"
  by (auto simp: collect_signals_def signal_of_def simp del: flt_order split: sum.splits option.splits if_splits)

lemma publish_frame [simp]:
  "se_gate (publish_signal s e) = se_gate e" "se_gate_off (publish_signal s e) = se_gate_off e"
  "se_published (publish_signal s e) = se_published e @ (if se_bus_up e then [s] else [])"
  by (simp_all add: publish_signal_def)

lemma asked_publish [simp]: "asked (publish_signal s e) = asked e"
  by (intro ext) (simp add: asked_def)

definition opposite :: "signal_direction \<Rightarrow> signal_direction \<Rightarrow> bool" where
  "opposite d d' \<longleftrightarrow> d = SIG_LONG \<and> d' = SIG_SHORT \<or> d = SIG_SHORT \<and> d' = SIG_LONG"

text \<open>Which directions a result gives way to: a long and a short to each other, a close to both.\<close>

definition gives_way :: "signal_direction \<Rightarrow> signal_direction \<Rightarrow> bool" where
  "gives_way d d' \<longleftrightarrow> opposite d d' \<or> d = SIG_CLOSE \<and> (d' = SIG_LONG \<or> d' = SIG_SHORT)"

definition regime_for :: "market_regime \<Rightarrow> feature_set \<Rightarrow> market_regime" where
  "regime_for r0 f = (if r0 = UNKNOWN_REGIME then fst (classify_regime (f_indicators f)) else r0)"

section \<open>Properties\<close>


text \<open>What a dictionary holds that was built from rows: the last row of a key.\<close>

lemma gate_fold:
  "map_of (foldl (\<lambda>d w. AList.update (vr_symbol w) (active_of_row w) d) d rows) y =
     (case filter (\<lambda>w. vr_symbol w = y) rows of
        [] \<Rightarrow> map_of d y | ws \<Rightarrow> Some (active_of_row (last ws)))"
  by (induction rows arbitrary: d) (auto split: list.split)

lemma last_sort_key:
  fixes k :: "'a \<Rightarrow> 'b::linorder"
  assumes "xs \<noteq> []"
  shows "last (sort_key k xs) \<in> set xs" and "\<And>x. x \<in> set xs \<Longrightarrow> k x \<le> k (last (sort_key k xs))"
proof -
  let ?ys = "sort_key k xs"
  have ne: "?ys \<noteq> []" using assms by (metis length_0_conv length_sort)
  show "last ?ys \<in> set xs" using last_in_set [OF ne] by simp
  show "k x \<le> k (last ?ys)" if "x \<in> set xs" for x
  proof -
    have "sorted (map k (butlast ?ys @ [last ?ys]))" using ne by simp
    then have "\<forall>z \<in> set (butlast ?ys). k z \<le> k (last ?ys)" by (auto simp: sorted_append simp del: append_butlast_last_id)
    moreover have "set xs = insert (last ?ys) (set (butlast ?ys))"
      using arg_cong [OF append_butlast_last_id [OF ne], of set] by simp
    ultimately show ?thesis using that by auto
  qed
qed

text \<open>
  Which validation decides about a symbol: when all its best rows have a score, it is the one with the
  lowest score among all batches that were ever run, not the latest one, because the rows come with the highest
  score first and each overwrites the one before.
\<close>

theorem lowest_score_decides_gate:
  fixes g y
  defines "ws \<equiv> filter (\<lambda>w. vr_best w \<and> vr_exchange w = ''binance'' \<and> vr_timeframe w = ''1h'' \<and> vr_symbol w = y) (sg_table g)"
  assumes "sg_db_up g" and "length (sg_table g) \<le> 5000" and "w \<in> set ws"
    and "\<forall>v \<in> set ws. vr_score v \<noteq> None"
    and "\<forall>v \<in> set ws. v \<noteq> w \<longrightarrow> the (vr_score w) < the (vr_score v)"
  shows "gate_allows (refresh_gate now g) y n \<longleftrightarrow> active_of_row w = Some n"
proof -
  let ?P = "\<lambda>w. vr_exchange w = ''binance'' \<and> vr_timeframe w = ''1h''" and ?k = "\<lambda>w. - fval (the (vr_score w))"
  let ?t = "filter vr_best (sg_table g)"
  have len: "length (filter vr_best (sg_table g)) \<le> 5000"
    using assms(3) length_filter_le [of vr_best "sg_table g"] by linarith
  have le: "length (filter Q xs @ sort_key ?k (filter (\<lambda>w. \<not> Q w) xs)) = length xs" for Q and xs :: validation_table
    using sum_length_filter_compl [of Q xs] by simp
  have take: "get_best_by_symbol None 5000 (sg_table g) =
      filter (\<lambda>w. vr_score w = None) ?t @ sort_key ?k (filter (\<lambda>w. vr_score w \<noteq> None) ?t)"
    using len le [of "\<lambda>w. vr_score w = None" ?t] by (simp add: get_best_by_symbol_def Let_def)
  have ws: "filter (\<lambda>w. vr_symbol w = y) (filter ?P (get_best_by_symbol None 5000 (sg_table g))) = sort_key ?k ws"
  proof -
    have none: "filter (\<lambda>w. vr_symbol w = y) (filter ?P (filter (\<lambda>w. vr_score w = None) ?t)) = []"
      using assms(5) by (auto simp: ws_def filter_empty_conv)
    have "filter (\<lambda>w. vr_symbol w = y) (filter ?P (sort_key ?k (filter (\<lambda>w. vr_score w \<noteq> None) ?t))) =
        sort_key ?k (filter (\<lambda>w. vr_symbol w = y) (filter ?P (filter (\<lambda>w. vr_score w \<noteq> None) ?t)))"
      by (simp only: filter_sort)
    also have "filter (\<lambda>w. vr_symbol w = y) (filter ?P (filter (\<lambda>w. vr_score w \<noteq> None) ?t)) = ws"
      using assms(5) by (auto simp: ws_def intro!: filter_cong)
    finally show ?thesis using none by (simp only: take filter_append append_Nil)
  qed
  have ne: "ws \<noteq> []" using assms(4) by auto
  have last_w: "last (sort_key ?k ws) = w"
  proof (rule ccontr)
    assume "last (sort_key ?k ws) \<noteq> w"
    with last_sort_key(1) [OF ne, of ?k] assms(6) have "the (vr_score w) < the (vr_score (last (sort_key ?k ws)))" by blast
    with last_sort_key(2) [OF ne assms(4), of ?k] show False by simp
  qed
  obtain z zs where z: "sort_key ?k ws = z # zs" using ne by (metis length_0_conv length_sort list.exhaust)
  have "map_of (gate_map (get_best_by_symbol None 5000 (sg_table g))) y =
      (case sort_key ?k ws of [] \<Rightarrow> None | vs \<Rightarrow> Some (active_of_row (last vs)))"
    unfolding gate_map_def gate_fold ws by (simp split: list.split)
  then have "map_of (gate_map (get_best_by_symbol None 5000 (sg_table g))) y = Some (active_of_row w)"
    using last_w unfolding z by simp
  then have "map_of (sg_active (refresh_gate now g)) y = Some (active_of_row w)"
    using assms(2) by (simp add: refresh_gate_def)
  then show ?thesis by (simp add: gate_allows_def)
qed

section \<open>Examples\<close>

definition demo_strategy_engine :: strategy_engine where
  "demo_strategy_engine =
     \<lparr>se_store = demo_store\<lparr>fs_keys := [(latest_features_key ''binance:BTC/USDT'' ''1h'', (''json'', 100))]\<rparr>,
      se_registry = \<lparr>strategies = [(''momentum_v1'',
          (new_strategy_entry momentum_strategy)\<lparr>strat_active := True\<rparr>)], table = None, db_up = True\<rparr>,
      se_gate = new_symbol_gate [], se_allowlist = None, se_gate_off = False, se_bus_up = True, se_published = []\<rparr>"

lemma demo_momentum: "builtin_generator ''momentum_v1'' = momentum default_momentum"
  by (simp add: builtin_generator_def builtin_strategies_def momentum_strategy_def)

lemma demo_process:
  assumes "gens ''momentum_v1'' i (context_of TRENDING_UP f) = Inr (Some s)" and "MIN_SIGNAL_CONFIDENCE \<le> confidence s"
    and "direction s = SIG_LONG" and "now < 100"
  shows "\<exists>e'. process (\<lambda>v. Some f) gens (\<lambda>n. i) now ''binance:BTC/USDT'' ''1h'' TRENDING_UP
      demo_strategy_engine = (e', Inr (Some s)) \<and>
    get_latest (\<lambda>v. Some f) now ''binance:BTC/USDT'' ''1h'' (se_store e') = Inr (Some f)"
proof -
  let ?l = "\<lambda>st. get_latest (\<lambda>v. Some f) now ''binance:BTC/USDT'' ''1h'' st"
  let ?e1 = "remember_regime now ''binance:BTC/USDT'' ''1h'' TRENDING_UP demo_strategy_engine"
  have f: "?l (se_store demo_strategy_engine) = Inr (Some f)"
    using assms(4) by (simp add: get_latest_def with_redis_def redis_get_def demo_strategy_engine_def demo_store_def
        new_feature_store_def)
  have f1: "?l (se_store ?e1) = Inr (Some f)"
    unfolding remember_regime_def
    by (cases "save_regime now ''binance:BTC/USDT'' ''1h'' TRENDING_UP (se_store demo_strategy_engine)")
      (simp_all add: f saved_regime_is_latest(2))
  have a: "strategies_for TRENDING_UP demo_strategy_engine = [momentum_strategy]"
    by (simp add: strategies_for_def get_active_def demo_strategy_engine_def dict_values_def new_strategy_entry_def
        momentum_strategy_def)
  have n: "strat_name momentum_strategy = ''momentum_v1''" by (simp add: momentum_strategy_def)
  have g: "gate_allows (refresh_if_stale now (se_gate demo_strategy_engine)) y n" for y n
    by (simp add: demo_strategy_engine_def new_symbol_gate_def refresh_if_stale_def gate_stale_def refresh_gate_def
        get_best_by_symbol_def gate_map_def gate_allows_def)
  have "collect_signals gens (\<lambda>n. i) (context_of TRENDING_UP f)
      (e\<lparr>se_gate := refresh_if_stale now (se_gate demo_strategy_engine)\<rparr>) [momentum_strategy] = [s]" for e
    using assms(1,2) by (simp add: collect_signals_def asked_def g signal_of_def n del: flt_order)
  moreover have "aggregate [s] = Some s"
    using assms(3) by (simp add: aggregate_def of_direction_def agreed_def strongest_def)
  moreover have "se_store (publish_signal s e) = se_store e" for e by (simp add: publish_signal_def)
  ultimately show ?thesis
    using f f1 by (simp add: process_def process_features_def Let_def a)
qed


text \<open>A symbol that an early batch rejected and a later one accepted with the score 80.\<close>

definition demo_rows :: validation_table where
  "demo_rows =
     [\<lparr>vr_symbol = ''BTC/USDT'', vr_exchange = ''binance'', vr_timeframe = ''1h'', vr_strategy = ''breakout_v1'',
       vr_status = ''no_valid_strategy'', vr_best = True, vr_score = Some 0, vr_batch = ''b1''\<rparr>,
      \<lparr>vr_symbol = ''BTC/USDT'', vr_exchange = ''binance'', vr_timeframe = ''1h'', vr_strategy = ''momentum_v1'',
       vr_status = ''active'', vr_best = True, vr_score = Some (Flt 80), vr_batch = ''b2''\<rparr>]"

theorem lowest_score_decides_gate_witness:
  "\<not> gate_allows (refresh_gate 5 (new_symbol_gate demo_rows)) ''BTC/USDT'' ''momentum_v1''"
  using lowest_score_decides_gate [of "new_symbol_gate demo_rows" "hd demo_rows" "''BTC/USDT''" 5 "''momentum_v1''"]
  by (simp add: new_symbol_gate_def demo_rows_def active_of_row_def)

end
