(* ===== verification/Orchestrator.thy ===== *)
theory Orchestrator
  imports Strategy_Engine Risk_Engine Execution_Engine Portfolio_Engine Symbol_Kill_Switch
begin

text \<open>
  \<open>sgr/orchestrator/engine.py\<close>: the cycle from a candle to the portfolio, composed of the models of the symbol kill
  switch, the strategy engine, the risk engine, the execution engine and the portfolio engine. The record
  \<open>surroundings\<close> holds what one cycle takes from outside: clock, fresh identifiers, the plugins, the
  numerics of the risk engine and the venue of the execution. The metrics are left out.
\<close>

section \<open>State\<close>

datatype cycle_status =
  NO_SIGNAL | SYMBOL_DISABLED | SIGNAL_REJECTED | CYCLE_RISK_REJECTED | ORDER_FILLED | ORDER_NOT_FILLED | CYCLE_FAILED

datatype cycle_error = DisabledSymbol | FeaturesUnavailable | CycleRaised py_exc

record cycle_result =
  cr_status :: cycle_status
  cr_symbol :: string
  cr_timeframe :: string
  cr_signal :: "signal option"
  cr_assessment :: "assessment option"
  cr_request :: "order_request option"
  cr_result :: "order_result option"
  cr_error :: "cycle_error option"

datatype cycle_event =
    RiskApproved assessment order_request
  | RiskRejected assessment
  | CycleCompleted cycle_result
  | CycleFailed string string py_exc

record orchestrator =
  or_symbols :: sks
  or_strategy :: strategy_engine
  or_risk :: risk_engine
  or_exec :: exec_engine
  or_portfolio :: portfolio
  or_bus_up :: bool
  or_events :: "cycle_event list"

record surroundings =
  su_now :: time
  su_decode :: "string \<Rightarrow> feature_set option"
  su_plugins :: "string \<Rightarrow> generator"
  su_signal_ids :: "string \<Rightarrow> nat"
  su_pct :: percentile
  su_mean :: mean
  su_order_id :: nat
  su_venue :: venue
  su_position_id :: nat
  su_shown :: shown

section \<open>Cycle\<close>

definition publish_cycle :: "cycle_event \<Rightarrow> orchestrator \<Rightarrow> orchestrator" where
  "publish_cycle x o1 = (if or_bus_up o1 then o1\<lparr>or_events := or_events o1 @ [x]\<rparr> else o1)"

definition blank_cycle :: "cycle_status \<Rightarrow> string \<Rightarrow> string \<Rightarrow> cycle_result" where
  "blank_cycle s sk tf = \<lparr>cr_status = s, cr_symbol = sk, cr_timeframe = tf, cr_signal = None,
     cr_assessment = None, cr_request = None, cr_result = None, cr_error = None\<rparr>"

definition account_of :: "feature_set \<Rightarrow> portfolio \<Rightarrow> account" where
  "account_of f p = \<lparr>a_value = portfolio_value p, a_capital = cash p, a_price = f_close f,
     a_atr = atr_14 (f_indicators f), a_win_rate = None, a_profit_factor = None\<rparr>"

text \<open>The last two steps: execution, and the portfolio when something was filled.\<close>

definition filled_some :: "order_result \<Rightarrow> bool" where
  "filled_some r \<longleftrightarrow> status r = FILLED \<or> status r = PARTIALLY_FILLED"

definition book_fill :: "surroundings \<Rightarrow> string \<Rightarrow> signal \<Rightarrow> order_result \<Rightarrow> orchestrator \<Rightarrow> orchestrator" where
  "book_fill su sk sg r o1 =
     (if filled_some r
      then o1\<lparr>or_portfolio := on_order_filled (su_shown su) (su_now su) (su_position_id su) r (or_portfolio o1),
              or_risk := record_trade (su_now su) sk (sig_strategy sg) (or_risk o1)\<rparr>
      else o1)"

definition trade_signal ::
  "surroundings \<Rightarrow> string \<Rightarrow> string \<Rightarrow> signal \<Rightarrow> feature_set \<Rightarrow> orchestrator \<Rightarrow> orchestrator \<times> cycle_result result"
where
  "trade_signal su sk tf sg f o1 =
     (let (risk, a) = evaluate (su_pct su) (su_mean su) (su_now su) sg (dict_values (positions (or_portfolio o1)))
                        (account_of f (or_portfolio o1)) (or_risk o1);
          o2 = o1\<lparr>or_risk := risk\<rparr>
      in if as_decision a = RISK_REJECTED
         then (publish_cycle (RiskRejected a) o2,
               Inr ((blank_cycle CYCLE_RISK_REJECTED sk tf)\<lparr>cr_signal := Some sg, cr_assessment := Some a\<rparr>))
         else (case build_order_request (su_order_id su) sg a (Some (f_close f)) risk of
                 Inl x \<Rightarrow> (o2, Inl x)
               | Inr req \<Rightarrow>
                   let o3 = publish_cycle (RiskApproved a req) o2
                   in case execute (su_venue su) req False (or_exec o3) of
                        Inl x \<Rightarrow> (o3, Inl x)
                      | Inr (r, ee) \<Rightarrow>
                          (book_fill su sk sg r (o3\<lparr>or_exec := ee\<rparr>),
                           Inr ((blank_cycle (if filled_some r then ORDER_FILLED else ORDER_NOT_FILLED) sk tf)
                             \<lparr>cr_signal := Some sg, cr_assessment := Some a, cr_request := Some req,
                              cr_result := Some r\<rparr>))))"

definition run_cycle_internal ::
  "surroundings \<Rightarrow> string \<Rightarrow> string \<Rightarrow> market_regime \<Rightarrow> orchestrator \<Rightarrow> orchestrator \<times> cycle_result result"
where
  "run_cycle_internal su sk tf r0 o1 =
     (if \<not> symbol_active (or_symbols o1) sk
      then (o1, Inr ((blank_cycle SYMBOL_DISABLED sk tf)\<lparr>cr_error := Some DisabledSymbol\<rparr>))
      else case process (su_decode su) (su_plugins su) (su_signal_ids su) (su_now su) sk tf r0 (or_strategy o1) of
             (se, Inl x) \<Rightarrow> (o1\<lparr>or_strategy := se\<rparr>, Inl x)
           | (se, Inr None) \<Rightarrow> (o1\<lparr>or_strategy := se\<rparr>, Inr (blank_cycle NO_SIGNAL sk tf))
           | (se, Inr (Some sg)) \<Rightarrow>
               let o2 = o1\<lparr>or_strategy := se\<rparr>
               in case get_latest (su_decode su) (su_now su) sk tf (se_store se) of
                    Inl x \<Rightarrow> (o2, Inl x)
                  | Inr None \<Rightarrow> (o2, Inr ((blank_cycle CYCLE_FAILED sk tf)\<lparr>cr_signal := Some sg,
                                 cr_error := Some FeaturesUnavailable\<rparr>))
                  | Inr (Some f) \<Rightarrow> trade_signal su sk tf sg f o2)"

definition run_cycle ::
  "surroundings \<Rightarrow> string \<Rightarrow> string \<Rightarrow> market_regime \<Rightarrow> orchestrator \<Rightarrow> orchestrator \<times> cycle_result"
where
  "run_cycle su sk tf r0 o1 =
     (case run_cycle_internal su sk tf r0 o1 of
        (o2, Inr c) \<Rightarrow> (publish_cycle (CycleCompleted c) o2, c)
      | (o2, Inl x) \<Rightarrow> (publish_cycle (CycleFailed sk tf x) o2,
                       (blank_cycle CYCLE_FAILED sk tf)\<lparr>cr_error := Some (CycleRaised x)\<rparr>))"

record candle_event =
  ce_symbol :: symbol
  ce_timeframe :: string
  ce_close :: dec

definition on_candle_event :: "surroundings \<Rightarrow> candle_event \<Rightarrow> orchestrator \<Rightarrow> orchestrator" where
  "on_candle_event su c o1 =
     (let o2 = o1\<lparr>or_portfolio := update_prices [(ccxt_symbol (ce_symbol c), ce_close c)] (or_portfolio o1)\<rparr>
      in fst (run_cycle su (symbol_switch_key (ce_symbol c)) (ce_timeframe c) UNKNOWN_REGIME o2))"

section \<open>Cases of a cycle\<close>

lemma publish_cycle_frame [simp, frame]:
  "or_symbols (publish_cycle x o1) = or_symbols o1" "or_strategy (publish_cycle x o1) = or_strategy o1"
  "or_risk (publish_cycle x o1) = or_risk o1" "or_exec (publish_cycle x o1) = or_exec o1"
  "or_portfolio (publish_cycle x o1) = or_portfolio o1"
  by (simp_all add: publish_cycle_def)

text \<open>How far a cycle has come when the risk engine has decided.\<close>

definition on_path :: "surroundings \<Rightarrow> string \<Rightarrow> string \<Rightarrow> market_regime \<Rightarrow> orchestrator \<Rightarrow> orchestrator \<Rightarrow> signal \<Rightarrow>
    feature_set \<Rightarrow> assessment \<Rightarrow> bool" where
  "on_path su sk tf r0 o1 o2 sg f a \<longleftrightarrow>
     symbol_active (or_symbols o1) sk \<and>
     process (su_decode su) (su_plugins su) (su_signal_ids su) (su_now su) sk tf r0 (or_strategy o1) =
       (or_strategy o2, Inr (Some sg)) \<and>
     get_latest (su_decode su) (su_now su) sk tf (se_store (or_strategy o2)) = Inr (Some f) \<and>
     snd (evaluate (su_pct su) (su_mean su) (su_now su) sg (dict_values (positions (or_portfolio o1)))
            (account_of f (or_portfolio o1)) (or_risk o1)) = a"

definition risk_after :: "surroundings \<Rightarrow> signal \<Rightarrow> feature_set \<Rightarrow> orchestrator \<Rightarrow> risk_engine" where
  "risk_after su sg f o1 = fst (evaluate (su_pct su) (su_mean su) (su_now su) sg
     (dict_values (positions (or_portfolio o1))) (account_of f (or_portfolio o1)) (or_risk o1))"

lemma run_cycle_cases [consumes 1, case_names disabled quiet unavailable rejected raised sent]:
  assumes run: "run_cycle su sk tf r0 o1 = (o2, c)"
  obtains
    (disabled) "\<not> symbol_active (or_symbols o1) sk" "cr_status c = SYMBOL_DISABLED"
      "or_strategy o2 = or_strategy o1" "or_risk o2 = or_risk o1" "or_exec o2 = or_exec o1"
      "or_portfolio o2 = or_portfolio o1"
  | (quiet) "symbol_active (or_symbols o1) sk" "cr_status c = NO_SIGNAL" "cr_signal c = None"
      "or_risk o2 = or_risk o1" "or_exec o2 = or_exec o1" "or_portfolio o2 = or_portfolio o1"
  | (unavailable) "symbol_active (or_symbols o1) sk" "cr_status c = CYCLE_FAILED"
      "or_risk o2 = or_risk o1" "or_exec o2 = or_exec o1" "or_portfolio o2 = or_portfolio o1"
  | (rejected) sg f a where "on_path su sk tf r0 o1 o2 sg f a" "cr_status c = CYCLE_RISK_REJECTED"
      "as_decision a = RISK_REJECTED" "cr_signal c = Some sg" "cr_assessment c = Some a"
      "or_risk o2 = risk_after su sg f o1" "or_exec o2 = or_exec o1" "or_portfolio o2 = or_portfolio o1"
  | (raised) sg f a where "on_path su sk tf r0 o1 o2 sg f a" "cr_status c = CYCLE_FAILED"
      "or_risk o2 = risk_after su sg f o1" "or_exec o2 = or_exec o1" "or_portfolio o2 = or_portfolio o1"
  | (sent) sg f a req r where "on_path su sk tf r0 o1 o2 sg f a" "as_decision a \<noteq> RISK_REJECTED"
      "build_order_request (su_order_id su) sg a (Some (f_close f)) (risk_after su sg f o1) = Inr req"
      "execute (su_venue su) req False (or_exec o1) = Inr (r, or_exec o2)"
      "cr_status c = (if filled_some r then ORDER_FILLED else ORDER_NOT_FILLED)"
      "cr_signal c = Some sg" "cr_assessment c = Some a" "cr_request c = Some req" "cr_result c = Some r"
      "or_risk o2 = (if filled_some r then record_trade (su_now su) sk (sig_strategy sg) (risk_after su sg f o1)
                     else risk_after su sg f o1)"
      "or_portfolio o2 = (if filled_some r
         then on_order_filled (su_shown su) (su_now su) (su_position_id su) r (or_portfolio o1) else or_portfolio o1)"
proof (cases "symbol_active (or_symbols o1) sk")
  case False
  with run show ?thesis by (intro disabled) (auto simp: run_cycle_def run_cycle_internal_def blank_cycle_def)
next
  case True
  obtain se res where p: "process (su_decode su) (su_plugins su) (su_signal_ids su) (su_now su) sk tf r0
      (or_strategy o1) = (se, res)" by fastforce
  consider x where "res = Inl x" | "res = Inr None" | sg where "res = Inr (Some sg)"
    by (metis not_None_eq obj_sumE)
  then show ?thesis
  proof cases
    case 1
    with True p run show ?thesis
      by (intro unavailable) (auto simp: run_cycle_def run_cycle_internal_def blank_cycle_def)
  next
    case 2
    with True p run show ?thesis
      by (intro quiet) (auto simp: run_cycle_def run_cycle_internal_def blank_cycle_def)
  next
    case (3 sg)
    let ?l = "get_latest (su_decode su) (su_now su) sk tf (se_store se)"
    consider x where "?l = Inl x" | "?l = Inr None" | f where "?l = Inr (Some f)"
      by (metis not_None_eq obj_sumE)
    then show ?thesis
    proof cases
      case 1
      with 3 True p run show ?thesis
        by (intro unavailable) (auto simp: run_cycle_def run_cycle_internal_def blank_cycle_def)
    next
      case 2
      with 3 True p run show ?thesis
        by (intro unavailable) (auto simp: run_cycle_def run_cycle_internal_def blank_cycle_def)
    next
      case f: (3 f)
      let ?o = "o1\<lparr>or_strategy := se\<rparr>"
      obtain risk a where ev: "evaluate (su_pct su) (su_mean su) (su_now su) sg (dict_values (positions (or_portfolio o1)))
          (account_of f (or_portfolio o1)) (or_risk o1) = (risk, a)" by fastforce
      have ra: "risk_after su sg f o1 = risk" by (simp add: risk_after_def ev)
      have path: "on_path su sk tf r0 o1 o3 sg f a" if "or_strategy o3 = se" for o3
        using True p 3 f ev that by (simp add: on_path_def)
      have int: "run_cycle_internal su sk tf r0 o1 = trade_signal su sk tf sg f ?o"
        using True p 3 f by (simp add: run_cycle_internal_def)
      show ?thesis
      proof (cases "as_decision a = RISK_REJECTED")
        case rej: True
        then have "trade_signal su sk tf sg f ?o = (publish_cycle (RiskRejected a) (?o\<lparr>or_risk := risk\<rparr>),
            Inr ((blank_cycle CYCLE_RISK_REJECTED sk tf)\<lparr>cr_signal := Some sg, cr_assessment := Some a\<rparr>))"
          by (simp add: trade_signal_def ev)
        with run int rej path ra show ?thesis
          by (intro rejected [of sg f a]) (auto simp: run_cycle_def blank_cycle_def)
      next
        case acc: False
        show ?thesis
        proof (cases "build_order_request (su_order_id su) sg a (Some (f_close f)) risk")
          case (Inl x)
          with acc have "trade_signal su sk tf sg f ?o = (?o\<lparr>or_risk := risk\<rparr>, Inl x)" by (simp add: trade_signal_def ev)
          with run int path ra show ?thesis
            by (intro raised [of sg f a]) (auto simp: run_cycle_def blank_cycle_def)
        next
          case (Inr req)
          let ?o3 = "publish_cycle (RiskApproved a req) (?o\<lparr>or_risk := risk\<rparr>)"
          show ?thesis
          proof (cases "execute (su_venue su) req False (or_exec o1)")
            case (Inl x)
            with acc Inr have "trade_signal su sk tf sg f ?o = (?o3, Inl x)" by (simp add: trade_signal_def ev)
            with run int path ra show ?thesis
              by (intro raised [of sg f a]) (auto simp: run_cycle_def blank_cycle_def)
          next
            case x: (Inr b)
            obtain r ee where b: "b = (r, ee)" by (cases b)
            have "trade_signal su sk tf sg f ?o = (book_fill su sk sg r (?o3\<lparr>or_exec := ee\<rparr>),
                Inr ((blank_cycle (if filled_some r then ORDER_FILLED else ORDER_NOT_FILLED) sk tf)
                  \<lparr>cr_signal := Some sg, cr_assessment := Some a, cr_request := Some req, cr_result := Some r\<rparr>))"
              using acc Inr x b by (simp add: trade_signal_def ev Let_def)
            with run int path ra x b acc Inr show ?thesis
              by (intro sent [of sg f a req r]) (auto simp: run_cycle_def blank_cycle_def book_fill_def)
          qed
        qed
      qed
    qed
  qed
qed

section \<open>Properties\<close>

lemma evaluate_last_trade: "last_trade_at (risk_after su sg f o1) = last_trade_at (or_risk o1)"
  "limits (risk_after su sg f o1) = limits (or_risk o1)"
  unfolding risk_after_def by (rule evaluate_frame [OF prod.collapse [symmetric]])+

text \<open>
  C2. From signal to exchange: when a cycle hands anything over to the exchange, the symbol is not switched off, the
  strategy engine gave a signal for it and the risk engine approved this signal with the state of the
  portfolio, with no kill switch active in either engine; what is handed over is one order, for the
  symbol and the side of the signal, never larger than the approved quantity, and never under reduce-only.
\<close>

theorem exchange_needs_approved_signal:
  assumes run: "run_cycle su sk tf r0 o1 = (o2, c)" and sent: "placed (or_exec o2) \<noteq> placed (or_exec o1)"
  shows "\<exists>sg f a ord1. on_path su sk tf r0 o1 o2 sg f a \<and> as_decision a \<noteq> RISK_REJECTED \<and>
    trading_allowed (re_switch (or_risk o1)) \<and> \<not> is_active (st (ee_switch (or_exec o1))) \<and>
    placed (or_exec o2) = placed (or_exec o1) @ [ord1] \<and> osymbol ord1 = sig_symbol sg \<and>
    oside ord1 = (if direction sg = SIG_LONG then BUY else SELL) \<and>
    quantity ord1 \<le> approved_quantity a \<and> \<not> reduce_only ord1"
  using run
proof (cases rule: run_cycle_cases)
  case (sent sg f a req r)
  note contact = execute_contact [OF sent(4) assms(2)]
  have req: "osymbol req = sig_symbol sg" "oside req = (if direction sg = SIG_LONG then BUY else SELL)"
    "quantity req = approved_quantity a" "\<not> reduce_only req"
    using sent(3) by (auto simp: build_order_request_def Let_def split: if_splits)
  from contact req(4) obtain ord1 where o: "placed (or_exec o2) = placed (or_exec o1) @ [ord1]"
    "ord1 = req\<lparr>quantity := quantity ord1, limit_price := limit_price ord1\<rparr>"
    "quantize_order (su_venue su) req (or_exec o1) = Inr (ord1, None)" by auto
  have f: "osymbol ord1 = osymbol req" "oside ord1 = oside req" "reduce_only ord1 = reduce_only req"
    by (subst o(2); simp)+
  have ev: "evaluate (su_pct su) (su_mean su) (su_now su) sg (dict_values (positions (or_portfolio o1)))
      (account_of f (or_portfolio o1)) (or_risk o1) = (risk_after su sg f o1, a)"
    using sent(1) by (simp add: on_path_def risk_after_def prod_eq_iff)
  note safe = approval_facts [OF ev sent(2)]
  then have "0 \<le> dval (quantity req)" by (simp add: req(3))
  with quantize_order_shrinks [OF o(3)] safe contact sent(1,2) o(1) f req show ?thesis
    by (intro exI [of _ sg] exI [of _ f] exI [of _ a] exI [of _ ord1]) auto
qed (use sent in simp_all)

lemma run_cycle_strategy:
  assumes "run_cycle su sk tf r0 o1 = (o2, c)"
  shows "or_symbols o2 = or_symbols o1"
    "or_strategy o2 = (if symbol_active (or_symbols o1) sk
       then fst (process (su_decode su) (su_plugins su) (su_signal_ids su) (su_now su) sk tf r0 (or_strategy o1))
       else or_strategy o1)"
proof -
  have book: "or_symbols (book_fill su sk sg r o3) = or_symbols o3" "or_strategy (book_fill su sk sg r o3) = or_strategy o3" for sg r o3
    by (simp_all add: book_fill_def)
  have trade: "or_symbols (fst (trade_signal su sk tf sg f o3)) = or_symbols o3"
    "or_strategy (fst (trade_signal su sk tf sg f o3)) = or_strategy o3" for sg f o3
    by (auto simp: trade_signal_def Let_def book split: prod.splits sum.splits)
  have "or_symbols (fst (run_cycle_internal su sk tf r0 o1)) = or_symbols o1 \<and>
    or_strategy (fst (run_cycle_internal su sk tf r0 o1)) = (if symbol_active (or_symbols o1) sk
       then fst (process (su_decode su) (su_plugins su) (su_signal_ids su) (su_now su) sk tf r0 (or_strategy o1))
       else or_strategy o1)"
    by (auto simp: run_cycle_internal_def Let_def trade split: prod.splits sum.splits option.splits)
  with assms show "or_symbols o2 = or_symbols o1"
    "or_strategy o2 = (if symbol_active (or_symbols o1) sk
       then fst (process (su_decode su) (su_plugins su) (su_signal_ids su) (su_now su) sk tf r0 (or_strategy o1))
       else or_strategy o1)"
    by (auto simp: run_cycle_def split: prod.splits sum.splits)
qed

text \<open>
  C23. What a cycle does to the system, by its status. A disabled symbol is exactly what ends with that status. The symbol
  switches never change; the strategy engine changes by its processing of the features, unless the symbol is
  disabled; the risk engine stays as it is when the symbol is disabled or there is no signal, and otherwise is at most
  what its evaluation of the signal the strategy engine gave left (the peak of the account, a scheduled trigger of the
  kill switch); the execution engine stays as it is short of an execution. The portfolio takes exactly the fill of the returned order, once, and only
  when something was filled, and only then the trade is recorded for the cooldown, on top of the evaluation.
\<close>

theorem cycle_status_tells_effect:
  assumes run: "run_cycle su sk tf r0 o1 = (o2, c)"
  shows "(cr_status c = SYMBOL_DISABLED \<longleftrightarrow> \<not> symbol_active (or_symbols o1) sk) \<and>
    or_symbols o2 = or_symbols o1 \<and>
    or_strategy o2 = (if cr_status c = SYMBOL_DISABLED then or_strategy o1
       else fst (process (su_decode su) (su_plugins su) (su_signal_ids su) (su_now su) sk tf r0 (or_strategy o1))) \<and>
    (cr_status c \<in> {SYMBOL_DISABLED, NO_SIGNAL} \<longrightarrow> or_risk o2 = or_risk o1) \<and>
    (cr_status c \<notin> {ORDER_FILLED, ORDER_NOT_FILLED} \<longrightarrow> or_exec o2 = or_exec o1) \<and>
    (if cr_status c = ORDER_FILLED
     then \<exists>r sg f a. on_path su sk tf r0 o1 o2 sg f a \<and> cr_result c = Some r \<and> filled_some r \<and>
       or_portfolio o2 = on_order_filled (su_shown su) (su_now su) (su_position_id su) r (or_portfolio o1) \<and>
       cr_signal c = Some sg \<and> or_risk o2 = record_trade (su_now su) sk (sig_strategy sg) (risk_after su sg f o1) \<and>
       last_trade_at (or_risk o2) = AList.update (cooldown_key sk (sig_strategy sg)) (su_now su) (last_trade_at (or_risk o1))
     else or_portfolio o2 = or_portfolio o1 \<and> last_trade_at (or_risk o2) = last_trade_at (or_risk o1) \<and>
       (or_risk o2 = or_risk o1 \<or> (\<exists>sg f a. on_path su sk tf r0 o1 o2 sg f a \<and> or_risk o2 = risk_after su sg f o1)))"
  using run
proof (cases rule: run_cycle_cases)
  case (sent sg f a req r)
  then show ?thesis
    using run_cycle_strategy [OF run] by (auto simp: evaluate_last_trade record_trade_def on_path_def)
qed (use run_cycle_strategy [OF run] in \<open>auto simp: evaluate_last_trade on_path_def\<close>)

section \<open>The cooldown\<close>

text \<open>
  Trades are recorded under the key of the orchestrator, which starts with the name of the exchange; the risk
  engine looks them up under the plain symbol.
\<close>

definition exchange_keys :: "risk_engine \<Rightarrow> bool" where
  "exchange_keys e \<longleftrightarrow> (\<forall>k \<in> dom (map_of (last_trade_at e)). \<exists>x rest. k = exchange_value x @ '':'' @ rest)"

lemma exchange_key_not_symbol:
  assumes "CHR '':'' \<notin> set b"
  shows "exchange_value x @ CHR '':'' # rest \<noteq> b @ CHR ''/'' # tail_part"
proof
  assume e: "exchange_value x @ CHR '':'' # rest = b @ CHR ''/'' # tail_part"
  have s: "CHR ''/'' \<notin> set (exchange_value x)" by (cases x) simp_all
  from e consider us where "exchange_value x = b @ us" "us @ CHR '':'' # rest = CHR ''/'' # tail_part"
    | us where "exchange_value x @ us = b" "CHR '':'' # rest = us @ CHR ''/'' # tail_part"
    by (auto simp: append_eq_append_conv2)
  then show False
  proof cases
    case (1 us)
    with s show False by (cases us) auto
  next
    case (2 us)
    with assms show False by (cases us) auto
  qed
qed

lemma no_cooldown:
  assumes "exchange_keys e" and "CHR '':'' \<notin> set (base (sig_symbol sg))"
  shows "cooldown_remaining now sg e = 0"
proof -
  have "cooldown_key (ccxt_symbol (sig_symbol sg)) (sig_strategy sg) \<notin> dom (map_of (last_trade_at e))"
  proof
    assume "cooldown_key (ccxt_symbol (sig_symbol sg)) (sig_strategy sg) \<in> dom (map_of (last_trade_at e))"
    with assms(1) obtain x rest where
      "cooldown_key (ccxt_symbol (sig_symbol sg)) (sig_strategy sg) = exchange_value x @ '':'' @ rest"
      unfolding exchange_keys_def by blast
    with exchange_key_not_symbol [OF assms(2), of x rest "quote (sig_symbol sg) @ ''|'' @ sig_strategy sg"]
    show False by (simp add: cooldown_key_def ccxt_symbol_def)
  qed
  then have "map_of (last_trade_at e) (cooldown_key (ccxt_symbol (sig_symbol sg)) (sig_strategy sg)) = None"
    by blast
  then show ?thesis by (simp add: cooldown_remaining_def)
qed

lemma exchange_keys_record:
  "exchange_keys e \<Longrightarrow> exchange_keys (record_trade now (symbol_switch_key y) n e)"
  by (auto simp: exchange_keys_def record_trade_def cooldown_key_def symbol_switch_key_def)

lemma exchange_keys_cong: "last_trade_at e = last_trade_at e' \<Longrightarrow> exchange_keys e = exchange_keys e'"
  by (simp add: exchange_keys_def)

lemma exchange_keys_cycle [preserves]:
  assumes ok: "exchange_keys (or_risk o1)"
  shows "exchange_keys (or_risk (on_candle_event su c o1))"
proof -
  define o2 where "o2 = o1\<lparr>or_portfolio := update_prices [(ccxt_symbol (ce_symbol c), ce_close c)] (or_portfolio o1)\<rparr>"
  obtain o3 cr where run: "run_cycle su (symbol_switch_key (ce_symbol c)) (ce_timeframe c) UNKNOWN_REGIME o2 = (o3, cr)"
    by fastforce
  have after: "exchange_keys (risk_after su sg f o2)" for sg f
    using ok exchange_keys_cong [OF evaluate_last_trade(1), of su sg f o2] by (simp add: o2_def)
  from run have "exchange_keys (or_risk o3)"
    by (cases rule: run_cycle_cases) (use ok after in \<open>simp_all add: o2_def exchange_keys_record\<close>)
  then show ?thesis using run by (simp add: on_candle_event_def Let_def o2_def [symmetric])
qed

interpretation cycles: stateful "\<lambda>o1 (su, c). on_candle_event su c o1" "\<lambda>o1. exchange_keys (or_risk o1)"
  by unfold_locales (auto simp: exchange_keys_cycle)

text \<open>
  C30. The cooldown between trades never takes effect: after any run of candles, whatever was traded in it, no
  signal for a symbol whose base has no colon has any cooldown left, so that no assessment of the risk
  engine is a rejection because of it.
\<close>

theorem trading_never_cools_down:
  assumes "last_trade_at (or_risk o1) = []" and "CHR '':'' \<notin> set (base (sig_symbol sg))"
  shows "cooldown_remaining now sg (or_risk (run (\<lambda>o1 (su, c). on_candle_event su c o1) o1 cs)) = 0"
proof -
  have "exchange_keys (or_risk o1)" using assms(1) by (simp add: exchange_keys_def)
  from cycles.run_ok [OF this] assms(2) show ?thesis by (rule no_cooldown)
qed

section \<open>Examples\<close>

text \<open>A market order that the exchange fills at once, and a strategy that always signals.\<close>

definition demo_quote :: feature_set where
  "demo_quote = demo_features\<lparr>f_close := Dec 30, f_indicators := demo_indicators\<lparr>atr_14 := None\<rparr>\<rparr>"

definition filling_venue :: venue where
  "filling_venue = (demo_venue 1)\<lparr>v_place := (\<lambda>ord. Inr (demo_answer 1 FILLED))\<rparr>"

definition demo_surroundings :: surroundings where
  "demo_surroundings = \<lparr>su_now = 5, su_decode = (\<lambda>v. Some demo_quote),
     su_plugins = (\<lambda>n i c. Inr (Some Position_Sizer.demo_signal)), su_signal_ids = (\<lambda>n. 7), su_pct = no_pct,
     su_mean = no_mean, su_order_id = 1, su_venue = filling_venue, su_position_id = 9, su_shown = (\<lambda>v. [])\<rparr>"

definition demo_orchestrator :: orchestrator where
  "demo_orchestrator = \<lparr>or_symbols = new_sks, or_strategy = demo_strategy_engine, or_risk = Risk_Engine.demo_engine,
     or_exec = Execution_Engine.demo_engine, or_portfolio = new_portfolio PAPER (Dec 1000) None None None,
     or_bus_up = True, or_events = []\<rparr>"

lemma demo_execution:
  assumes "omode ord = PAPER" and "oid ord = 1" and "\<not> reduce_only ord" and "sym_exchange (osymbol ord) = BINANCE"
  shows "\<exists>r e'. execute filling_venue ord False Execution_Engine.demo_engine = Inr (r, e') \<and> status r = FILLED \<and>
    placed e' = [ord]"
proof -
  let ?e = "Execution_Engine.demo_engine\<lparr>leverage_cache := [(symbol_str (osymbol ord), Dec 1)]\<rparr>"
  have gates: "execute filling_venue ord False Execution_Engine.demo_engine = Inr (execute_budgeted filling_venue ord ?e)"
    using assms by (simp add: filling_venue_def demo_venue_def Execution_Engine.demo_engine_def execute_def
      check_live_trading_allowed_def new_kill_switch_def execute_opening_def ensure_leverage_def adapter_of_def Let_def
      quantize_order_def ks_init_def)
  have h: "hands_over ord (ee_exec ?e)"
    by (simp add: hands_over_def Execution_Engine.demo_engine_def demo_executor_def lookup_persisted_def
        get_order_by_id_def)
  have "\<exists>x1. execute_safely (v_place filling_venue) (v_now filling_venue) ord (ee_exec ?e) = (Some (demo_answer 1 FILLED), x1)"
    by (simp add: filling_venue_def demo_venue_def Execution_Engine.demo_engine_def demo_executor_def execute_safely_def
        eval_nat_numeral lookup_persisted_def get_order_by_id_def answered_def)
  then obtain x1 where x: "execute_safely (v_place filling_venue) (v_now filling_venue) ord (ee_exec ?e) =
      (Some (demo_answer 1 FILLED), x1)" ..
  define e1 where "e1 = ?e\<lparr>ee_exec := x1, placed := [ord]\<rparr>"
  have s: "safely filling_venue ord ?e = (Inr (demo_answer 1 FILLED), e1)"
    using h x by (simp add: safely_def e1_def Execution_Engine.demo_engine_def)
  have m: "\<not> marked (demo_answer 1 FILLED)" by (simp add: demo_answer_def blank_result_def marked_def py_get_def)
  have a: "adapter_of filling_venue ?e ord = Inr True"
    using assms by (simp add: adapter_of_def filling_venue_def demo_venue_def Execution_Engine.demo_engine_def)
  have st: "status (attribute ord (demo_answer 1 FILLED)) = FILLED" by (simp add: demo_answer_def attribute_def)
  have x: "execute_internal filling_venue ord ?e = (Inr (attribute ord (demo_answer 1 FILLED)),
      on_fill filling_venue (attribute ord (demo_answer 1 FILLED)) e1)"
    using s m a st by (simp add: execute_internal_def Let_def)
  have "check_live_verification_allowed (v_now filling_venue) ord (ee_gate ?e) qt = (None, None)" for qt
    using assms by (simp add: check_live_verification_allowed_def Execution_Engine.demo_engine_def)
  moreover have "?e\<lparr>ee_gate := None\<rparr> = ?e" by (simp add: Execution_Engine.demo_engine_def)
  ultimately have "execute_budgeted filling_venue ord ?e = (attribute ord (demo_answer 1 FILLED),
      release_order ord (on_fill filling_venue (attribute ord (demo_answer 1 FILLED)) e1))"
    using x by (simp add: execute_budgeted_def Let_def)
  moreover have "placed (release_order ord (on_fill v r e1)) = [ord]" for v r
    by (simp add: release_order_def on_fill_def persist_order_status_def e1_def)
  ultimately show ?thesis using gates st by simp
qed

lemma demo_cycle:
  "\<exists>o2 c. run_cycle demo_surroundings ''binance:BTC/USDT'' ''1h'' TRENDING_UP demo_orchestrator = (o2, c) \<and>
     cr_status c = ORDER_FILLED \<and> length (placed (or_exec o2)) = 1"
proof -
  let ?s = "Position_Sizer.demo_signal"
  obtain se where p: "process (su_decode demo_surroundings) (su_plugins demo_surroundings)
      (su_signal_ids demo_surroundings) 5 ''binance:BTC/USDT'' ''1h'' TRENDING_UP demo_strategy_engine = (se, Inr (Some ?s))"
    and l: "get_latest (su_decode demo_surroundings) 5 ''binance:BTC/USDT'' ''1h'' (se_store se) = Inr (Some demo_quote)"
    using demo_process [of "su_plugins demo_surroundings" 7 demo_quote ?s 5] flit_mono [of "1/2" 1]
    by (auto simp: demo_surroundings_def demo_signal_def MIN_SIGNAL_CONFIDENCE_def flit_def)
  have acc: "account_of demo_quote (new_portfolio PAPER (Dec 1000) None None None) = demo_account"
    by (simp add: account_of_def new_portfolio_def portfolio_value_def dict_values_def demo_quote_def demo_account_def
        dec_eq_iff rnd_dec_grid_0)
  obtain risk a where ev: "evaluate no_pct no_mean 5 ?s [] demo_account Risk_Engine.demo_engine = (risk, a)" by fastforce
  with demo_evaluation have a: "as_decision a = APPROVED" by (metis snd_conv)
  have rm: "re_mode risk = PAPER"
    using evaluate_frame(5) [OF ev] by (simp add: Risk_Engine.demo_engine_def new_risk_engine_def)
  obtain req where b: "build_order_request 1 ?s a (Some (Dec 30)) risk = Inr req"
    and req: "omode req = PAPER" "oid req = 1" "\<not> reduce_only req" "sym_exchange (osymbol req) = BINANCE"
    by (simp add: build_order_request_def Let_def rm demo_signal_def)
  from demo_execution [OF req] obtain r e' where x: "execute filling_venue req False Execution_Engine.demo_engine = Inr (r, e')"
    "status r = FILLED" "placed e' = [req]" by blast
  let ?o = "demo_orchestrator\<lparr>or_strategy := se\<rparr>"
  have parts: "or_portfolio ?o = new_portfolio PAPER (Dec 1000) None None None" "or_risk ?o = Risk_Engine.demo_engine"
    "or_exec ?o = Execution_Engine.demo_engine" "symbol_active (or_symbols demo_orchestrator) k" for k
    by (simp_all add: demo_orchestrator_def symbol_active_def new_sks_def)
  have su: "su_pct demo_surroundings = no_pct" "su_mean demo_surroundings = no_mean" "su_now demo_surroundings = 5"
    "su_order_id demo_surroundings = 1" "su_venue demo_surroundings = filling_venue"
    by (simp_all add: demo_surroundings_def)
  have pos: "dict_values (positions (new_portfolio PAPER (Dec 1000) None None None)) = []"
    by (simp add: new_portfolio_def dict_values_def)
  have close: "f_close demo_quote = Dec 30" by (simp add: demo_quote_def)
  have e3: "or_exec (publish_cycle (RiskApproved a req) (?o\<lparr>or_risk := risk\<rparr>)) = Execution_Engine.demo_engine"
    by (simp add: demo_orchestrator_def)
  have "trade_signal demo_surroundings ''binance:BTC/USDT'' ''1h'' ?s demo_quote ?o =
      (book_fill demo_surroundings ''binance:BTC/USDT'' ?s r
         (publish_cycle (RiskApproved a req) (?o\<lparr>or_risk := risk\<rparr>)\<lparr>or_exec := e'\<rparr>),
       Inr ((blank_cycle ORDER_FILLED ''binance:BTC/USDT'' ''1h'')\<lparr>cr_signal := Some ?s, cr_assessment := Some a,
         cr_request := Some req, cr_result := Some r\<rparr>))"
    unfolding trade_signal_def parts su pos acc ev close prod.case Let_def
    using a b x e3 by (simp add: filled_some_def parts)
  moreover have "run_cycle_internal demo_surroundings ''binance:BTC/USDT'' ''1h'' TRENDING_UP demo_orchestrator =
      trade_signal demo_surroundings ''binance:BTC/USDT'' ''1h'' ?s demo_quote ?o"
  proof -
    have "or_strategy demo_orchestrator = demo_strategy_engine" by (simp add: demo_orchestrator_def)
    with p l parts(4) show ?thesis by (simp add: run_cycle_internal_def su)
  qed
  ultimately show ?thesis
    using x(3) by (simp add: run_cycle_def blank_cycle_def book_fill_def)
qed

theorem exchange_needs_approved_signal_witness:
  "\<exists>o2 c ord1. run_cycle demo_surroundings ''binance:BTC/USDT'' ''1h'' TRENDING_UP demo_orchestrator = (o2, c) \<and>
     placed (or_exec o2) = [ord1] \<and> \<not> reduce_only ord1"
proof -
  from demo_cycle obtain o2 c where run: "run_cycle demo_surroundings ''binance:BTC/USDT'' ''1h'' TRENDING_UP
      demo_orchestrator = (o2, c)" and len: "length (placed (or_exec o2)) = 1" by blast
  have none: "placed (or_exec demo_orchestrator) = []"
    by (simp add: demo_orchestrator_def Execution_Engine.demo_engine_def)
  with len have "placed (or_exec o2) \<noteq> placed (or_exec demo_orchestrator)" by auto
  from exchange_needs_approved_signal [OF run this] run none show ?thesis by auto
qed

theorem cycle_status_tells_effect_witness:
  "\<exists>o2 c r. run_cycle demo_surroundings ''binance:BTC/USDT'' ''1h'' TRENDING_UP demo_orchestrator = (o2, c) \<and>
     cr_status c = ORDER_FILLED \<and> cr_result c = Some r \<and> filled_some r"
proof -
  from demo_cycle obtain o2 c where run: "run_cycle demo_surroundings ''binance:BTC/USDT'' ''1h'' TRENDING_UP
      demo_orchestrator = (o2, c)" and "cr_status c = ORDER_FILLED" by blast
  with cycle_status_tells_effect [OF run] show ?thesis by auto
qed

theorem trading_never_cools_down_witness:
  "cooldown_remaining 6 Position_Sizer.demo_signal (or_risk (run (\<lambda>o1 (su, c). on_candle_event su c o1) demo_orchestrator
     [(demo_surroundings, \<lparr>ce_symbol = f_symbol demo_quote, ce_timeframe = ''1h'', ce_close = Dec 30\<rparr>)])) = 0"
  by (rule trading_never_cools_down)
    (simp_all add: demo_orchestrator_def Risk_Engine.demo_engine_def new_risk_engine_def demo_signal_def)

end
