(* ===== verification/Position_Protection.thy ===== *)
theory Position_Protection
  imports Execution_Engine Portfolio_Engine Feature_Store
begin

text \<open>
  \<open>sgr/risk/position_protection.py\<close>: the manager that attaches stop loss, take profit and deadline to a new
  position, and the watchdog that closes positions that are due, composed of the models of the execution engine,
  the portfolio engine, the feature store and the kill switch. The kill switch the watchdog resets is the one of
  the execution engine (both are \<open>get_kill_switch(mode, tenant)\<close>). Start, stop, sleeping and logs are left out.
\<close>

section \<open>Attaching the levels\<close>

record protection_limits =
  cutover_at :: "time option"
  stop_loss_pct :: flt
  take_profit_pct :: flt
  max_holding_minutes :: int
  taker_fee_pct :: flt
  slippage_pct :: flt

definition extract_entry_regime :: "py_dict \<Rightarrow> market_regime option" where
  "extract_entry_regime md =
     (case py_get md ''entry_regime'' PyNone of
        PyRegime r \<Rightarrow> Some r
      | PyStr s \<Rightarrow> if s = [] then None else regime_of_value s
      | _ \<Rightarrow> None)"

definition plausible :: "position_side \<Rightarrow> dec \<Rightarrow> dec \<Rightarrow> dec \<Rightarrow> bool" where
  "plausible sd entry target stop \<longleftrightarrow>
     0 < target \<and> 0 < stop \<and>
     (if sd = LONG then stop < entry \<and> entry < target else target < entry \<and> entry < stop)"

definition extract_strategy_prices :: "py_dict \<Rightarrow> position_side \<Rightarrow> dec \<Rightarrow> (dec \<times> dec) option" where
  "extract_strategy_prices md sd entry =
     (let raw_target = py_get md ''target_price'' PyNone; raw_stop = py_get md ''stop_price'' PyNone
      in if \<not> truthy raw_target \<or> \<not> truthy raw_stop then None
         else case (decimal_of_pyval raw_target, decimal_of_pyval raw_stop) of
                (Inr target, Inr stop) \<Rightarrow>
                  if plausible sd entry target stop then Some (target, stop) else None
              | _ \<Rightarrow> None)"

definition round_trip_cost :: "protection_limits \<Rightarrow> dec" where
  "round_trip_cost l = dec_of_float (Flt 2 * (taker_fee_pct l + slippage_pct l))"

definition apply_cost_guard :: "dec \<Rightarrow> dec \<Rightarrow> position_side \<Rightarrow> protection_limits \<Rightarrow> dec \<times> bool" where
  "apply_cost_guard entry tp sd l =
     (let min_distance = entry * round_trip_cost l
      in if sd = LONG
         then if tp - entry < min_distance then (entry + min_distance, True) else (tp, False)
         else if entry - tp < min_distance then (entry - min_distance, True) else (tp, False))"

text \<open>The target and the stop before the cost guard.\<close>

definition raw_levels :: "protection_limits \<Rightarrow> position \<Rightarrow> py_dict \<Rightarrow> dec \<times> dec" where
  "raw_levels l p md =
     (let entry = entry_price p;
          sl_pct = dec_of_float (stop_loss_pct l); tp_pct = dec_of_float (take_profit_pct l)
      in case extract_strategy_prices md (pside p) entry of
           Some levels \<Rightarrow> levels
         | None \<Rightarrow> if pside p = LONG then (entry * (1 + tp_pct), entry * (1 - sl_pct))
                   else (entry * (1 - tp_pct), entry * (1 + sl_pct)))"

definition on_position_opened :: "protection_limits \<Rightarrow> position \<Rightarrow> py_dict \<Rightarrow> position option result" where
  "on_position_opened l p md =
     (case cutover_at l of
        None \<Rightarrow> Inr None
      | Some cutover \<Rightarrow>
          if opened_at p < cutover then Inr None
          else let (target, stop) = raw_levels l p md;
                   (tp, guarded) = apply_cost_guard (entry_price p) target (pside p) l
               in Inr (Some (p\<lparr>stop_loss_price := Some stop, take_profit_price := Some tp,
                               max_holding_until := Some (opened_at p + seconds (60 * max_holding_minutes l)),
                               entry_regime := extract_entry_regime md\<rparr>)))"

section \<open>Exits\<close>

datatype exit_reason = STOP_LOSS | TAKE_PROFIT | REGIME_CHANGE | MAX_HOLDING_TIME

fun exit_value :: "exit_reason \<Rightarrow> string" where
  "exit_value STOP_LOSS = ''stop_loss''"
| "exit_value TAKE_PROFIT = ''take_profit''"
| "exit_value REGIME_CHANGE = ''regime_change''"
| "exit_value MAX_HOLDING_TIME = ''max_holding_time''"

definition check_take_profit :: "position \<Rightarrow> exit_reason option" where
  "check_take_profit p =
     (case take_profit_price p of
        None \<Rightarrow> None
      | Some tp \<Rightarrow> if (if pside p = LONG then tp \<le> current_price p else current_price p \<le> tp)
                   then Some TAKE_PROFIT else None)"

definition check_stop_loss :: "position \<Rightarrow> exit_reason option" where
  "check_stop_loss p =
     (case stop_loss_price p of
        None \<Rightarrow> None
      | Some sl \<Rightarrow> if (if pside p = LONG then current_price p \<le> sl else sl \<le> current_price p)
                   then Some STOP_LOSS else None)"

definition check_regime_exit ::
  "time \<Rightarrow> feature_store option \<Rightarrow> string \<Rightarrow> position \<Rightarrow> exit_reason option"
where
  "check_regime_exit now fs tf p =
     (case fs of
        None \<Rightarrow> None
      | Some s \<Rightarrow>
          if entry_regime p \<noteq> Some RANGING then None
          else case get_latest_regime now (symbol_switch_key (psymbol p)) tf s of
                 Inl x \<Rightarrow> None
               | Inr None \<Rightarrow> None
               | Inr (Some r) \<Rightarrow> if r \<noteq> UNKNOWN_REGIME \<and> r \<noteq> RANGING then Some REGIME_CHANGE else None)"

definition check_max_holding_time :: "time \<Rightarrow> position \<Rightarrow> exit_reason option" where
  "check_max_holding_time now p =
     (case max_holding_until p of
        None \<Rightarrow> None
      | Some t \<Rightarrow> if t \<le> now then Some MAX_HOLDING_TIME else None)"

definition or_else :: "'a option \<Rightarrow> 'a option \<Rightarrow> 'a option" where
  "or_else a b = (case a of Some x \<Rightarrow> Some x | None \<Rightarrow> b)"

text \<open>The exit that is due, in the order of priority of \<open>_check_one_position\<close>.\<close>

definition exit_due :: "time \<Rightarrow> feature_store option \<Rightarrow> string \<Rightarrow> position \<Rightarrow> exit_reason option" where
  "exit_due now fs tf p =
     or_else (check_take_profit p) (or_else (check_stop_loss p)
       (or_else (check_regime_exit now fs tf p) (check_max_holding_time now p)))"

section \<open>Watchdog\<close>

record watchdog =
  wd_portfolio :: portfolio
  wd_exec :: exec_engine
  wd_store :: "feature_store option"
  wd_timeframe :: string
  wd_recovery :: bool
  wd_tenant :: "string option"
  wd_last_trigger :: "time option"
  wd_closed :: nat

definition new_watchdog :: "portfolio \<Rightarrow> exec_engine \<Rightarrow> feature_store option \<Rightarrow> string \<Rightarrow> watchdog" where
  "new_watchdog pf ee fs tf = \<lparr>wd_portfolio = pf, wd_exec = ee, wd_store = fs, wd_timeframe = tf,
     wd_recovery = False, wd_tenant = None, wd_last_trigger = None, wd_closed = 0\<rparr>"

definition enable_paper_stress_auto_recovery :: "trading_mode \<Rightarrow> string option \<Rightarrow> watchdog \<Rightarrow> watchdog" where
  "enable_paper_stress_auto_recovery m t w =
     (if m \<noteq> PAPER then w else w\<lparr>wd_recovery := True, wd_tenant := t\<rparr>)"

text \<open>What one tick takes from outside: the clock, the venue of each order, fresh identifiers.\<close>

record watch_tick =
  tk_now :: time
  tk_venue :: "position \<Rightarrow> venue"
  tk_order_id :: "position \<Rightarrow> nat"
  tk_signal_id :: "position \<Rightarrow> nat"
  tk_position_id :: "position \<Rightarrow> nat"
  tk_shown :: shown

definition close_side :: "position \<Rightarrow> side" where
  "close_side p = (if pside p = LONG then SELL else BUY)"

definition exit_order :: "watch_tick \<Rightarrow> position \<Rightarrow> exit_reason \<Rightarrow> order_request" where
  "exit_order t p why = \<lparr>oid = tk_order_id t p, signal_id = tk_signal_id t p, osymbol = psymbol p,
     oside = close_side p, otype = MARKET, quantity = pquantity p, limit_price = None, omode = pmode p,
     reduce_only = True,
     metadata = [(''strategy'', PyStr (strategy_name p)), (''exit_reason'', PyStr (exit_value why))]\<rparr>"

definition close_position :: "watch_tick \<Rightarrow> position \<Rightarrow> exit_reason \<Rightarrow> watchdog \<Rightarrow> watchdog" where
  "close_position t p why w =
     (case execute (tk_venue t p) (exit_order t p why) True (wd_exec w) of
        Inl x \<Rightarrow> w
      | Inr (r, ee) \<Rightarrow>
          if status r = FILLED \<or> status r = PARTIALLY_FILLED
          then w\<lparr>wd_exec := ee,
                 wd_portfolio := on_order_filled (tk_shown t) (tk_now t) (tk_position_id t p) r (wd_portfolio w),
                 wd_closed := (if wd_recovery w then wd_closed w + 1 else wd_closed w)\<rparr>
          else w\<lparr>wd_exec := ee\<rparr>)"

definition check_one_position :: "watch_tick \<Rightarrow> position \<Rightarrow> watchdog \<Rightarrow> watchdog" where
  "check_one_position t p w =
     (case exit_due (tk_now t) (wd_store w) (wd_timeframe w) p of
        None \<Rightarrow> w
      | Some why \<Rightarrow> close_position t p why w)"

definition check_positions_once :: "protection_limits \<Rightarrow> watch_tick \<Rightarrow> watchdog \<Rightarrow> watchdog" where
  "check_positions_once l t w =
     (case cutover_at l of
        None \<Rightarrow> w
      | Some cutover \<Rightarrow>
          fold (check_one_position t)
            (filter (\<lambda>p. cutover \<le> opened_at p) (dict_values (positions (wd_portfolio w)))) w)"

definition maybe_auto_recover :: "watchdog \<Rightarrow> world \<Rightarrow> watchdog \<times> world" where
  "maybe_auto_recover w o1 =
     (let ks = ee_switch (wd_exec w); key = triggered_at (st ks)
      in if \<not> wd_recovery w \<or> \<not> is_active (st ks) then (w, o1)
         else if positions (wd_portfolio w) \<noteq> [] then (w, o1)
         else if key \<noteq> None \<and> key = wd_last_trigger w then (w, o1)
         else let (ks1, o2) = reset ks o1
              in (w\<lparr>wd_exec := (wd_exec w)\<lparr>ee_switch := ks1\<rparr>, wd_last_trigger := key, wd_closed := 0\<rparr>, o2))"

text \<open>One round of \<open>_run_loop\<close>.\<close>

definition watch_round :: "protection_limits \<Rightarrow> watch_tick \<Rightarrow> watchdog \<times> world \<Rightarrow> watchdog \<times> world" where
  "watch_round l t wo = maybe_auto_recover (check_positions_once l t (fst wo)) (snd wo)"

section \<open>Levels\<close>

lemma round_trip_cost_nonneg:
  "0 \<le> fval (taker_fee_pct l) \<Longrightarrow> 0 \<le> fval (slippage_pct l) \<Longrightarrow> 0 \<le> dval (round_trip_cost l)"
  unfolding round_trip_cost_def by (rule dec_of_float_nonneg) (simp_all add: flt.rnd_nonneg)

lemma cost_guard_long:
  assumes "is_dec entry" and "0 \<le> dval entry" and "0 \<le> dval (round_trip_cost l)"
    and g: "apply_cost_guard entry tp LONG l = (tp', b)"
  shows "entry \<le> tp'" and "tp' = entry + entry * round_trip_cost l \<or> entry * round_trip_cost l \<le> tp' - entry"
proof -
  let ?m = "entry * round_trip_cost l"
  have m: "0 \<le> dval ?m" using assms(2,3) by (rule dec_mult_nonneg)
  from g have c: "tp' = entry + ?m \<or> tp' = tp \<and> ?m \<le> tp - entry"
    by (auto simp: apply_cost_guard_def Let_def not_less simp del: dval_simps split: if_splits)
  then show "entry \<le> tp'"
  proof
    assume "tp' = entry + ?m"
    with dec_add_ge [OF assms(1) m] show ?thesis by simp
  next
    assume "tp' = tp \<and> ?m \<le> tp - entry"
    with m have "tp' = tp" "0 \<le> dval (tp - entry)" by (auto simp del: dval_simps)
    then show ?thesis using rnd_dec_nonneg_imp [of "dval tp - dval entry"] by simp
  qed
  from c show "tp' = entry + ?m \<or> ?m \<le> tp' - entry" by blast
qed

lemma cost_guard_short:
  assumes "is_dec entry" and "0 \<le> dval entry" and "0 \<le> dval (round_trip_cost l)" and "sd \<noteq> LONG"
    and g: "apply_cost_guard entry tp sd l = (tp', b)"
  shows "tp' \<le> entry" and "tp' = entry - entry * round_trip_cost l \<or> entry * round_trip_cost l \<le> entry - tp'"
proof -
  let ?m = "entry * round_trip_cost l"
  have m: "0 \<le> dval ?m" using assms(2,3) by (rule dec_mult_nonneg)
  from g assms(4) have c: "tp' = entry - ?m \<or> tp' = tp \<and> ?m \<le> entry - tp"
    by (auto simp: apply_cost_guard_def Let_def not_less simp del: dval_simps split: if_splits)
  then show "tp' \<le> entry"
  proof
    assume "tp' = entry - ?m"
    with dec_diff_le [OF assms(1) m] show ?thesis by simp
  next
    assume "tp' = tp \<and> ?m \<le> entry - tp"
    with m have "tp' = tp" "0 \<le> dval (entry - tp)" by (auto simp del: dval_simps)
    then show ?thesis using rnd_dec_nonneg_imp [of "dval entry - dval tp"] by simp
  qed
  from c show "tp' = entry - ?m \<or> ?m \<le> entry - tp'" by blast
qed

lemma raw_stop_side:
  assumes "is_dec (entry_price p)" and "0 \<le> dval (entry_price p)"
    and "is_float (stop_loss_pct l)" "0 \<le> fval (stop_loss_pct l)" and r: "raw_levels l p md = (target, stop)"
  shows "if pside p = LONG then stop \<le> entry_price p else entry_price p \<le> stop"
proof (cases "extract_strategy_prices md (pside p) (entry_price p)")
  case None
  let ?sl = "dec_of_float (stop_loss_pct l)"
  have sl: "0 \<le> dval ?sl" using assms(3,4) by (rule dec_of_float_nonneg)
  have lo: "dval (1 - ?sl) \<le> 1" using dec_diff_le [OF is_dec_1 sl] by simp
  have hi: "1 \<le> dval (1 + ?sl)" using dec_add_ge [OF is_dec_1 sl] by simp
  from None r show ?thesis
    using dec_mult_le [OF assms(1,2) lo] dec_mult_ge [OF assms(1,2) hi]
    by (auto simp: raw_levels_def Let_def simp del: dval_simps split: if_splits)
next
  case (Some levels)
  with r show ?thesis
    by (auto simp: raw_levels_def extract_strategy_prices_def plausible_def Let_def split: if_splits sum.splits)
qed

text \<open>
  C40. The levels attached to a position enclose its entry price on the right sides, the deadline is the configured time
  after the opening, and the target is at least the cost of a round trip away from the entry: either exactly that
  far, or farther as the source gave it.
\<close>

theorem levels_bracket_entry:
  assumes "on_position_opened l p md = Inr (Some q)"
    and "is_dec (entry_price p)" and "0 < dval (entry_price p)"
    and "is_float (stop_loss_pct l)" and "0 < fval (stop_loss_pct l)"
    and "0 \<le> fval (taker_fee_pct l)" and "0 \<le> fval (slippage_pct l)"
  shows "\<exists>stop tp. stop_loss_price q = Some stop \<and> take_profit_price q = Some tp \<and>
    max_holding_until q = Some (opened_at p + seconds (60 * max_holding_minutes l)) \<and>
    (let cost = entry_price p * round_trip_cost l
     in if pside p = LONG
        then stop \<le> entry_price p \<and> entry_price p \<le> tp \<and> (tp = entry_price p + cost \<or> cost \<le> tp - entry_price p)
        else tp \<le> entry_price p \<and> entry_price p \<le> stop \<and> (tp = entry_price p - cost \<or> cost \<le> entry_price p - tp))"
proof -
  obtain target stop where lv: "raw_levels l p md = (target, stop)" by fastforce
  obtain tp b where g: "apply_cost_guard (entry_price p) target (pside p) l = (tp, b)" by fastforce
  from assms(1) lv g have q: "q = p\<lparr>stop_loss_price := Some stop, take_profit_price := Some tp,
      max_holding_until := Some (opened_at p + seconds (60 * max_holding_minutes l)),
      entry_regime := extract_entry_regime md\<rparr>"
    by (auto simp: on_position_opened_def split: option.splits if_splits)
  have e: "0 \<le> dval (entry_price p)" "0 \<le> fval (stop_loss_pct l)" using assms(3,5) by simp_all
  note side = raw_stop_side [OF assms(2) e(1) assms(4) e(2) lv]
  note c = round_trip_cost_nonneg [OF assms(6,7)]
  show ?thesis
  proof (cases "pside p = LONG")
    case True
    with g have "apply_cost_guard (entry_price p) target LONG l = (tp, b)" by simp
    from cost_guard_long [OF assms(2) e(1) c this] side True show ?thesis
      by (simp add: q Let_def del: dec_order dval_simps)
  next
    case False
    from cost_guard_short [OF assms(2) e(1) c False g] side False show ?thesis
      by (simp add: q Let_def del: dec_order dval_simps)
  qed
qed

section \<open>Ticks\<close>

lemma close_position_places:
  "placed (wd_exec (close_position t p why w)) = placed (wd_exec w) \<or>
   placed (wd_exec (close_position t p why w)) = placed (wd_exec w) @ [exit_order t p why] \<and>
   v_preflight (tk_venue t p) (exit_order t p why) = Inr True \<and> pmode p = ee_mode (wd_exec w)"
proof (cases "execute (tk_venue t p) (exit_order t p why) True (wd_exec w)")
  case (Inl x)
  then show ?thesis by (simp add: close_position_def)
next
  case (Inr y)
  obtain r ee where y: "y = (r, ee)" by fastforce
  have k: "placed (wd_exec (close_position t p why w)) = placed ee"
    using Inr y by (simp add: close_position_def)
  have o: "reduce_only (exit_order t p why)" "omode (exit_order t p why) = pmode p" by (simp_all add: exit_order_def)
  show ?thesis
  proof (cases "placed ee = placed (wd_exec w)")
    case False
    from execute_contact [OF Inr [unfolded y] False] o k show ?thesis by auto
  qed (simp add: k)
qed

lemma close_position_frame [simp, frame]:
  "wd_store (close_position t p why w) = wd_store w" "wd_timeframe (close_position t p why w) = wd_timeframe w"
  "wd_recovery (close_position t p why w) = wd_recovery w"
  "wd_last_trigger (close_position t p why w) = wd_last_trigger w"
  by (simp_all add: close_position_def split: sum.split prod.split)

lemma check_one_frame [simp, frame]:
  "wd_store (check_one_position t p w) = wd_store w" "wd_timeframe (check_one_position t p w) = wd_timeframe w"
  "wd_recovery (check_one_position t p w) = wd_recovery w"
  "wd_last_trigger (check_one_position t p w) = wd_last_trigger w"
  by (simp_all add: check_one_position_def split: option.split)

definition due_order :: "watch_tick \<Rightarrow> watchdog \<Rightarrow> position \<Rightarrow> order_request \<Rightarrow> bool" where
  "due_order t w p ord \<longleftrightarrow>
     (\<exists>why. exit_due (tk_now t) (wd_store w) (wd_timeframe w) p = Some why \<and> ord = exit_order t p why)"

lemma check_one_places:
  "\<exists>os. placed (wd_exec (check_one_position t p w)) = placed (wd_exec w) @ os \<and> (\<forall>ord \<in> set os. due_order t w p ord)"
proof (cases "exit_due (tk_now t) (wd_store w) (wd_timeframe w) p")
  case (Some why)
  with close_position_places [of t p why w] show ?thesis
    by (auto simp: check_one_position_def due_order_def)
qed (simp add: check_one_position_def)

lemma checks_place:
  "\<exists>os. placed (wd_exec (fold (check_one_position t) ps w)) = placed (wd_exec w) @ os \<and>
     (\<forall>ord \<in> set os. \<exists>p \<in> set ps. due_order t w p ord)"
proof (induction ps arbitrary: w)
  case (Cons p ps)
  from check_one_places [of t p w] obtain os1 where
    o1: "placed (wd_exec (check_one_position t p w)) = placed (wd_exec w) @ os1" "\<forall>ord \<in> set os1. due_order t w p ord"
    by blast
  from Cons.IH [of "check_one_position t p w"] obtain os2 where
    o2: "placed (wd_exec (fold (check_one_position t) (p # ps) w)) =
           placed (wd_exec (check_one_position t p w)) @ os2"
      "\<forall>ord \<in> set os2. \<exists>q \<in> set ps. due_order t w q ord"
    by (auto simp: due_order_def)
  with o1 show ?case by (intro exI [of _ "os1 @ os2"]) auto
qed simp

text \<open>What a due exit means.\<close>

definition level_reached :: "position \<Rightarrow> bool" where
  "level_reached p \<longleftrightarrow>
     (\<exists>x. take_profit_price p = Some x \<and> (if pside p = LONG then x \<le> current_price p else current_price p \<le> x)) \<or>
     (\<exists>x. stop_loss_price p = Some x \<and> (if pside p = LONG then current_price p \<le> x else x \<le> current_price p))"

definition overdue :: "time \<Rightarrow> position \<Rightarrow> bool" where
  "overdue now p \<longleftrightarrow> (\<exists>x. max_holding_until p = Some x \<and> x \<le> now)"

lemma exit_due_iff:
  "exit_due now fs tf p \<noteq> None \<longleftrightarrow>
     level_reached p \<or> overdue now p \<or> check_regime_exit now fs tf p = Some REGIME_CHANGE"
  by (auto simp: exit_due_def or_else_def check_take_profit_def check_stop_loss_def check_max_holding_time_def
      check_regime_exit_def level_reached_def overdue_def simp del: dec_order
      split: option.splits if_splits sum.splits)

text \<open>
  C16. A tick of the watchdog only ever hands over reducing market orders, each for the whole quantity of
  a position that was open at its start and opened after the cutover, on the other side of it, and only when
  a level is reached, the deadline is over, or the regime it was opened in has ended.
\<close>

theorem watchdog_closes_only_due:
  "\<exists>os. placed (wd_exec (check_positions_once l t w)) = placed (wd_exec w) @ os \<and>
    (\<forall>ord \<in> set os. \<exists>p cutover. p \<in> set (dict_values (positions (wd_portfolio w))) \<and>
       cutover_at l = Some cutover \<and> cutover \<le> opened_at p \<and>
       (level_reached p \<or> overdue (tk_now t) p \<or>
        check_regime_exit (tk_now t) (wd_store w) (wd_timeframe w) p = Some REGIME_CHANGE) \<and>
       osymbol ord = psymbol p \<and> oside ord = close_side p \<and> quantity ord = pquantity p \<and>
       otype ord = MARKET \<and> reduce_only ord)"
proof (cases "cutover_at l")
  case None
  then show ?thesis by (auto simp: check_positions_once_def)
next
  case (Some c)
  let ?ps = "filter (\<lambda>p. c \<le> opened_at p) (dict_values (positions (wd_portfolio w)))"
  let ?w = "check_positions_once l t w"
  from Some have w': "?w = fold (check_one_position t) ?ps w" by (simp add: check_positions_once_def)
  from checks_place [of t ?ps w] obtain os where os: "placed (wd_exec ?w) = placed (wd_exec w) @ os"
    "\<forall>ord \<in> set os. \<exists>p \<in> set ?ps. due_order t w p ord" unfolding w' by blast
  have "level_reached p \<or> overdue (tk_now t) p \<or>
      check_regime_exit (tk_now t) (wd_store w) (wd_timeframe w) p = Some REGIME_CHANGE"
    "osymbol ord = psymbol p" "oside ord = close_side p" "quantity ord = pquantity p" "otype ord = MARKET"
    "reduce_only ord" if "due_order t w p ord" for p ord
    using that exit_due_iff [of "tk_now t" "wd_store w" "wd_timeframe w" p] by (auto simp: due_order_def exit_order_def)
  with os Some show ?thesis by (intro exI [of _ os]) (fastforce simp del: dec_order)
qed

section \<open>Live exits\<close>

definition exhausted :: "lv_gate option \<Rightarrow> bool" where
  "exhausted x \<longleftrightarrow> (case x of Some g \<Rightarrow> deactivated g \<or> max_loss_usd (profile g) \<le> cumulative_loss g | None \<Rightarrow> True)"

lemma exhausted_refuses:
  assumes "exhausted x" and "omode ord = LIVE" and "check_live_verification_allowed now ord x qt = (y, why)"
  shows "why \<noteq> None \<and> exhausted y"
proof (cases x)
  case (Some g)
  have "check_order_allowed now n lv i g = (g1, r) \<Longrightarrow> r \<noteq> None \<and> exhausted (Some g1)" for n lv i g1 r
    using assms(1) Some by (auto simp: exhausted_def check_order_allowed_def lv_deactivate_def Let_def simp del: dec_order
        split: if_splits)
  with assms Some show ?thesis
    by (auto simp: check_live_verification_allowed_def split: sum.splits prod.splits)
qed (use assms in \<open>auto simp: check_live_verification_allowed_def exhausted_def\<close>)

lemma exhausted_execute:
  assumes "exhausted (ee_gate e)" and "omode ord = LIVE" and "reduce_only ord" and "execute v ord b e = Inr (r, e')"
  shows "status r = REJECTED \<and> placed e' = placed e \<and> exhausted (ee_gate e')"
proof -
  have "status r = REJECTED \<and> placed e' = placed e \<and> exhausted (ee_gate e')"
    if "execute_budgeted v ord e = (r, e')"
    using that exhausted_refuses [OF assms(1,2)]
    by (auto simp: execute_budgeted_def Let_def rejected_result_def split: prod.splits if_splits)
  with assms show ?thesis
    by (auto simp: execute_def bind_result_Inr rejected_result_def split: if_splits)
qed

lemma exhausted_close:
  assumes "exhausted (ee_gate (wd_exec w))" and "pmode p = LIVE"
  shows "exhausted (ee_gate (wd_exec (close_position t p why w))) \<and>
    placed (wd_exec (close_position t p why w)) = placed (wd_exec w) \<and>
    wd_portfolio (close_position t p why w) = wd_portfolio w"
proof (cases "execute (tk_venue t p) (exit_order t p why) True (wd_exec w)")
  case (Inl x)
  with assms show ?thesis by (simp add: close_position_def)
next
  case (Inr y)
  obtain r ee where y: "y = (r, ee)" by fastforce
  from assms(1) exhausted_execute [OF _ _ _ Inr [unfolded y]] assms(2)
  have "status r = REJECTED \<and> placed ee = placed (wd_exec w) \<and> exhausted (ee_gate ee)"
    by (simp add: exit_order_def)
  with Inr y show ?thesis by (simp add: close_position_def)
qed

lemma exhausted_checks:
  "exhausted (ee_gate (wd_exec w)) \<Longrightarrow> \<forall>p \<in> set ps. pmode p = LIVE \<Longrightarrow>
   placed (wd_exec (fold (check_one_position t) ps w)) = placed (wd_exec w) \<and>
   wd_portfolio (fold (check_one_position t) ps w) = wd_portfolio w"
proof (induction ps arbitrary: w)
  case (Cons p ps)
  have "exhausted (ee_gate (wd_exec (check_one_position t p w))) \<and>
      placed (wd_exec (check_one_position t p w)) = placed (wd_exec w) \<and>
      wd_portfolio (check_one_position t p w) = wd_portfolio w"
    using exhausted_close [OF Cons.prems(1), of p t] Cons.prems by (simp add: check_one_position_def split: option.split)
  with Cons.IH [of "check_one_position t p w"] Cons.prems(2) show ?case by simp
qed simp

text \<open>
  C17. Once the approved live run has lost its maximum (or is deactivated otherwise), no exit of the watchdog
  reaches the exchange any more: whatever is due, the tick places nothing and changes no position.
\<close>

theorem exhausted_live_budget_blocks_exits:
  assumes "ee_gate (wd_exec w) = Some g" and "deactivated g \<or> max_loss_usd (profile g) \<le> cumulative_loss g"
    and "\<forall>p \<in> set (dict_values (positions (wd_portfolio w))). pmode p = LIVE"
  shows "placed (wd_exec (check_positions_once l t w)) = placed (wd_exec w) \<and>
    wd_portfolio (check_positions_once l t w) = wd_portfolio w"
proof (cases "cutover_at l")
  case (Some c)
  from assms(1,2) have "exhausted (ee_gate (wd_exec w))" by (simp add: exhausted_def)
  from exhausted_checks [OF this, of "filter (\<lambda>p. c \<le> opened_at p) (dict_values (positions (wd_portfolio w)))" t] assms(3) Some
  show ?thesis by (simp add: check_positions_once_def)
qed (simp add: check_positions_once_def)

section \<open>Booked exits\<close>

lemma close_removes:
  assumes "map_of (positions s) key = Some p" and "is_closing p r" and "pquantity p \<le> filled_quantity r"
  shows "map_of (positions (update_position shown now p r price key s)) key = None"
  using assms by (simp add: update_position_def close_quantity_def close_fully_def Let_def)

text \<open>
  A due exit that the exchange fills takes the position out of the book, provided the raw answer of the exchange
  names the side: without one the fill counts as a buy, and a long position stays in the book although it
  is closed on the exchange.
\<close>

theorem filled_exit_is_booked:
  assumes "exit_due (tk_now t) (wd_store w) (wd_timeframe w) p = Some why"
    and "execute (tk_venue t p) (exit_order t p why) True (wd_exec w) = Inr (r, ee)"
    and "status r = FILLED" and "average_fill_price r = Some price" and "rsymbol r = psymbol p"
    and "0 < pquantity p" and "pquantity p \<le> filled_quantity r" and "pside p = LONG \<or> pside p = SHORT"
    and "map_of (positions (wd_portfolio w)) (symbol_str (psymbol p)) = Some p"
  shows "map_of (positions (wd_portfolio (check_one_position t p w))) (symbol_str (psymbol p)) =
    (if infer_side r = close_side p then None else Some p)"
proof -
  let ?s = "wd_portfolio w" and ?k = "symbol_str (psymbol p)"
  let ?u = "update_position (tk_shown t) (tk_now t) p r price ?k ?s"
  have c: "is_closing p r \<longleftrightarrow> infer_side r = close_side p"
    using assms(8) by (auto simp: is_closing_def close_side_def)
  have "\<not> filled_quantity r \<le> 0" using assms(6,7) by simp
  then have "wd_portfolio (check_one_position t p w) = update_peak ?u"
    using assms by (simp add: check_one_position_def close_position_def on_order_filled_def Let_def del: dec_order)
  moreover have "positions (update_peak x) = positions x" for x by (simp add: update_peak_def)
  moreover have "map_of (positions ?u) ?k = (if infer_side r = close_side p then None else Some p)"
    using close_removes [OF assms(9) _ assms(7)] c assms(9) by (simp add: update_position_def)
  ultimately show ?thesis by simp
qed

section \<open>Recovery from a tripped switch\<close>

lemma recovery_needs_empty_book:
  assumes "maybe_auto_recover w o1 = (w', o2)" and "is_active (st (ee_switch (wd_exec w)))"
    and "\<not> is_active (st (ee_switch (wd_exec w')))"
  shows "wd_recovery w \<and> positions (wd_portfolio w) = [] \<and>
    wd_last_trigger w' = triggered_at (st (ee_switch (wd_exec w)))"
  using assms by (auto simp: maybe_auto_recover_def Let_def split: if_splits prod.splits)

lemma recovery_never_live: "\<not> wd_recovery (enable_paper_stress_auto_recovery LIVE t (new_watchdog pf ee fs tf))"
  by (simp add: enable_paper_stress_auto_recovery_def new_watchdog_def)


section \<open>Examples\<close>

definition demo_long :: position where
  "demo_long = \<lparr>pid = 4, psymbol = osymbol (demo_order PAPER), pside = LONG, pquantity = Dec 2,
     entry_price = Dec 100, current_price = Dec 90, leverage = 1, unrealized_pnl = 0, realized_pnl = 0,
     opened_at = 50, strategy_name = ''momentum'', pmode = PAPER, stop_loss_price = Some (Dec 95),
     take_profit_price = Some (Dec 110), max_holding_until = Some 900, sl_order_id = None, tp_order_id = None,
     entry_regime = Some TRENDING_UP\<rparr>"

definition demo_exit_fill :: "order_request \<Rightarrow> order_result" where
  "demo_exit_fill ord = (blank_result ord 3)\<lparr>status := FILLED, filled_quantity := quantity ord,
     average_fill_price := Some (Dec 90), exchange_order_id := ''X7'',
     raw_response := [(''side'', PyStr ''sell'')]\<rparr>"

definition demo_watch_tick :: watch_tick where
  "demo_watch_tick = \<lparr>tk_now = 60, tk_venue = (\<lambda>p. (demo_venue 1)\<lparr>v_place := (\<lambda>ord. Inr (demo_exit_fill ord))\<rparr>),
     tk_order_id = (\<lambda>p. 21), tk_signal_id = (\<lambda>p. 22), tk_position_id = (\<lambda>p. 23), tk_shown = (\<lambda>v. [])\<rparr>"

definition demo_watchdog :: watchdog where
  "demo_watchdog = new_watchdog
     ((new_portfolio PAPER (Dec 800) None None None)\<lparr>positions := [(''BTC/USDT:binance'', demo_long)]\<rparr>)
     demo_engine None ''1h''"

definition demo_limits :: protection_limits where
  "demo_limits = \<lparr>cutover_at = Some 10, stop_loss_pct = Flt (1/4), take_profit_pct = Flt (1/2),
     max_holding_minutes = 30, taker_fee_pct = Flt 0, slippage_pct = Flt (1/4)\<rparr>"

lemma demo_due: "exit_due 60 None tf demo_long = Some STOP_LOSS"
  by (simp add: exit_due_def or_else_def check_take_profit_def check_stop_loss_def demo_long_def)

lemma demo_exit:
  "\<exists>e'. execute (tk_venue demo_watch_tick demo_long) (exit_order demo_watch_tick demo_long STOP_LOSS) True demo_engine =
     Inr (attribute (exit_order demo_watch_tick demo_long STOP_LOSS)
            (demo_exit_fill (exit_order demo_watch_tick demo_long STOP_LOSS)), e') \<and>
     placed e' = [exit_order demo_watch_tick demo_long STOP_LOSS]"
proof -
  let ?v = "tk_venue demo_watch_tick demo_long" and ?o = "exit_order demo_watch_tick demo_long STOP_LOSS"
  have h: "hands_over ?o (ee_exec demo_engine)"
    by (simp add: hands_over_def demo_engine_def demo_executor_def lookup_persisted_def get_order_by_id_def)
  have "\<exists>x1. execute_safely (v_place ?v) (v_now ?v) ?o (ee_exec demo_engine) = (Some (demo_exit_fill ?o), x1)"
    by (simp add: demo_defs demo_watch_tick_def exit_order_def demo_exit_fill_def demo_executor_def execute_safely_def
        eval_nat_numeral lookup_persisted_def get_order_by_id_def answered_def)
  then obtain x1 where x: "execute_safely (v_place ?v) (v_now ?v) ?o (ee_exec demo_engine) = (Some (demo_exit_fill ?o), x1)" ..
  define e1 where "e1 = demo_engine\<lparr>ee_exec := x1, placed := [?o]\<rparr>"
  have s: "safely ?v ?o demo_engine = (Inr (demo_exit_fill ?o), e1)"
    using h x by (simp add: safely_def e1_def demo_engine_def)
  have up: "adapter_of ?v demo_engine ?o = Inr True"
    by (simp add: adapter_of_def demo_defs demo_watch_tick_def exit_order_def demo_long_def)
  have st: "status (demo_exit_fill ?o) = FILLED" by (simp add: demo_exit_fill_def)
  have um: "\<not> marked (demo_exit_fill ?o)" by (simp add: marked_def demo_exit_fill_def py_get_def)
  have i: "execute_internal ?v ?o demo_engine = (Inr (attribute ?o (demo_exit_fill ?o)), on_fill ?v (attribute ?o (demo_exit_fill ?o)) e1)"
    using s up um st by (simp add: execute_internal_def Let_def)
  have paper: "omode ?o = PAPER" "reduce_only ?o" by (simp_all add: exit_order_def demo_long_def)
  have ge: "demo_engine\<lparr>ee_gate := None\<rparr> = demo_engine" "ee_gate demo_engine = None" by (simp_all add: demo_engine_def)
  from i paper have "execute_budgeted ?v ?o demo_engine = (attribute ?o (demo_exit_fill ?o),
      release_order ?o (on_fill ?v (attribute ?o (demo_exit_fill ?o)) e1))"
    by (simp add: execute_budgeted_def check_live_verification_allowed_def ge)
  moreover have "ee_mode demo_engine = PAPER" "v_preflight ?v = (\<lambda>ord. Inr True)"
    by (simp_all add: demo_engine_def demo_watch_tick_def demo_venue_def)
  ultimately have "execute ?v ?o True demo_engine = Inr (attribute ?o (demo_exit_fill ?o),
      release_order ?o (on_fill ?v (attribute ?o (demo_exit_fill ?o)) e1))"
    using paper by (simp add: execute_def check_live_trading_allowed_def)
  then show ?thesis by (simp add: e1_def)
qed

lemma demo_check:
  "check_positions_once demo_limits demo_watch_tick demo_watchdog = check_one_position demo_watch_tick demo_long demo_watchdog"
  by (simp add: check_positions_once_def demo_limits_def demo_watchdog_def new_watchdog_def dict_values_def demo_long_def)

lemma demo_one:
  "\<exists>e'. execute (tk_venue demo_watch_tick demo_long) (exit_order demo_watch_tick demo_long STOP_LOSS) True
       (wd_exec demo_watchdog) = Inr (attribute (exit_order demo_watch_tick demo_long STOP_LOSS)
            (demo_exit_fill (exit_order demo_watch_tick demo_long STOP_LOSS)), e') \<and>
     placed (wd_exec (check_one_position demo_watch_tick demo_long demo_watchdog)) =
       [exit_order demo_watch_tick demo_long STOP_LOSS]"
proof -
  have w: "wd_exec demo_watchdog = demo_engine" "tk_now demo_watch_tick = 60" "wd_store demo_watchdog = None"
    by (simp_all add: demo_watchdog_def new_watchdog_def demo_watch_tick_def)
  from demo_exit show ?thesis
    by (auto simp: w check_one_position_def demo_due close_position_def demo_exit_fill_def)
qed

theorem levels_bracket_entry_witness:
  "\<exists>q stop tp. on_position_opened demo_limits demo_long [] = Inr (Some q) \<and> stop_loss_price q = Some stop \<and>
     take_profit_price q = Some tp \<and> stop \<le> Dec 100 \<and> Dec 100 \<le> tp"
proof -
  have "\<exists>q. on_position_opened demo_limits demo_long [] = Inr (Some q)"
    by (simp add: on_position_opened_def demo_limits_def demo_long_def split: prod.split)
  then obtain q where q: "on_position_opened demo_limits demo_long [] = Inr (Some q)" ..
  have e: "is_dec (entry_price demo_long)" "0 < dval (entry_price demo_long)" "entry_price demo_long = Dec 100"
    "pside demo_long = LONG"
    using rnd_dec_numerals(3) [of 100] by (simp_all add: demo_long_def is_dec_def)
  have l: "is_float (stop_loss_pct demo_limits)" "0 < fval (stop_loss_pct demo_limits)"
    "0 \<le> fval (taker_fee_pct demo_limits)" "0 \<le> fval (slippage_pct demo_limits)"
    by (simp_all add: demo_limits_def is_float_def)
  from levels_bracket_entry [OF q e(1,2) l] q e(3,4) show ?thesis by (auto simp: Let_def simp del: dec_order)
qed

theorem watchdog_closes_only_due_witness:
  "\<exists>os. placed (wd_exec (check_positions_once demo_limits demo_watch_tick demo_watchdog)) = os \<and> os \<noteq> [] \<and>
     (\<forall>ord \<in> set os. reduce_only ord \<and> oside ord = SELL \<and> quantity ord = Dec 2)"
proof -
  have p: "set (dict_values (positions (wd_portfolio demo_watchdog))) = {demo_long}" "close_side demo_long = SELL"
    "pquantity demo_long = Dec 2"
    by (simp_all add: demo_watchdog_def new_watchdog_def dict_values_def close_side_def demo_long_def)
  have e: "placed (wd_exec demo_watchdog) = []" by (simp add: demo_watchdog_def new_watchdog_def demo_engine_def)
  from watchdog_closes_only_due [of demo_limits demo_watch_tick demo_watchdog] demo_one show ?thesis
    unfolding p(1) e demo_check by (auto simp: p)
qed

theorem filled_exit_is_booked_witness:
  "map_of (positions (wd_portfolio (check_one_position demo_watch_tick demo_long demo_watchdog))) ''BTC/USDT:binance'' = None"
proof -
  let ?o = "exit_order demo_watch_tick demo_long STOP_LOSS"
  let ?r = "attribute ?o (demo_exit_fill ?o)"
  from demo_one obtain e' where x: "execute (tk_venue demo_watch_tick demo_long) ?o True (wd_exec demo_watchdog) = Inr (?r, e')"
    by blast
  have k: "symbol_str (psymbol demo_long) = ''BTC/USDT:binance''"
    by (simp add: symbol_str_def demo_long_def demo_order_def)
  have d: "exit_due (tk_now demo_watch_tick) (wd_store demo_watchdog) (wd_timeframe demo_watchdog) demo_long = Some STOP_LOSS"
    using demo_due by (simp add: demo_watchdog_def new_watchdog_def demo_watch_tick_def)
  have r: "status ?r = FILLED" "average_fill_price ?r = Some (Dec 90)" "rsymbol ?r = psymbol demo_long"
    "pquantity demo_long \<le> filled_quantity ?r"
    by (simp_all add: attribute_def demo_exit_fill_def blank_result_def exit_order_def)
  have s: "infer_side ?r = close_side demo_long"
    by (simp add: infer_side_def attribute_def demo_exit_fill_def py_get_def map_of_merge_dict attribution_ok
        close_side_def demo_long_def attribution_def attribution_keys_def exit_order_def merge_dict_def ascii_lower_def)
  have m: "map_of (positions (wd_portfolio demo_watchdog)) (symbol_str (psymbol demo_long)) = Some demo_long"
    unfolding k by (simp add: demo_watchdog_def new_watchdog_def)
  have q: "0 < pquantity demo_long" "pside demo_long = LONG \<or> pside demo_long = SHORT" by (simp_all add: demo_long_def)
  from filled_exit_is_booked [OF d x r(1,2,3) q(1) r(4) q(2) m] s show ?thesis by (simp add: k)
qed

definition demo_spent_gate :: lv_gate where
  "demo_spent_gate = (new_lv_gate 0 \<lparr>max_total_budget_usd = Dec 100, max_loss_usd = Dec 5, max_daily_loss_usd = Dec 5,
     max_concurrent_grids = 1, max_orders = 20, max_exposure_usd = Dec 100, max_leverage = 1,
     max_position_size_usd = Dec 300, max_duration_minutes = 600, started_at = 0, approved_by = ''op''\<rparr>)
     \<lparr>cumulative_loss := Dec 6\<rparr>"

definition demo_live_watchdog :: watchdog where
  "demo_live_watchdog = new_watchdog
     ((new_portfolio LIVE (Dec 800) None None None)
        \<lparr>positions := [(''BTC/USDT:binance'', demo_long\<lparr>pmode := LIVE\<rparr>)]\<rparr>)
     (demo_engine\<lparr>ee_mode := LIVE, ee_gate := Some demo_spent_gate\<rparr>) None ''1h''"

theorem exhausted_live_budget_blocks_exits_witness:
  "exit_due 60 None ''1h'' (demo_long\<lparr>pmode := LIVE\<rparr>) = Some STOP_LOSS \<and>
   wd_portfolio (check_positions_once demo_limits demo_watch_tick demo_live_watchdog) = wd_portfolio demo_live_watchdog"
proof -
  have g: "ee_gate (wd_exec demo_live_watchdog) = Some demo_spent_gate"
    "deactivated demo_spent_gate \<or> max_loss_usd (profile demo_spent_gate) \<le> cumulative_loss demo_spent_gate"
    "\<forall>p \<in> set (dict_values (positions (wd_portfolio demo_live_watchdog))). pmode p = LIVE"
    by (simp_all add: demo_live_watchdog_def new_watchdog_def demo_spent_gate_def new_lv_gate_def dict_values_def)
  have "exit_due 60 None ''1h'' (demo_long\<lparr>pmode := LIVE\<rparr>) = Some STOP_LOSS"
    by (simp add: exit_due_def or_else_def check_take_profit_def check_stop_loss_def demo_long_def)
  with exhausted_live_budget_blocks_exits [OF g, of demo_limits demo_watch_tick] show ?thesis by blast
qed

end
