(* ===== verification/Grid_Types.thy ===== *)
theory Grid_Types
  imports Market_Types
begin

text \<open>
  Futures grids before they run: the parameters and levels of \<open>sgr/core/grid_types.py\<close>, the score of
  \<open>sgr/market_data/grid_suitability.py\<close>, and the strategies of \<open>sgr/strategy/futures_grid.py\<close>. The power of two
  floats, which the C library computes for Python, is the argument \<open>fpow\<close>. The reasons are left out.
\<close>

section \<open>Parameters\<close>

record grid_params =
  lower_price :: dec
  upper_price :: dec
  grid_count :: int
  long_or_short :: grid_direction
  gp_leverage :: dec
  gp_margin_mode :: margin_mode
  grid_mode :: grid_spacing_mode
  grid_spacing :: "dec option"
  position_size :: dec
  max_notional :: dec
  take_profit :: "dec option"
  stop_loss :: "dec option"
  maximum_holding_time :: "int option"

text \<open>\<open>__post_init__\<close>\<close>

definition check_grid_params :: "grid_params \<Rightarrow> grid_params result" where
  "check_grid_params p =
     (if lower_price p \<le> 0 \<or> upper_price p \<le> 0 \<or> upper_price p \<le> lower_price p \<or> grid_count p < 2 \<or>
         gp_leverage p < 1 \<or> long_or_short p = GRID_NEUTRAL
      then Inl ValueError else Inr p)"

type_synonym fpow = "flt \<Rightarrow> flt \<Rightarrow> flt"

definition raw_level :: "fpow \<Rightarrow> grid_params \<Rightarrow> int \<Rightarrow> dec" where
  "raw_level fpow p i =
     (let lo = lower_price p; hi = upper_price p; n = grid_count p
      in if grid_mode p = GEOMETRIC
         then let ratio = fpow (float_of (hi / lo)) (Flt 1 / Flt (of_int (n - 1)))
              in lo * dec_of_float (fpow ratio (Flt (of_int i)))
         else lo + (hi - lo) / Dec (of_int (n - 1)) * Dec (of_int i))"

fun rounded_levels :: "dec list \<Rightarrow> dec list result" where
  "rounded_levels [] = Inr []"
| "rounded_levels (x # xs) =
     bind_result (quantize x 8 ROUND_HALF_EVEN) (\<lambda>y. bind_result (rounded_levels xs) (\<lambda>ys. Inr (y # ys)))"

definition compute_levels :: "fpow \<Rightarrow> grid_params \<Rightarrow> dec list result" where
  "compute_levels fpow p = rounded_levels (map (raw_level fpow p) [0..grid_count p - 1])"

definition effective_grid_spacing :: "fpow \<Rightarrow> grid_params \<Rightarrow> dec result" where
  "effective_grid_spacing fpow p =
     (case grid_spacing p of
        Some s \<Rightarrow> Inr s
      | None \<Rightarrow> bind_result (compute_levels fpow p) (\<lambda>levels.
          case levels of a # b # _ \<Rightarrow> Inr (b - a) | _ \<Rightarrow> Inr 0))"

definition grid_notional :: "grid_params \<Rightarrow> dec" where
  "grid_notional p = position_size p * Dec (of_int (grid_count p))"

section \<open>Levels\<close>

lemma rounded_levels_length: "rounded_levels xs = Inr ys \<Longrightarrow> length ys = length xs"
  by (induction xs arbitrary: ys) (auto simp: bind_result_Inr)

lemma rounded_levels_nth:
  "rounded_levels xs = Inr ys \<Longrightarrow> i < length xs \<Longrightarrow> quantize (xs ! i) 8 ROUND_HALF_EVEN = Inr (ys ! i)"
proof (induction xs arbitrary: ys i)
  case (Cons x xs)
  then show ?case by (cases i) (auto simp: bind_result_Inr)
qed simp

lemma quantize_mono:
  assumes "quantize a places ROUND_HALF_EVEN = Inr b" and "quantize c places ROUND_HALF_EVEN = Inr d"
    and "dval a \<le> dval c"
  shows "dval b \<le> dval d"
proof -
  have "rhe (dval a * bpow 10 places) \<le> rhe (dval c * bpow 10 places)"
    using assms(3) by (intro rhe_mono mult_right_mono) auto
  then have "dval b * bpow 10 places \<le> dval d * bpow 10 places"
    using quantize_Inr [OF assms(1)] quantize_Inr [OF assms(2)] by simp
  then show ?thesis using bpow10_pos [of places] by simp
qed

lemma arithmetic_level_mono:
  assumes "grid_mode p = ARITHMETIC" and "check_grid_params p = Inr p" and "0 \<le> i" and "i \<le> j"
  shows "dval (raw_level fpow p i) \<le> dval (raw_level fpow p j)"
proof -
  let ?step = "(upper_price p - lower_price p) / Dec (of_int (grid_count p - 1))"
  have n: "2 \<le> grid_count p" "dval (lower_price p) < dval (upper_price p)"
    using assms(2) by (auto simp: check_grid_params_def split: if_splits)
  have "0 \<le> dval (upper_price p - lower_price p)" using n by (simp add: dec.rnd_nonneg)
  then have s: "0 \<le> dval ?step" using n by (simp add: dec.rnd_nonneg divide_nonneg_nonneg)
  have "dval (?step * Dec (of_int i)) \<le> dval (?step * Dec (of_int j))"
    using s assms(4) by (simp add: dec.rnd_mono mult_left_mono)
  then have "dval (lower_price p + ?step * Dec (of_int i)) \<le> dval (lower_price p + ?step * Dec (of_int j))"
    by (simp add: dec.rnd_mono)
  then show ?thesis using assms(1) by (simp add: raw_level_def Let_def)
qed

text \<open>
  The levels of an arithmetic grid that can be built at all: as many as the parameters say, in ascending order, the
  first at the lower price to within the rounding to eight decimals, and each a multiple of that unit.
\<close>

theorem arithmetic_levels_sorted:
  assumes "check_grid_params p = Inr p" and "grid_mode p = ARITHMETIC" and "compute_levels fpow p = Inr ls"
  shows "int (length ls) = grid_count p \<and> sorted (map dval ls) \<and>
    \<bar>dval (hd ls) - rnd_dec (dval (lower_price p))\<bar> \<le> 1 / (2 * 10 ^ 8) \<and>
    (\<forall>l \<in> set ls. on_grid 8 (dval l))"
proof -
  let ?xs = "map (raw_level fpow p) [0..grid_count p - 1]"
  have n: "2 \<le> grid_count p" using assms(1) by (auto simp: check_grid_params_def split: if_splits)
  have q: "rounded_levels ?xs = Inr ls" using assms(3) by (simp add: compute_levels_def)
  note len = rounded_levels_length [OF q]
  have nth: "quantize (raw_level fpow p (int i)) 8 ROUND_HALF_EVEN = Inr (ls ! i)" if "i < length ls" for i
    using rounded_levels_nth [OF q, of i] that len by (simp add: nth_upto)
  have "dval (ls ! i) \<le> dval (ls ! j)" if "i \<le> j" "j < length ls" for i j
    using quantize_mono [OF nth nth] arithmetic_level_mono [OF assms(2,1)] that by simp
  then have sorted: "sorted (map dval ls)" by (auto simp: sorted_iff_nth_mono)
  have ne: "ls \<noteq> []" using len n by auto
  have "dval (raw_level fpow p 0) = rnd_dec (dval (lower_price p))"
    using assms(2) by (simp add: raw_level_def Let_def dec.rnd_zero)
  with quantize_half_even [OF nth [of 0]] ne
  have hd: "\<bar>dval (hd ls) - rnd_dec (dval (lower_price p))\<bar> \<le> 1 / (2 * bpow 10 8)" by (simp add: hd_conv_nth)
  have b: "bpow 10 8 = 10 ^ 8" using bpow_of_nat [of 10 8] by simp
  have "on_grid 8 (dval (ls ! i))" if "i < length ls" for i
    using quantize_multiple [OF nth [OF that]] by (simp add: on_grid_def b)
  then have "\<forall>l \<in> set ls. on_grid 8 (dval l)" by (auto simp: in_set_conv_nth)
  with len n sorted hd show ?thesis by (simp add: b)
qed

section \<open>Suitability\<close>

definition clamp :: "flt \<Rightarrow> flt" where
  "clamp x = max (Flt 0) (min (Flt 1) x)"

definition range_quality :: "indicators \<Rightarrow> flt" where
  "range_quality ind =
     (case adx_14 ind of
        None \<Rightarrow> Flt 0
      | Some adx \<Rightarrow>
          let q = clamp (Flt 1 - (adx - Flt 10) / (Flt 30 - Flt 10))
          in case bb_width ind of
               None \<Rightarrow> q
             | Some w \<Rightarrow> clamp ((q + clamp (Flt 1 - w / flit (15/100))) / Flt 2))"

definition MIN_VOLATILITY_ATR_PCT :: flt where "MIN_VOLATILITY_ATR_PCT = flit (3/1000)"

definition MAX_VOLATILITY_ATR_PCT :: flt where "MAX_VOLATILITY_ATR_PCT = flit (8/100)"

definition volatility_quality :: "indicators \<Rightarrow> flt" where
  "volatility_quality ind =
     (case atr_pct ind of
        None \<Rightarrow> Flt 0
      | Some a \<Rightarrow>
          if a < MIN_VOLATILITY_ATR_PCT then clamp (a / MIN_VOLATILITY_ATR_PCT)
          else if MAX_VOLATILITY_ATR_PCT < a then Flt 0
          else let mid = (MIN_VOLATILITY_ATR_PCT + MAX_VOLATILITY_ATR_PCT) / Flt 2;
                   span = (MAX_VOLATILITY_ATR_PCT - MIN_VOLATILITY_ATR_PCT) / Flt 2
               in clamp (Flt 1 - Flt \<bar>fval (a - mid)\<bar> / span))"

definition liquidity_score :: "feature_set \<Rightarrow> flt" where
  "liquidity_score f =
     (let v = float_of (f_close f) * float_of (f_volume f)
      in if Flt 100000 \<le> v then Flt 1 else clamp (v / Flt 100000))"

definition funding_cost_score :: "feature_set \<Rightarrow> flt" where
  "funding_cost_score f =
     (case funding_annualized f of
        None \<Rightarrow> Flt 1
      | Some r \<Rightarrow> let a = Flt \<bar>fval r\<bar> in if Flt 50 \<le> a then Flt 0 else clamp (Flt 1 - a / Flt 50))"

definition breakout_risk :: "indicators \<Rightarrow> flt" where
  "breakout_risk ind =
     (case (di_plus ind, di_minus ind) of
        (Some p, Some m) \<Rightarrow> clamp (Flt \<bar>fval (p - m)\<bar> / Flt 40)
      | _ \<Rightarrow> flit (3/10))"

definition float_sum :: "flt list \<Rightarrow> flt" where
  "float_sum xs = foldl (+) (Flt 0) xs"

definition composite_score :: "feature_set \<Rightarrow> flt" where
  "composite_score f =
     (let ind = f_indicators f; rq = range_quality ind;
          positives = [rq, volatility_quality ind, liquidity_score f, funding_cost_score f];
          risks = [clamp (Flt 1 - rq), breakout_risk ind];
          weakest = foldl min (hd positives) (tl positives)
      in clamp (flit (1/2) * (float_sum positives / Flt 4) + flit (3/10) * weakest
                - flit (2/10) * (float_sum risks / Flt 2)))"

definition nonzero_flt :: "flt option \<Rightarrow> flt option" where
  "nonzero_flt x = (case x of Some v \<Rightarrow> if fval v = 0 then None else Some v | None \<Rightarrow> None)"

definition suggested_direction :: "indicators \<Rightarrow> grid_direction" where
  "suggested_direction ind =
     (case (adx_14 ind, nonzero_flt (di_plus ind), nonzero_flt (di_minus ind)) of
        (Some adx, Some p, Some m) \<Rightarrow>
          if Flt 20 \<le> adx then (if m < p then GRID_LONG else GRID_SHORT) else GRID_LONG
      | _ \<Rightarrow> GRID_LONG)"

definition round4 :: "flt \<Rightarrow> flt" where
  "round4 x = flit (of_int (rhe (fval x * 10000)) / 10000)"

record suitability =
  composite :: flt
  is_suitable :: bool
  suggestion :: grid_direction

definition compute_grid_suitability :: "feature_set \<Rightarrow> suitability" where
  "compute_grid_suitability f =
     (let c = composite_score f; ok = flit (55/100) \<le> c
      in \<lparr>composite = round4 c, is_suitable = ok,
          suggestion = (if ok then suggested_direction (f_indicators f) else GRID_NEUTRAL)\<rparr>)"

section \<open>Grid strategies\<close>

datatype grid_strategy = LongGrid | ShortGrid | AdaptiveGrid

fun grid_strategy_name :: "grid_strategy \<Rightarrow> string" where
  "grid_strategy_name LongGrid = ''futures_grid_long_v1''"
| "grid_strategy_name ShortGrid = ''futures_grid_short_v1''"
| "grid_strategy_name AdaptiveGrid = ''futures_grid_adaptive_v1''"

fun decide_direction :: "grid_strategy \<Rightarrow> suitability \<Rightarrow> grid_direction" where
  "decide_direction LongGrid s = (if is_suitable s then GRID_LONG else GRID_NEUTRAL)"
| "decide_direction ShortGrid s = (if is_suitable s then GRID_SHORT else GRID_NEUTRAL)"
| "decide_direction AdaptiveGrid s = (if is_suitable s then suggestion s else GRID_NEUTRAL)"

record grid_decision =
  gd_direction :: grid_direction
  gd_params :: "grid_params option"
  gd_confidence :: flt

definition build_parameters :: "feature_set \<Rightarrow> grid_direction \<Rightarrow> grid_params option result" where
  "build_parameters f d =
     (let price = f_close f
      in case atr_14 (f_indicators f) of
           None \<Rightarrow> Inr None
         | Some atr \<Rightarrow>
             if atr \<le> 0 \<or> price \<le> 0 then Inr None
             else let half_range = atr * Dec 3;
                      up = 1 + Dec (3/100); down = 1 - Dec (3/100)
                  in bind_result (check_grid_params
                       \<lparr>lower_price = max (price - half_range) (price * Dec (1/2)), upper_price = price + half_range,
                        grid_count = 10, long_or_short = d, gp_leverage = Dec 2, gp_margin_mode = ISOLATED,
                        grid_mode = ARITHMETIC, grid_spacing = None, position_size = Dec 20,
                        max_notional = Dec 20 * Dec 10,
                        take_profit = Some (price * (if d = GRID_LONG then up else down)),
                        stop_loss = Some (price * (if d = GRID_LONG then 1 - Dec (8/100) else 1 + Dec (8/100))),
                        maximum_holding_time = Some (60 * 60 * 24 * 3)\<rparr>)
                     (\<lambda>p. Inr (Some p)))"

definition evaluate_grid :: "grid_strategy \<Rightarrow> market_context \<Rightarrow> grid_decision result" where
  "evaluate_grid g c =
     (let s = compute_grid_suitability (primary c); d = decide_direction g s;
          none = \<lparr>gd_direction = GRID_NEUTRAL, gd_params = None, gd_confidence = composite s\<rparr>
      in if d = GRID_NEUTRAL then Inr none
         else bind_result (build_parameters (primary c) d) (\<lambda>p.
           case p of
             None \<Rightarrow> Inr none
           | Some ps \<Rightarrow> Inr \<lparr>gd_direction = d, gd_params = Some ps, gd_confidence = composite s\<rparr>))"

section \<open>Running grids\<close>

record grid_level =
  gl_index :: nat
  gl_price :: dec
  gl_side :: side
  gl_filled :: bool
  gl_cycles :: nat
  gl_last_order :: "string option"
  gl_last_filled_at :: "time option"
  gl_quantity :: dec

text \<open>
  \<open>parameters\<close> is the dictionary of texts that \<open>_build_grid_state\<close> writes. The text of a decimal stands in it as
  the decimal: all readers apply \<open>Decimal(str(...))\<close> to it, and \<open>Decimal(str(d)) = d\<close>.
\<close>

record grid =
  g_id :: nat
  g_tenant :: "string option"
  g_symbol :: symbol
  g_strategy :: string
  g_mode :: trading_mode
  g_direction :: grid_direction
  g_status :: grid_status
  g_parameters :: py_dict
  g_levels :: "grid_level list"
  net_position_qty :: dec
  g_realized_pnl :: dec
  g_unrealized_pnl :: dec
  peak_value :: dec
  fees_paid :: dec
  funding_paid :: dec
  fills_count :: nat
  last_price :: "dec option"
  g_opened_at :: time
  g_closed_at :: "time option"
  g_close_reason :: "string option"

definition grid_active :: "grid \<Rightarrow> bool" where
  "grid_active g \<longleftrightarrow> g_status g = GRID_PENDING \<or> g_status g = GRID_ACTIVE"

definition open_orders_count :: "grid \<Rightarrow> nat" where
  "open_orders_count g =
     length (filter (\<lambda>l. \<not> gl_filled l \<and> (\<exists>i \<in> set_option (gl_last_order l). i \<noteq> [])) (g_levels g))"

fun grid_mode_value :: "grid_spacing_mode \<Rightarrow> string" where
  "grid_mode_value ARITHMETIC = ''arithmetic''"
| "grid_mode_value GEOMETRIC = ''geometric''"

fun margin_value :: "margin_mode \<Rightarrow> string" where
  "margin_value CROSS = ''cross''"
| "margin_value ISOLATED = ''isolated''"

text \<open>\<open>str(d) if d else None\<close>: a price of zero counts as none.\<close>

definition opt_dec_text :: "dec option \<Rightarrow> pyval" where
  "opt_dec_text x = (case x of Some d \<Rightarrow> if dval d = 0 then PyNone else PyDec d | None \<Rightarrow> PyNone)"

definition opt_int :: "int option \<Rightarrow> pyval" where
  "opt_int x = (case x of Some i \<Rightarrow> PyInt i | None \<Rightarrow> PyNone)"

definition parameter_dict :: "grid_params \<Rightarrow> py_dict" where
  "parameter_dict p =
     [(''grid_lower_price'', PyDec (lower_price p)), (''grid_upper_price'', PyDec (upper_price p)),
      (''grid_count'', PyInt (grid_count p)), (''grid_mode'', PyStr (grid_mode_value (grid_mode p))),
      (''leverage'', PyDec (gp_leverage p)), (''margin_mode'', PyStr (margin_value (gp_margin_mode p))),
      (''position_size'', PyDec (position_size p)), (''max_notional'', PyDec (max_notional p)),
      (''take_profit'', opt_dec_text (take_profit p)), (''stop_loss'', opt_dec_text (stop_loss p)),
      (''maximum_holding_time'', opt_int (maximum_holding_time p)),
      (''total_notional'', PyDec (grid_notional p))]"

definition fresh_level :: "grid_direction \<Rightarrow> nat \<Rightarrow> dec \<Rightarrow> grid_level" where
  "fresh_level d i price = \<lparr>gl_index = i, gl_price = price, gl_side = (if d = GRID_LONG then BUY else SELL),
     gl_filled = False, gl_cycles = 0, gl_last_order = None, gl_last_filled_at = None, gl_quantity = 0\<rparr>"

definition fresh_levels :: "grid_direction \<Rightarrow> dec list \<Rightarrow> grid_level list" where
  "fresh_levels d prices = map (\<lambda>(i, price). fresh_level d i price) (enumerate 0 prices)"

section \<open>Decisions\<close>

lemma build_parameters_ok:
  "build_parameters f d = Inr (Some p) \<Longrightarrow>
     check_grid_params p = Inr p \<and> long_or_short p = d \<and> grid_count p = 10 \<and> position_size p = Dec 20 \<and>
     0 < dval (f_close f)"
  by (auto simp: build_parameters_def Let_def bind_result_Inr check_grid_params_def not_le split: option.splits if_splits)

text \<open>
  C35. A decision of a grid strategy is well formed: it has parameters exactly if it has a direction, the parameters are
  valid and for that direction, the market was suitable, and the fixed strategies only take their own side.
\<close>

theorem grid_decision_well_formed:
  assumes "evaluate_grid g c = Inr d"
  shows "(gd_params d = None \<longleftrightarrow> gd_direction d = GRID_NEUTRAL) \<and>
    (\<forall>p. gd_params d = Some p \<longrightarrow> check_grid_params p = Inr p \<and> long_or_short p = gd_direction d \<and>
       grid_count p = 10 \<and> position_size p = Dec 20 \<and>
       flit (55/100) \<le> composite_score (primary c) \<and>
       (g = LongGrid \<longrightarrow> gd_direction d = GRID_LONG) \<and> (g = ShortGrid \<longrightarrow> gd_direction d = GRID_SHORT))"
proof -
  let ?s = "compute_grid_suitability (primary c)"
  have s: "is_suitable ?s \<longleftrightarrow> flit (55/100) \<le> composite_score (primary c)"
    by (simp add: compute_grid_suitability_def Let_def)
  have dir: "decide_direction g ?s \<noteq> GRID_NEUTRAL \<Longrightarrow> is_suitable ?s \<and>
      (g = LongGrid \<longrightarrow> decide_direction g ?s = GRID_LONG) \<and> (g = ShortGrid \<longrightarrow> decide_direction g ?s = GRID_SHORT)"
    by (cases g) (auto split: if_splits)
  from assms dir s show ?thesis
    by (auto simp: evaluate_grid_def Let_def bind_result_Inr simp del: flt_order
        split: if_splits option.splits dest!: build_parameters_ok)
qed

section \<open>Examples\<close>

definition grid_features :: feature_set where
  "grid_features = demo_features\<lparr>f_indicators := demo_indicators\<lparr>adx_14 := Some (Flt 10), di_plus := Some (Flt 1),
     di_minus := Some (Flt 1), atr_pct := Some ((MIN_VOLATILITY_ATR_PCT + MAX_VOLATILITY_ATR_PCT) / Flt 2)\<rparr>\<rparr>"

lemma mid_in_range:
  fixes mid defines "mid \<equiv> (MIN_VOLATILITY_ATR_PCT + MAX_VOLATILITY_ATR_PCT) / Flt 2"
  shows "MIN_VOLATILITY_ATR_PCT \<le> mid" "mid \<le> MAX_VOLATILITY_ATR_PCT"
proof -
  let ?a = "rnd_flt (3/1000)" and ?b = "rnd_flt (8/100)"
  have a: "0 \<le> ?a" "?a \<le> 1/256" using flt.rnd_mono [of "3/1000" "1/256"] by (simp_all add: rnd_flt_dyadics flt.rnd_nonneg)
  have b: "5/64 \<le> ?b" "?b \<le> 11/128"
    using flt.rnd_mono [of "5/64" "8/100"] flt.rnd_mono [of "8/100" "11/128"] by (simp_all add: rnd_flt_dyadics)
  have "1/16 \<le> ?a + ?b" "?a + ?b \<le> 23/256" using a b by linarith+
  then have s: "1/16 \<le> rnd_flt (?a + ?b)" "rnd_flt (?a + ?b) \<le> 23/256"
    using flt.rnd_mono [of "1/16" "?a + ?b"] flt.rnd_mono [of "?a + ?b" "23/256"] by (simp_all add: rnd_flt_dyadics)
  have "1/32 \<le> rnd_flt (?a + ?b) / 2" "rnd_flt (?a + ?b) / 2 \<le> 23/512" using s by linarith+
  then have "1/32 \<le> rnd_flt (rnd_flt (?a + ?b) / 2)" "rnd_flt (rnd_flt (?a + ?b) / 2) \<le> 23/512"
    using flt.rnd_mono [of "1/32"] flt.rnd_mono [of _ "23/512"] by (simp_all only: rnd_flt_dyadics)
  with a b show "MIN_VOLATILITY_ATR_PCT \<le> mid" "mid \<le> MAX_VOLATILITY_ATR_PCT"
    by (simp_all add: mid_def MIN_VOLATILITY_ATR_PCT_def MAX_VOLATILITY_ATR_PCT_def flit_def)
qed

lemma grid_features_suitable: "flit (55/100) \<le> composite_score grid_features"
proof -
  let ?ind = "f_indicators grid_features"
  have n: "rnd_flt 20 = 20" "rnd_flt 100 = 100" "rnd_flt 5000 = 5000" "rnd_flt 500000 = 500000" "rnd_flt 2 = 2" "rnd_flt 3 = 3"
    "rnd_flt 4 = 4"
    using rnd_flt_int [of 20] rnd_flt_int [of 100] rnd_flt_int [of 5000] rnd_flt_int [of 500000] rnd_flt_int [of 2]
      rnd_flt_int [of 3] rnd_flt_int [of 4] by simp_all
  have rq: "range_quality ?ind = Flt 1"
    by (simp add: range_quality_def grid_features_def demo_indicators_def clamp_def flt_eq_iff n)
  have vq: "volatility_quality ?ind = Flt 1"
    using mid_in_range
    by (simp add: volatility_quality_def grid_features_def clamp_def flt_eq_iff Let_def not_less del: flt_order)
  have lq: "liquidity_score grid_features = Flt 1"
    by (simp add: liquidity_score_def grid_features_def demo_features_def float_of_def n)
  have fq: "funding_cost_score grid_features = Flt 1"
    by (simp add: funding_cost_score_def grid_features_def demo_features_def)
  have br: "breakout_risk ?ind = Flt 0"
    by (simp add: breakout_risk_def grid_features_def clamp_def flt_eq_iff)
  have "1/4 \<le> rnd_flt (3/10)" using flt.rnd_mono [of "1/4" "3/10"] by simp
  then have "rnd_flt (55/100) \<le> rnd_flt (1/2 + rnd_flt (3/10))" by (intro flt.rnd_mono) simp
  moreover have "rnd_flt (55/100) \<le> 1" using flt.rnd_mono [of "55/100" 1] by simp
  ultimately show ?thesis
    by (simp add: composite_score_def Let_def rq vq lq fq br float_sum_def clamp_def n flit_def flt.rnd_idem)
qed

lemma grid_features_params: "\<exists>p. build_parameters grid_features GRID_LONG = Inr (Some p) \<and> lower_price p = Dec 94 \<and> upper_price p = Dec 106"
proof -
  have r: "rnd_dec 6 = 6" "rnd_dec 94 = 94" "rnd_dec 50 = 50" "rnd_dec 106 = 106" "rnd_dec (100 * (1/2)) = 50"
    using rnd_dec_int [of 6] rnd_dec_int [of 94] rnd_dec_int [of 50] rnd_dec_int [of 106] by simp_all
  have v: "Dec 2 * Dec 3 = Dec 6" "Dec 100 - Dec 6 = Dec 94" "Dec 100 + Dec 6 = Dec 106" "Dec 100 * Dec (1/2) = Dec 50"
    "max (Dec 94) (Dec 50) = Dec 94"
    by (simp_all add: dec_eq_iff r)
  show ?thesis
    by (simp add: build_parameters_def grid_features_def demo_features_def demo_indicators_def check_grid_params_def v r Let_def)
qed

theorem grid_decision_well_formed_witness:
  "\<exists>d p. evaluate_grid LongGrid \<lparr>c_symbol = f_symbol grid_features, primary = grid_features, c_regime = RANGING\<rparr> = Inr d \<and>
     gd_direction d = GRID_LONG \<and> gd_params d = Some p \<and> check_grid_params p = Inr p \<and> grid_count p = 10"
proof -
  let ?c = "\<lparr>c_symbol = f_symbol grid_features, primary = grid_features, c_regime = RANGING\<rparr>"
  from grid_features_params obtain p where p: "build_parameters grid_features GRID_LONG = Inr (Some p)" by blast
  let ?d = "\<lparr>gd_direction = GRID_LONG, gd_params = Some p,
    gd_confidence = composite (compute_grid_suitability grid_features)\<rparr>"
  have "is_suitable (compute_grid_suitability grid_features)"
    using grid_features_suitable by (simp add: compute_grid_suitability_def Let_def)
  with p have e: "evaluate_grid LongGrid ?c = Inr ?d" by (simp add: evaluate_grid_def Let_def)
  from grid_decision_well_formed [OF e] e show ?thesis by auto
qed

definition demo_grid_params :: "grid_direction \<Rightarrow> grid_params" where
  "demo_grid_params d = \<lparr>lower_price = Dec 10, upper_price = Dec 30, grid_count = 3, long_or_short = d,
     gp_leverage = Dec 2, gp_margin_mode = ISOLATED, grid_mode = ARITHMETIC, grid_spacing = None,
     position_size = Dec 60, max_notional = Dec 180, take_profit = None, stop_loss = None,
     maximum_holding_time = None\<rparr>"

lemma demo_grid_levels: "compute_levels fpow (demo_grid_params d) = Inr [Dec 10, Dec 20, Dec 30]"
proof -
  have r: "rnd_dec 10 = 10" "rnd_dec 20 = 20" "rnd_dec 30 = 30"
    using rnd_dec_int [of 10] rnd_dec_int [of 20] rnd_dec_int [of 30] by simp_all
  have l: "raw_level fpow (demo_grid_params d) 0 = Dec 10" "raw_level fpow (demo_grid_params d) 1 = Dec 20"
    "raw_level fpow (demo_grid_params d) 2 = Dec 30"
    by (simp_all add: raw_level_def demo_grid_params_def Let_def dec_eq_iff r)
  have u: "[0..grid_count (demo_grid_params d) - 1] = [0, 1, 2]" by (simp add: demo_grid_params_def upto.simps)
  show ?thesis
    using quantize_int [of 10 ROUND_HALF_EVEN] quantize_int [of 20 ROUND_HALF_EVEN] quantize_int [of 30 ROUND_HALF_EVEN]
    unfolding compute_levels_def u by (simp add: l)
qed

theorem arithmetic_levels_sorted_witness:
  "\<exists>ls. compute_levels (\<lambda>x y. x) (demo_grid_params GRID_LONG) = Inr ls \<and> length ls = 3 \<and> sorted (map dval ls)"
proof -
  have p: "check_grid_params (demo_grid_params GRID_LONG) = Inr (demo_grid_params GRID_LONG)"
    "grid_mode (demo_grid_params GRID_LONG) = ARITHMETIC" "grid_count (demo_grid_params GRID_LONG) = 3"
    by (simp_all add: check_grid_params_def demo_grid_params_def)
  from arithmetic_levels_sorted [OF p(1,2) demo_grid_levels] p(3) demo_grid_levels show ?thesis by auto
qed

end
