(* ===== verification/Grid_Risk.thy ===== *)
theory Grid_Risk
  imports Grid_Types
begin

text \<open>
  \<open>sgr/risk/grid_risk.py\<close>: whether a new grid may be opened next to the ones that run, and which limits a running
  grid violates. The texts of the reasons are constructors; \<open>gr_maker_fee\<close>, \<open>gr_taker_fee\<close> and \<open>gr_slippage\<close> are the
  three values the cost guard reads from the global configuration. Any exception rejects, as the \<open>except\<close> of
  \<open>evaluate_new_grid\<close> does.
\<close>

section \<open>Limits\<close>

record grid_limits =
  max_grid_exposure_usd :: dec
  max_grid_position_usd :: dec
  max_open_grids :: int
  max_grid_orders :: int
  max_grid_loss_usd :: dec
  max_funding_cost_pct :: flt
  max_liquidation_distance_pct :: flt
  gr_max_leverage :: dec
  min_liquidity_usd :: dec
  max_volatility_atr_pct :: flt
  cost_guard_safety_margin :: dec
  max_funding_share_of_cycle_edge :: flt
  max_combined_exposure_usd :: "dec option"
  max_total_exposure_pct :: "flt option"
  range_breakout_buffer_factor :: flt
  gr_maker_fee :: flt
  gr_taker_fee :: flt
  gr_slippage :: flt

record grid_snapshot =
  open_grids :: "grid list"
  snap_value :: dec

text \<open>The market data an evaluation may come with; \<open>None\<close>: unknown.\<close>

record grid_market =
  gm_liquidity :: "dec option"
  gm_funding :: "flt option"
  gm_volatility :: "flt option"
  gm_directional :: "dec option"

datatype grid_reason =
    MaxOpenGrids | GridLeverage | TooManyLevels | GridNotional | GridExposure | DirectionalUnknown
  | CombinedExposure | Illiquid | FundingLimit | VolatilityLimit | LiquidationDistance | CostGuard
  | FundingShare | GridRiskError py_exc

section \<open>New grids\<close>

definition active_grids_of :: "grid list \<Rightarrow> grid list" where
  "active_grids_of gs = filter grid_active gs"

definition bound_notional :: "grid \<Rightarrow> dec result" where
  "bound_notional g = decimal_of_pyval (py_get (g_parameters g) ''total_notional'' (PyInt 0))"

fun sum_notionals :: "dec \<Rightarrow> grid list \<Rightarrow> dec result" where
  "sum_notionals acc [] = Inr acc"
| "sum_notionals acc (g # gs) = bind_result (bound_notional g) (\<lambda>n. sum_notionals (acc + n) gs)"

definition exposure_limit :: "grid_limits \<Rightarrow> grid_snapshot \<Rightarrow> dec option" where
  "exposure_limit l s =
     (let dyn = (case max_total_exposure_pct l of
                   Some pct \<Rightarrow> if 0 < snap_value s then Some (snap_value s * dec_of_float pct) else None
                 | None \<Rightarrow> None)
      in case (max_combined_exposure_usd l, dyn) of
           (Some a, Some b) \<Rightarrow> Some (min a b)
         | (Some a, None) \<Rightarrow> Some a
         | (None, d) \<Rightarrow> d)"

definition check_combined :: "grid_limits \<Rightarrow> grid_snapshot \<Rightarrow> dec option \<Rightarrow> dec \<Rightarrow> grid_reason option" where
  "check_combined l s directional tot =
     (case exposure_limit l s of
        None \<Rightarrow> None
      | Some limit \<Rightarrow>
          (case directional of
             None \<Rightarrow> Some DirectionalUnknown
           | Some d \<Rightarrow> if limit < tot + d then Some CombinedExposure else None))"

definition abs_flt :: "flt \<Rightarrow> flt" where
  "abs_flt x = Flt \<bar>fval x\<bar>"

definition max_annualized_pct :: "grid_limits \<Rightarrow> flt" where
  "max_annualized_pct l = max_funding_cost_pct l * Flt 100 * Flt 3 * Flt 365"

definition funding_too_high :: "grid_limits \<Rightarrow> flt option \<Rightarrow> bool" where
  "funding_too_high l r = (case r of None \<Rightarrow> False | Some x \<Rightarrow> max_annualized_pct l < abs_flt x)"

definition volatility_too_high :: "grid_limits \<Rightarrow> flt option \<Rightarrow> bool" where
  "volatility_too_high l v = (case v of None \<Rightarrow> False | Some x \<Rightarrow> max_volatility_atr_pct l < x)"

definition check_cost_guard :: "fpow \<Rightarrow> grid_limits \<Rightarrow> grid_params \<Rightarrow> dec \<Rightarrow> flt option \<Rightarrow> grid_reason option result" where
  "check_cost_guard fpow l p price funding =
     (if price \<le> 0 then Inr None
      else let cost = dec_of_float (gr_maker_fee l) + dec_of_float (gr_taker_fee l) + Dec 2 * dec_of_float (gr_slippage l);
               needed = cost * cost_guard_safety_margin l
           in bind_result (effective_grid_spacing fpow p) (\<lambda>spacing.
                let pct = spacing / price
                in if pct < needed then Inr (Some CostGuard)
                   else case funding of
                          None \<Rightarrow> Inr None
                        | Some r \<Rightarrow>
                            let per = dec_of_float (abs_flt r) / (Dec 100 * Dec 3 * Dec 365)
                            in if pct * dec_of_float (max_funding_share_of_cycle_edge l) < per
                               then Inr (Some FundingShare) else Inr None))"

definition check_market :: "fpow \<Rightarrow> grid_limits \<Rightarrow> grid_params \<Rightarrow> dec \<Rightarrow> grid_market \<Rightarrow> grid_reason option result" where
  "check_market fpow l p price m =
     (if (case gm_liquidity m of Some q \<Rightarrow> q < min_liquidity_usd l | None \<Rightarrow> False) then Inr (Some Illiquid)
      else if funding_too_high l (gm_funding m) then Inr (Some FundingLimit)
      else if volatility_too_high l (gm_volatility m) then Inr (Some VolatilityLimit)
      else if float_of (1 / gp_leverage p) < max_liquidation_distance_pct l then Inr (Some LiquidationDistance)
      else check_cost_guard fpow l p price (gm_funding m))"

definition evaluate_grid_internal ::
  "fpow \<Rightarrow> grid_limits \<Rightarrow> grid_params \<Rightarrow> grid_snapshot \<Rightarrow> dec \<Rightarrow> grid_market \<Rightarrow> grid_reason option result"
where
  "evaluate_grid_internal fpow l p s price m =
     (let act = active_grids_of (open_grids s); this = grid_notional p
      in if max_open_grids l \<le> int (length act) then Inr (Some MaxOpenGrids)
         else if gr_max_leverage l < gp_leverage p then Inr (Some GridLeverage)
         else if max_grid_orders l < grid_count p then Inr (Some TooManyLevels)
         else if max_grid_position_usd l < this then Inr (Some GridNotional)
         else bind_result (sum_notionals 0 act) (\<lambda>existing.
           let tot = existing + this
           in if max_grid_exposure_usd l < tot then Inr (Some GridExposure)
              else case check_combined l s (gm_directional m) tot of
                     Some why \<Rightarrow> Inr (Some why)
                   | None \<Rightarrow> check_market fpow l p price m))"

text \<open>\<open>None\<close>: approved.\<close>

definition evaluate_new_grid ::
  "fpow \<Rightarrow> grid_limits \<Rightarrow> grid_params \<Rightarrow> grid_snapshot \<Rightarrow> dec \<Rightarrow> grid_market \<Rightarrow> grid_reason option"
where
  "evaluate_new_grid fpow l p s price m =
     (case evaluate_grid_internal fpow l p s price m of Inr r \<Rightarrow> r | Inl x \<Rightarrow> Some (GridRiskError x))"

section \<open>Running grids\<close>

datatype grid_violation =
    MaxGridLossExceeded | StopLossHit | TakeProfitHit | FundingCostLimitExceeded | VolatilityLimitExceeded
  | RangeBreakout | MaxHoldingTimeExceeded

text \<open>Every violation the code makes is hard: the default of \<open>GridViolation.severity\<close> is \<open>"hard"\<close>.\<close>

definition limit_hit :: "py_dict \<Rightarrow> string \<Rightarrow> (dec \<Rightarrow> bool) \<Rightarrow> bool result" where
  "limit_hit ps k test =
     (let v = py_get ps k PyNone
      in if v = PyNone then Inr False else bind_result (decimal_of_pyval v) (\<lambda>d. Inr (test d)))"

definition range_broken :: "grid_limits \<Rightarrow> py_dict \<Rightarrow> dec \<Rightarrow> bool result" where
  "range_broken l ps price =
     (let a = py_get ps ''grid_lower_price'' PyNone; b = py_get ps ''grid_upper_price'' PyNone
      in if a = PyNone \<or> b = PyNone then Inr False
         else bind_result (decimal_of_pyval a) (\<lambda>lo. bind_result (decimal_of_pyval b) (\<lambda>hi.
           let buffer = (hi - lo) * dec_of_float (range_breakout_buffer_factor l)
           in Inr (price < lo - buffer \<or> hi + buffer < price))))"

definition held_too_long :: "time \<Rightarrow> grid \<Rightarrow> bool result" where
  "held_too_long now g =
     (case py_get (g_parameters g) ''maximum_holding_time'' PyNone of
        PyNone \<Rightarrow> Inr False
      | PyInt n \<Rightarrow> Inr (seconds n \<le> now - g_opened_at g)
      | _ \<Rightarrow> Inl ValueError)"

definition flag :: "bool \<Rightarrow> 'a \<Rightarrow> 'a list" where
  "flag b x = (if b then [x] else [])"

definition check_ongoing_grid ::
  "grid_limits \<Rightarrow> time \<Rightarrow> grid \<Rightarrow> dec \<Rightarrow> flt option \<Rightarrow> flt option \<Rightarrow> grid_violation list result"
where
  "check_ongoing_grid l now g price funding volatility =
     (let ps = g_parameters g; d = g_direction g
      in bind_result (limit_hit ps ''stop_loss''
           (\<lambda>x. d = GRID_LONG \<and> price \<le> x \<or> d = GRID_SHORT \<and> x \<le> price)) (\<lambda>sl.
         bind_result (limit_hit ps ''take_profit''
           (\<lambda>x. d = GRID_LONG \<and> x \<le> price \<or> d = GRID_SHORT \<and> price \<le> x)) (\<lambda>tp.
         bind_result (range_broken l ps price) (\<lambda>broken.
         bind_result (held_too_long now g) (\<lambda>held.
           Inr (flag (g_realized_pnl g < - max_grid_loss_usd l) MaxGridLossExceeded @ flag sl StopLossHit @
                flag tp TakeProfitHit @ flag (funding_too_high l funding) FundingCostLimitExceeded @
                flag (volatility_too_high l volatility) VolatilityLimitExceeded @ flag broken RangeBreakout @
                flag held MaxHoldingTimeExceeded))))))"

section \<open>Facts\<close>

lemma bound_notional_built: "g_parameters g = parameter_dict p \<Longrightarrow> bound_notional g = Inr (grid_notional p)"
  by (simp add: bound_notional_def py_get_def parameter_dict_def)

text \<open>What an approval says.\<close>

lemma approval_limits:
  assumes "evaluate_new_grid fpow l p s price m = None"
  shows "int (length (active_grids_of (open_grids s))) < max_open_grids l" "gp_leverage p \<le> gr_max_leverage l"
    "grid_count p \<le> max_grid_orders l" "grid_notional p \<le> max_grid_position_usd l"
    "\<exists>existing. sum_notionals 0 (active_grids_of (open_grids s)) = Inr existing \<and>
       existing + grid_notional p \<le> max_grid_exposure_usd l \<and>
       check_combined l s (gm_directional m) (existing + grid_notional p) = None"
    "check_market fpow l p price m = Inr None"
proof -
  from assms have "evaluate_grid_internal fpow l p s price m = Inr None"
    by (simp add: evaluate_new_grid_def split: sum.splits)
  then show "int (length (active_grids_of (open_grids s))) < max_open_grids l" "gp_leverage p \<le> gr_max_leverage l"
    "grid_count p \<le> max_grid_orders l" "grid_notional p \<le> max_grid_position_usd l"
    "\<exists>existing. sum_notionals 0 (active_grids_of (open_grids s)) = Inr existing \<and>
       existing + grid_notional p \<le> max_grid_exposure_usd l \<and>
       check_combined l s (gm_directional m) (existing + grid_notional p) = None"
    "check_market fpow l p price m = Inr None"
    by (auto simp: evaluate_grid_internal_def Let_def bind_result_Inr not_less not_le simp del: dec_order
        split: if_splits option.splits)
qed

lemma sum_notionals_append:
  "sum_notionals acc (gs @ [g]) = bind_result (sum_notionals acc gs) (\<lambda>t. bind_result (bound_notional g) (\<lambda>n. Inr (t + n)))"
proof (induction gs arbitrary: acc)
  case (Cons x gs)
  then show ?case by (cases "bound_notional x") simp_all
qed (simp add: bind_result_def split: sum.split)

text \<open>Sums of non-negative notionals: fewer grids bind no more, in the rounded arithmetic too.\<close>

definition notional_ok :: "grid \<Rightarrow> bool" where
  "notional_ok g \<longleftrightarrow> (\<exists>n. bound_notional g = Inr n \<and> 0 \<le> dval n)"

lemma sum_notionals_mono:
  "\<forall>g \<in> set gs. notional_ok g \<Longrightarrow> dval a \<le> dval b \<Longrightarrow>
   \<exists>s t. sum_notionals a gs = Inr s \<and> sum_notionals b gs = Inr t \<and> dval s \<le> dval t"
proof (induction gs arbitrary: a b)
  case (Cons g gs)
  from Cons.prems(1) obtain n where n: "bound_notional g = Inr n" by (auto simp: notional_ok_def)
  have "dval (a + n) \<le> dval (b + n)" using Cons.prems(2) by (simp add: dec.rnd_mono)
  from Cons.IH [OF _ this] Cons.prems(1) n show ?case by simp
qed simp

lemma sum_notionals_total: "\<forall>g \<in> set gs. notional_ok g \<Longrightarrow> \<exists>t. sum_notionals a gs = Inr t"
  using sum_notionals_mono [of gs a a] by blast

lemma sum_notionals_filter:
  assumes "\<forall>g \<in> set gs. notional_ok g" and "is_dec a" and "sum_notionals a gs = Inr t"
  shows "\<exists>s. sum_notionals a (filter P gs) = Inr s \<and> dval s \<le> dval t"
  using assms
proof (induction gs arbitrary: a t)
  case (Cons g gs)
  from Cons.prems(1) obtain n where n: "bound_notional g = Inr n" "0 \<le> dval n" by (auto simp: notional_ok_def)
  from Cons.prems(1) have ok: "\<forall>g \<in> set gs. notional_ok g" by simp
  from Cons.prems(3) n have t: "sum_notionals (a + n) gs = Inr t" by simp
  show ?case
  proof (cases "P g")
    case True
    from Cons.IH [OF ok is_dec_op(1) t] n True show ?thesis by simp
  next
    case False
    have "dval a \<le> dval (a + n)" by (rule dec_add_ge [OF Cons.prems(2) n(2)])
    from sum_notionals_mono [OF ok this] t obtain s where s: "sum_notionals a gs = Inr s" "dval s \<le> dval t" by auto
    from Cons.IH [OF ok Cons.prems(2) s(1)] s(2) False show ?thesis by auto
  qed
qed simp

end
