(* ===== verification/Grid_Limiter.thy ===== *)
theory Grid_Limiter
  imports Core_Types
begin

text \<open>
  \<open>sgr/execution/grid_rate_limiter.py\<close>: the budget of calls in the key table of the Redis server. \<open>INCR\<close> creates
  a missing or expired key without a time to live and counts up; \<open>EXPIRE\<close> gives it one. Either command can fail.
\<close>

section \<open>State\<close>

record rate_limiter =
  rl_max_calls :: int
  rl_window :: int
  rl_keys :: "(string, int \<times> time option) dict"

text \<open>What the server does for one call: whether it answers \<open>INCR\<close>, and whether it answers \<open>EXPIRE\<close>.\<close>

record limiter_env =
  le_now :: time
  le_incr_ok :: bool
  le_expire_ok :: bool

definition limiter_key :: "string \<Rightarrow> string option \<Rightarrow> string \<Rightarrow> string" where
  "limiter_key x t cat =
     ''sgr:grid_rate_limit:'' @ (case t of Some u \<Rightarrow> if u = [] then ''default'' else u | None \<Rightarrow> ''default'')
       @ '':'' @ x @ '':'' @ cat"

definition live_count :: "time \<Rightarrow> string \<Rightarrow> rate_limiter \<Rightarrow> (int \<times> time option) option" where
  "live_count now k l =
     (case map_of (rl_keys l) k of
        Some (n, Some t) \<Rightarrow> if now < t then Some (n, Some t) else None
      | x \<Rightarrow> x)"

definition acquire :: "limiter_env \<Rightarrow> string \<Rightarrow> string option \<Rightarrow> string \<Rightarrow> rate_limiter \<Rightarrow> rate_limiter \<times> bool" where
  "acquire e x t cat l =
     (if \<not> le_incr_ok e then (l, True)
      else let k = limiter_key x t cat;
               (n, ttl) = (case live_count (le_now e) k l of Some (n, ttl) \<Rightarrow> (n + 1, ttl) | None \<Rightarrow> (1, None));
               put = (\<lambda>ttl. l\<lparr>rl_keys := AList.update k (n, ttl) (rl_keys l)\<rparr>)
           in if n = 1
              then if le_expire_ok e then (put (Some (le_now e + seconds (rl_window l))), n \<le> rl_max_calls l)
                   else (put ttl, True)
              else (put ttl, n \<le> rl_max_calls l))"

text \<open>A controller without a limiter is not limited.\<close>

definition acquire_opt ::
  "limiter_env \<Rightarrow> string \<Rightarrow> string option \<Rightarrow> string \<Rightarrow> rate_limiter option \<Rightarrow> rate_limiter option \<times> bool"
where
  "acquire_opt e x t cat lo =
     (case lo of None \<Rightarrow> (None, True) | Some l \<Rightarrow> let (l1, ok) = acquire e x t cat l in (Some l1, ok))"

section \<open>Calls of one kind\<close>

text \<open>The answers to a sequence of calls for one key.\<close>

fun acquire_all :: "string \<Rightarrow> string option \<Rightarrow> string \<Rightarrow> limiter_env list \<Rightarrow> rate_limiter \<Rightarrow> rate_limiter \<times> bool list" where
  "acquire_all x t cat [] l = (l, [])"
| "acquire_all x t cat (e # es) l =
     (let (l1, ok) = acquire e x t cat l; (l2, oks) = acquire_all x t cat es l1 in (l2, ok # oks))"

lemma acquire_frame [simp, frame]:
  "rl_max_calls (fst (acquire e x t cat l)) = rl_max_calls l" "rl_window (fst (acquire e x t cat l)) = rl_window l"
  by (auto simp: acquire_def Let_def split: option.split)

lemma acquire_counted:
  assumes "live_count (le_now e) (limiter_key x t cat) l = Some (n, ttl)" and "le_incr_ok e" and "0 < n"
  shows "acquire e x t cat l =
    (l\<lparr>rl_keys := AList.update (limiter_key x t cat) (n + 1, ttl) (rl_keys l)\<rparr>, n + 1 \<le> rl_max_calls l)"
  using assms by (simp add: acquire_def Let_def)

text \<open>Inside one window the calls are admitted up to the budget, whoever makes them.\<close>

lemma window_counts:
  assumes "\<forall>e \<in> set es. le_incr_ok e \<and> le_now e < w" and "0 < n"
    and "map_of (rl_keys l) (limiter_key x t cat) = Some (n, Some w)"
  shows "snd (acquire_all x t cat es l) = map (\<lambda>i. n + 1 + int i \<le> rl_max_calls l) [0..<length es]"
  using assms
proof (induction es arbitrary: l n)
  case (Cons e es)
  let ?k = "limiter_key x t cat"
  let ?l = "l\<lparr>rl_keys := AList.update ?k (n + 1, Some w) (rl_keys l)\<rparr>"
  have "live_count (le_now e) ?k l = Some (n, Some w)" using Cons.prems by (simp add: live_count_def)
  with Cons.prems have a: "acquire e x t cat l = (?l, n + 1 \<le> rl_max_calls l)" by (intro acquire_counted) auto
  have "snd (acquire_all x t cat es ?l) = map (\<lambda>i. n + 1 + 1 + int i \<le> rl_max_calls l) [0..<length es]"
    using Cons.IH [of "n + 1" ?l] Cons.prems by simp
  then show ?case
    by (simp add: a upt_conv_Cons map_Suc_upt [symmetric] split_def comp_def algebra_simps del: upt_Suc)
qed simp

text \<open>
  One window of the limiter: after its first call, made when the key is new, exactly the next \<open>max_calls - 1\<close>
  calls before its end are admitted and all later ones refused.
\<close>

theorem window_budget:
  assumes "live_count (le_now e0) (limiter_key x t cat) l = None" and "le_incr_ok e0" and "le_expire_ok e0"
    and "1 \<le> rl_max_calls l"
    and "\<forall>e \<in> set es. le_incr_ok e \<and> le_now e < le_now e0 + seconds (rl_window l)"
  shows "snd (acquire_all x t cat (e0 # es) l) =
    True # map (\<lambda>i. int i + 2 \<le> rl_max_calls l) [0..<length es]"
proof -
  let ?k = "limiter_key x t cat" and ?w = "le_now e0 + seconds (rl_window l)"
  let ?l = "l\<lparr>rl_keys := AList.update ?k (1, Some ?w) (rl_keys l)\<rparr>"
  have a: "acquire e0 x t cat l = (?l, True)" using assms(1,2,3,4) by (simp add: acquire_def)
  have "snd (acquire_all x t cat es ?l) = map (\<lambda>i. 1 + 1 + int i \<le> rl_max_calls ?l) [0..<length es]"
    by (rule window_counts [OF assms(5)]) simp_all
  then show ?thesis by (simp add: a split_def add.commute)
qed

text \<open>
  A lost \<open>EXPIRE\<close> leaves a key that never ends: once the budget is used up, every later call is refused, however
  much later it comes, until somebody deletes the key.
\<close>

lemma no_ttl_counts:
  assumes "\<forall>e \<in> set es. le_incr_ok e" and "0 < n" and "map_of (rl_keys l) (limiter_key x t cat) = Some (n, None)"
  shows "snd (acquire_all x t cat es l) = map (\<lambda>i. n + 1 + int i \<le> rl_max_calls l) [0..<length es]"
  using assms
proof (induction es arbitrary: l n)
  case (Cons e es)
  let ?k = "limiter_key x t cat"
  let ?l = "l\<lparr>rl_keys := AList.update ?k (n + 1, None) (rl_keys l)\<rparr>"
  have "live_count (le_now e) ?k l = Some (n, None)" using Cons.prems by (simp add: live_count_def)
  with Cons.prems have a: "acquire e x t cat l = (?l, n + 1 \<le> rl_max_calls l)" by (intro acquire_counted) auto
  have "snd (acquire_all x t cat es ?l) = map (\<lambda>i. n + 1 + 1 + int i \<le> rl_max_calls l) [0..<length es]"
    using Cons.IH [of "n + 1" ?l] Cons.prems by simp
  then show ?case
    by (simp add: a upt_conv_Cons map_Suc_upt [symmetric] split_def comp_def algebra_simps del: upt_Suc)
qed simp

theorem lost_expire_blocks_for_good:
  assumes "live_count (le_now e0) (limiter_key x t cat) l = None" and "le_incr_ok e0" and "\<not> le_expire_ok e0"
    and "\<forall>e \<in> set es. le_incr_ok e"
  shows "snd (acquire_all x t cat (e0 # es) l) = True # map (\<lambda>i. int i + 2 \<le> rl_max_calls l) [0..<length es]"
proof -
  let ?k = "limiter_key x t cat"
  let ?l = "l\<lparr>rl_keys := AList.update ?k (1, None) (rl_keys l)\<rparr>"
  have a: "acquire e0 x t cat l = (?l, True)" using assms(1,2,3) by (simp add: acquire_def)
  have "snd (acquire_all x t cat es ?l) = map (\<lambda>i. 1 + 1 + int i \<le> rl_max_calls ?l) [0..<length es]"
    by (rule no_ttl_counts [OF assms(4)]) simp_all
  then show ?thesis by (simp add: a split_def add.commute)
qed

definition demo_limiter :: rate_limiter where
  "demo_limiter = \<lparr>rl_max_calls = 2, rl_window = 10, rl_keys = []\<rparr>"

theorem window_budget_witness:
  "snd (acquire_all ''binance'' None ''order_submit''
     [\<lparr>le_now = 0, le_incr_ok = True, le_expire_ok = True\<rparr>, \<lparr>le_now = 5, le_incr_ok = True, le_expire_ok = True\<rparr>,
      \<lparr>le_now = 9, le_incr_ok = True, le_expire_ok = True\<rparr>] demo_limiter) = [True, True, False]"
  using window_budget [of "\<lparr>le_now = 0, le_incr_ok = True, le_expire_ok = True\<rparr>" "''binance''" None "''order_submit''"
      demo_limiter "[\<lparr>le_now = 5, le_incr_ok = True, le_expire_ok = True\<rparr>, \<lparr>le_now = 9, le_incr_ok = True, le_expire_ok = True\<rparr>]"]
  by (simp add: demo_limiter_def live_count_def seconds_def)

theorem lost_expire_blocks_for_good_witness:
  "snd (acquire_all ''binance'' None ''order_submit''
     [\<lparr>le_now = 0, le_incr_ok = True, le_expire_ok = False\<rparr>, \<lparr>le_now = 5, le_incr_ok = True, le_expire_ok = True\<rparr>,
      \<lparr>le_now = seconds 1000000, le_incr_ok = True, le_expire_ok = True\<rparr>] demo_limiter) = [True, True, False]"
  using lost_expire_blocks_for_good [of "\<lparr>le_now = 0, le_incr_ok = True, le_expire_ok = False\<rparr>" "''binance''" None
      "''order_submit''" demo_limiter "[\<lparr>le_now = 5, le_incr_ok = True, le_expire_ok = True\<rparr>,
      \<lparr>le_now = seconds 1000000, le_incr_ok = True, le_expire_ok = True\<rparr>]"]
  by (simp add: demo_limiter_def live_count_def)

end
