(* ===== verification/Compliance.thy ===== *)
theory Compliance
  imports Core_Types
begin

text \<open>
  Which product may be traded where, and by whom: the capability table of \<open>sgr/exchanges/capabilities.py\<close> and
  the checks of \<open>sgr/compliance/engine.py\<close>. The texts of the reasons are left out; a result carries its status.
\<close>

section \<open>Capabilities\<close>

datatype product_type = SPOT | PERPETUAL | FUTURES_GRID | SPOT_GRID

fun product_value :: "product_type \<Rightarrow> string" where
  "product_value SPOT = ''spot''"
| "product_value PERPETUAL = ''perpetual''"
| "product_value FUTURES_GRID = ''futures_grid''"
| "product_value SPOT_GRID = ''spot_grid''"

record capability =
  supports_long :: bool
  supports_short :: bool
  supports_leverage :: bool
  supports_grid :: bool
  supports_futures_grid :: bool
  supports_reduce_only :: bool
  supports_hedge_mode :: bool
  supports_one_way_mode :: bool
  supports_funding :: bool
  supports_conditional_orders :: bool
  supports_position_mode :: bool
  cap_max_leverage :: "dec option"

definition spot_capability :: "bool \<Rightarrow> capability" where
  "spot_capability conditional = \<lparr>supports_long = True, supports_short = False, supports_leverage = False,
     supports_grid = True, supports_futures_grid = False, supports_reduce_only = False,
     supports_hedge_mode = False, supports_one_way_mode = True, supports_funding = False,
     supports_conditional_orders = conditional, supports_position_mode = False, cap_max_leverage = None\<rparr>"

definition futures_capability :: "bool \<Rightarrow> dec \<Rightarrow> capability" where
  "futures_capability modes lev = \<lparr>supports_long = True, supports_short = True, supports_leverage = True,
     supports_grid = True, supports_futures_grid = True, supports_reduce_only = True,
     supports_hedge_mode = modes, supports_one_way_mode = True, supports_funding = True,
     supports_conditional_orders = modes, supports_position_mode = modes, cap_max_leverage = Some lev\<rparr>"

definition capabilities :: "((exchange_id \<times> product_type), capability) dict" where
  "capabilities =
     [((BINANCE, SPOT), spot_capability True),
      ((BINANCE, PERPETUAL), futures_capability True (Dec 125)),
      ((BINANCE, FUTURES_GRID), futures_capability True (Dec 125)),
      ((PIONEX, SPOT), spot_capability False),
      ((PIONEX, PERPETUAL), futures_capability False (Dec 20)),
      ((PIONEX, FUTURES_GRID), futures_capability False (Dec 20))]"

definition get_capability :: "exchange_id \<Rightarrow> product_type \<Rightarrow> capability option" where
  "get_capability x p = map_of capabilities (x, p)"

text \<open>What an order asks of the exchange.\<close>

record requirement =
  requires_long :: bool
  requires_short :: bool
  requires_leverage :: bool

definition missing_features :: "requirement \<Rightarrow> capability \<Rightarrow> string list" where
  "missing_features q c =
     (if requires_long q \<and> \<not> supports_long c then [''long''] else []) @
     (if requires_short q \<and> \<not> supports_short c then [''short''] else []) @
     (if requires_leverage q \<and> \<not> supports_leverage c then [''leverage''] else [])"

definition check_capability :: "exchange_id \<Rightarrow> product_type \<Rightarrow> requirement \<Rightarrow> bool" where
  "check_capability x p q =
     (case get_capability x p of None \<Rightarrow> False | Some c \<Rightarrow> missing_features q c = [])"

definition list_capabilities :: "capability list" where
  "list_capabilities = dict_values capabilities"

section \<open>Compliance\<close>

datatype compliance_status =
  ELIGIBLE | PRODUCT_NOT_AVAILABLE | JURISDICTION_RESTRICTED | ACCOUNT_NOT_ELIGIBLE
| EXCHANGE_CAPABILITY_MISSING | COMPLIANCE_CHECK_REQUIRED

record eligibility =
  ae_tenant :: string
  jurisdiction :: "string option"
  account_type :: string
  kyc_verified :: bool
  futures_trading_enabled :: bool
  risk_disclosure_acknowledged :: bool
  enabled_product_types :: "string list"

record availability_rule =
  jurisdictions_allowed :: "string list option"
  requires_manual_approval :: bool

type_synonym compliance_rules = "((exchange_id \<times> product_type), availability_rule) dict"

definition register_rule :: "exchange_id \<Rightarrow> product_type \<Rightarrow> availability_rule \<Rightarrow> compliance_rules \<Rightarrow> compliance_rules" where
  "register_rule x p r rules = AList.update (x, p) r rules"

definition check_jurisdiction :: "eligibility \<Rightarrow> availability_rule \<Rightarrow> compliance_status" where
  "check_jurisdiction a r =
     (case jurisdictions_allowed r of
        None \<Rightarrow> ELIGIBLE
      | Some js \<Rightarrow>
          (case jurisdiction a of
             None \<Rightarrow> COMPLIANCE_CHECK_REQUIRED
           | Some j \<Rightarrow> if j \<in> set js then ELIGIBLE else JURISDICTION_RESTRICTED))"

definition check_account :: "eligibility \<Rightarrow> product_type \<Rightarrow> compliance_status" where
  "check_account a p =
     (if \<not> kyc_verified a then ACCOUNT_NOT_ELIGIBLE
      else if p \<in> {PERPETUAL, FUTURES_GRID} \<and> \<not> futures_trading_enabled a then ACCOUNT_NOT_ELIGIBLE
      else if p \<in> {PERPETUAL, FUTURES_GRID} \<and> \<not> risk_disclosure_acknowledged a then ACCOUNT_NOT_ELIGIBLE
      else if product_value p \<notin> set (enabled_product_types a) then ACCOUNT_NOT_ELIGIBLE
      else ELIGIBLE)"

definition check_compliance ::
  "compliance_rules \<Rightarrow> eligibility \<Rightarrow> exchange_id \<Rightarrow> product_type \<Rightarrow> requirement \<Rightarrow> compliance_status"
where
  "check_compliance rules a x p q =
     (if \<not> check_capability x p q then EXCHANGE_CAPABILITY_MISSING
      else case map_of rules (x, p) of
             None \<Rightarrow> PRODUCT_NOT_AVAILABLE
           | Some r \<Rightarrow>
               if check_jurisdiction a r \<noteq> ELIGIBLE then check_jurisdiction a r
               else if requires_manual_approval r \<and> \<not> risk_disclosure_acknowledged a
               then COMPLIANCE_CHECK_REQUIRED
               else check_account a p)"

section \<open>Facts\<close>

lemma check_account_eligible:
  "check_account a p = ELIGIBLE \<longleftrightarrow> kyc_verified a \<and> product_value p \<in> set (enabled_product_types a) \<and>
     (p \<in> {PERPETUAL, FUTURES_GRID} \<longrightarrow> futures_trading_enabled a \<and> risk_disclosure_acknowledged a)"
  by (simp add: check_account_def)

lemma check_jurisdiction_eligible:
  "check_jurisdiction a r = ELIGIBLE \<longleftrightarrow>
     (\<forall>js. jurisdictions_allowed r = Some js \<longrightarrow> (\<exists>j \<in> set js. jurisdiction a = Some j))"
  by (auto simp: check_jurisdiction_def split: option.split)

text \<open>Deny by default: what makes an account eligible, all of it needed.\<close>

lemma compliance_eligible:
  "check_compliance rules a x p q = ELIGIBLE \<longleftrightarrow>
     check_capability x p q \<and>
     (\<exists>r. map_of rules (x, p) = Some r \<and> check_jurisdiction a r = ELIGIBLE \<and>
          (requires_manual_approval r \<longrightarrow> risk_disclosure_acknowledged a)) \<and>
     check_account a p = ELIGIBLE"
  by (auto simp: check_compliance_def split: option.split)

text \<open>
  An account may trade a product on an exchange exactly if the exchange has the features, the operator registered a rule
  that admits its jurisdiction, and the account is verified and enabled for it; nothing is eligible by default.
\<close>

theorem eligible_needs_operator_and_account:
  "check_compliance rules a x p q = ELIGIBLE \<longleftrightarrow>
     check_capability x p q \<and> kyc_verified a \<and> product_value p \<in> set (enabled_product_types a) \<and>
     (p \<in> {PERPETUAL, FUTURES_GRID} \<longrightarrow> futures_trading_enabled a \<and> risk_disclosure_acknowledged a) \<and>
     (\<exists>r. map_of rules (x, p) = Some r \<and> (requires_manual_approval r \<longrightarrow> risk_disclosure_acknowledged a) \<and>
        (\<forall>js. jurisdictions_allowed r = Some js \<longrightarrow> (\<exists>j \<in> set js. jurisdiction a = Some j)))"
  unfolding compliance_eligible check_account_eligible check_jurisdiction_eligible by blast

definition demo_verified_account :: eligibility where
  "demo_verified_account = \<lparr>ae_tenant = ''t1'', jurisdiction = Some ''DE'', account_type = ''private'', kyc_verified = True,
     futures_trading_enabled = True, risk_disclosure_acknowledged = True, enabled_product_types = [''futures_grid'']\<rparr>"

theorem eligible_needs_operator_and_account_witness:
  "check_compliance (register_rule BINANCE FUTURES_GRID \<lparr>jurisdictions_allowed = Some [''DE''], requires_manual_approval = True\<rparr> [])
     demo_verified_account BINANCE FUTURES_GRID \<lparr>requires_long = True, requires_short = False, requires_leverage = True\<rparr> = ELIGIBLE \<and>
   check_compliance [] demo_verified_account BINANCE FUTURES_GRID \<lparr>requires_long = True, requires_short = False, requires_leverage = True\<rparr> \<noteq> ELIGIBLE"
  unfolding eligible_needs_operator_and_account
  by (simp add: check_capability_def get_capability_def capabilities_def missing_features_def futures_capability_def
    register_rule_def demo_verified_account_def)

end
