(* ===== verification/Grid_Controller.thy ===== *)
theory Grid_Controller
  imports Grid_Risk Grid_Limiter Compliance Execution_Engine Symbol_Kill_Switch "HOL-Library.Sublist"
begin

text \<open>
  \<open>sgr/execution/grid_controller.py\<close>: opening, ticking, monitoring and closing of futures grids, composed of the
  models of the execution engine, the grid risk engine, compliance, the rate limiter and the symbol kill switch, with the
  tables of \<open>GridRepository\<close>. A grid is one mutable object: an operation that raises keeps the changes it made
  before. Logs and metrics are left out.
\<close>

section \<open>State\<close>

record grid_fill =
  gf_grid :: nat
  gf_level :: nat
  gf_price :: dec
  gf_side :: side
  gf_quantity :: dec
  gf_opening :: bool
  gf_at :: time
  gf_order :: nat

record grid_repo =
  gt_up :: bool
  gt_rows :: "(nat, grid) dict"
  gt_fills :: "grid_fill list"

record grid_controller =
  gc_exec :: exec_engine
  gc_mode :: trading_mode
  gc_tenant :: "string option"
  gc_limits :: grid_limits
  gc_rules :: compliance_rules
  gc_repo :: "grid_repo option"
  gc_symbols :: "sks option"
  gc_limiter :: "rate_limiter option"
  gc_gate :: "lv_gate option"
  gc_grids :: "(nat, grid) dict"

text \<open>What an operation takes from outside: the clock, per level the venue of its order and fresh identifiers, the
  server of the limiter, the account modes the exchange reports, and the power of floats.\<close>

record grid_env =
  ge_now :: time
  ge_venue :: "nat \<Rightarrow> venue"
  ge_order_id :: "nat \<Rightarrow> nat"
  ge_signal_id :: "nat \<Rightarrow> nat"
  ge_limiter :: "nat \<Rightarrow> limiter_env"
  ge_hedged :: "exchange_id \<Rightarrow> bool result"
  ge_margin :: "string \<Rightarrow> margin_mode result"
  ge_pow :: fpow
  ge_grid_id :: nat

section \<open>Persistence\<close>

definition upsert_grid :: "grid \<Rightarrow> grid_repo \<Rightarrow> grid_repo" where
  "upsert_grid g t = t\<lparr>gt_rows := AList.update (g_id g) g (gt_rows t)\<rparr>"

text \<open>The column of the close reason takes 40 characters; the database refuses a longer one, and the error is only logged.\<close>

definition fits_columns :: "grid \<Rightarrow> bool" where
  "fits_columns g \<longleftrightarrow> (\<forall>why \<in> set_option (g_close_reason g). length why \<le> 40)"

definition persist_grid :: "grid \<Rightarrow> grid_controller \<Rightarrow> grid_controller" where
  "persist_grid g c =
     (case gc_repo c of
        Some t \<Rightarrow> if gt_up t \<and> fits_columns g then c\<lparr>gc_repo := Some (upsert_grid g t)\<rparr> else c
      | None \<Rightarrow> c)"

definition record_level_fill :: "grid_fill \<Rightarrow> grid_controller \<Rightarrow> grid_controller" where
  "record_level_fill f c =
     (case gc_repo c of
        Some t \<Rightarrow> if gt_up t then c\<lparr>gc_repo := Some (t\<lparr>gt_fills := gt_fills t @ [f]\<rparr>)\<rparr> else c
      | None \<Rightarrow> c)"

definition put_grid :: "grid \<Rightarrow> grid_controller \<Rightarrow> grid_controller" where
  "put_grid g c = c\<lparr>gc_grids := AList.update (g_id g) g (gc_grids c)\<rparr>"

section \<open>Mark to market\<close>

definition grid_factor :: "grid \<Rightarrow> dec" where
  "grid_factor g = (if g_direction g = GRID_LONG then 1 else Dec (- 1))"

definition unrealized_of :: "dec \<Rightarrow> grid \<Rightarrow> dec" where
  "unrealized_of price g =
     foldl (\<lambda>acc l. if \<not> gl_filled l \<or> gl_quantity l \<le> 0 then acc
                    else acc + (price - gl_price l) * gl_quantity l * grid_factor g) 0 (g_levels g)"

definition update_mark_to_market :: "dec \<Rightarrow> grid \<Rightarrow> grid" where
  "update_mark_to_market price g =
     (let u = unrealized_of price g; v = g_realized_pnl g + u
      in g\<lparr>g_unrealized_pnl := u, peak_value := (if peak_value g < v then v else peak_value g)\<rparr>)"

section \<open>Fills\<close>

text \<open>The order of one level; \<open>fill_type\<close> is \<open>"level_cross"\<close> or \<open>"force_exit"\<close>.\<close>

definition level_side :: "grid \<Rightarrow> bool \<Rightarrow> side" where
  "level_side g opening = (if opening = (g_direction g = GRID_LONG) then BUY else SELL)"

definition level_order :: "grid_env \<Rightarrow> grid \<Rightarrow> grid_level \<Rightarrow> dec \<Rightarrow> bool \<Rightarrow> string \<Rightarrow> order_request" where
  "level_order e g l qty opening fill_type =
     \<lparr>oid = ge_order_id e (gl_index l), signal_id = ge_signal_id e (gl_index l), osymbol = g_symbol g,
      oside = level_side g opening, otype = MARKET, quantity = qty, limit_price = None, omode = g_mode g,
      reduce_only = \<not> opening,
      metadata = [(''strategy'', PyStr (g_strategy g)), (''product_type'', PyStr (product_value FUTURES_GRID)),
        (''grid_id'', PyStr (nat_str (g_id g))), (''grid_level_index'', PyInt (int (gl_index l))),
        (''target_leverage'', py_get (g_parameters g) ''leverage'' (PyStr ''1'')),
        (''grid_fill_type'', PyStr fill_type)]\<rparr>"

text \<open>\<open>None\<close>: there is nothing to order. A price of zero raises.\<close>

definition fill_quantity :: "grid \<Rightarrow> grid_level \<Rightarrow> dec \<Rightarrow> bool \<Rightarrow> dec option result" where
  "fill_quantity g l price opening =
     (if opening
      then bind_result (decimal_of_pyval (py_get (g_parameters g) ''position_size'' (PyStr ''0''))) (\<lambda>size.
        if size \<le> 0 then Inr None
        else if dval price = 0 then Inl DivisionByZero
        else Inr (Some (size / price)))
      else if gl_quantity l \<le> 0 then Inr None else Inr (Some (gl_quantity l)))"

definition dust :: dec where
  "dust = Dec (1 / 10 ^ 8)"

definition level_after :: "bool \<Rightarrow> time \<Rightarrow> order_result \<Rightarrow> grid_level \<Rightarrow> grid_level" where
  "level_after opening now r l =
     (let l1 = l\<lparr>gl_last_order := Some (exchange_order_id r), gl_last_filled_at := Some now\<rparr>;
          rest = gl_quantity l - filled_quantity r
      in if opening
         then l1\<lparr>gl_filled := True, gl_cycles := gl_cycles l + 1, gl_quantity := filled_quantity r\<rparr>
         else if rest \<le> dust then l1\<lparr>gl_filled := False, gl_quantity := 0\<rparr>
         else l1\<lparr>gl_filled := True, gl_quantity := rest\<rparr>)"

definition update_level :: "nat \<Rightarrow> (grid_level \<Rightarrow> grid_level) \<Rightarrow> grid \<Rightarrow> grid" where
  "update_level i f g = g\<lparr>g_levels := map (\<lambda>l. if gl_index l = i then f l else l) (g_levels g)\<rparr>"

definition signed_fill :: "grid \<Rightarrow> order_result \<Rightarrow> dec" where
  "signed_fill g r = (if g_direction g = GRID_LONG then filled_quantity r else - filled_quantity r)"

definition cycle_pnl :: "grid \<Rightarrow> grid_level \<Rightarrow> dec \<Rightarrow> order_result \<Rightarrow> dec" where
  "cycle_pnl g l price r = (price - gl_price l) * filled_quantity r * grid_factor g - fees r"

definition grid_after :: "grid_env \<Rightarrow> grid \<Rightarrow> grid_level \<Rightarrow> dec \<Rightarrow> bool \<Rightarrow> order_result \<Rightarrow> grid" where
  "grid_after e g l price opening r =
     (let g1 = (update_level (gl_index l) (level_after opening (ge_now e) r) g)
                 \<lparr>fills_count := fills_count g + 1, fees_paid := fees_paid g + fees r\<rparr>
      in if opening then g1\<lparr>net_position_qty := net_position_qty g + signed_fill g r\<rparr>
         else g1\<lparr>net_position_qty := net_position_qty g - signed_fill g r,
                 g_realized_pnl := g_realized_pnl g + cycle_pnl g l price r\<rparr>)"

definition book_grid_loss :: "dec \<Rightarrow> order_result \<Rightarrow> grid_controller \<Rightarrow> grid_controller" where
  "book_grid_loss pnl r c =
     (case gc_gate c of
        Some gt \<Rightarrow> if rmode r = LIVE then c\<lparr>gc_gate := Some (record_realized_loss (- pnl) gt)\<rparr> else c
      | None \<Rightarrow> c)"

definition fill_counts :: "order_result \<Rightarrow> bool" where
  "fill_counts r \<longleftrightarrow> (status r = FILLED \<or> status r = PARTIALLY_FILLED) \<and> 0 < filled_quantity r"

definition book_level ::
  "grid_env \<Rightarrow> grid \<Rightarrow> grid_level \<Rightarrow> dec \<Rightarrow> bool \<Rightarrow> order_result \<Rightarrow> grid_controller \<Rightarrow> grid \<times> grid_controller"
where
  "book_level e g l price opening r c =
     (let f = \<lparr>gf_grid = g_id g, gf_level = gl_index l, gf_price = price, gf_side = level_side g opening,
               gf_quantity = filled_quantity r, gf_opening = opening, gf_at = ge_now e,
               gf_order = ge_order_id e (gl_index l)\<rparr>;
          g1 = grid_after e g l price opening r;
          c1 = record_level_fill f c;
          c2 = (if opening then c1 else book_grid_loss (cycle_pnl g l price r) r c1)
      in (update_mark_to_market price g1, persist_grid g1 c2))"

text \<open>\<open>_fill_level\<close>: the exception it raises, if any, the grid and the controller.\<close>

definition fill_level ::
  "grid_env \<Rightarrow> dec \<Rightarrow> bool \<Rightarrow> string \<Rightarrow> grid_level \<Rightarrow> grid \<times> grid_controller \<Rightarrow> py_exc option \<times> grid \<times> grid_controller"
where
  "fill_level e price opening fill_type l gc =
     (let (g, c) = gc in
      case fill_quantity g l price opening of
        Inl x \<Rightarrow> (Some x, g, c)
      | Inr None \<Rightarrow> (None, g, c)
      | Inr (Some qty) \<Rightarrow>
          let (lim, allowed) = acquire_opt (ge_limiter e (gl_index l)) (exchange_value (sym_exchange (g_symbol g)))
                                 (gc_tenant c) ''order_submit'' (gc_limiter c);
              c1 = c\<lparr>gc_limiter := lim\<rparr>
          in if \<not> allowed then (None, g, c1)
             else case execute (ge_venue e (gl_index l)) (level_order e g l qty opening fill_type) False (gc_exec c1) of
                    Inl x \<Rightarrow> (Some x, g, c1)
                  | Inr (r, ee) \<Rightarrow>
                      let c2 = c1\<lparr>gc_exec := ee\<rparr>
                      in if fill_counts r then (None, book_level e g l price opening r c2) else (None, g, c2))"

section \<open>Ticks\<close>

definition symbol_blocked :: "grid_controller \<Rightarrow> symbol \<Rightarrow> bool" where
  "symbol_blocked c s =
     (case gc_symbols c of None \<Rightarrow> False | Some k \<Rightarrow> \<not> symbol_active k (symbol_switch_key s))"

text \<open>Whether the price crossed a level since the last price, strictly on the side it came from.\<close>

definition crossed :: "dec \<Rightarrow> dec \<Rightarrow> dec \<Rightarrow> bool" where
  "crossed prev price level =
     (if price < prev then price \<le> level \<and> level < prev
      else if prev < price then prev < level \<and> level \<le> price
      else False)"

definition find_level :: "grid \<Rightarrow> nat \<Rightarrow> grid_level option" where
  "find_level g i = find (\<lambda>l. gl_index l = i) (g_levels g)"

text \<open>
  One cell, given by its entry level and its exit price. A level is looked up by its index because a fill of an
  earlier cell of the tick may have changed it.
\<close>

definition tick_cell ::
  "grid_env \<Rightarrow> dec \<Rightarrow> dec \<Rightarrow> bool \<Rightarrow> nat \<times> dec \<Rightarrow> grid \<times> grid_controller \<Rightarrow> py_exc option \<times> grid \<times> grid_controller"
where
  "tick_cell e prev price blocked cell gc =
     (let (i, exit_price) = cell; (g, c) = gc; long = (g_direction g = GRID_LONG)
      in case find_level g i of
           None \<Rightarrow> (None, g, c)
         | Some l \<Rightarrow>
             if \<not> gl_filled l \<and> crossed prev price (gl_price l) \<and> \<not> blocked \<and>
                (if long then price < prev else prev < price)
             then fill_level e (gl_price l) True ''level_cross'' l (g, c)
             else if gl_filled l \<and> crossed prev price exit_price \<and> (if long then prev < price else price < prev)
             then fill_level e exit_price False ''level_cross'' l (g, c)
             else (None, g, c))"

fun tick_cells ::
  "grid_env \<Rightarrow> dec \<Rightarrow> dec \<Rightarrow> bool \<Rightarrow> (nat \<times> dec) list \<Rightarrow> grid \<times> grid_controller \<Rightarrow> py_exc option \<times> grid \<times> grid_controller"
where
  "tick_cells e prev price blocked [] gc = (None, gc)"
| "tick_cells e prev price blocked (x # xs) gc =
     (case tick_cell e prev price blocked x gc of
        (Some err, gc1) \<Rightarrow> (Some err, gc1)
      | (None, gc1) \<Rightarrow> tick_cells e prev price blocked xs gc1)"

definition cells_of :: "grid \<Rightarrow> (nat \<times> dec) list" where
  "cells_of g =
     (let ls = sort_key gl_index (g_levels g)
      in map (\<lambda>(a, b). if g_direction g = GRID_LONG then (gl_index a, gl_price b) else (gl_index b, gl_price a))
           (zip ls (tl ls)))"

definition tick_grid :: "grid_env \<Rightarrow> dec \<Rightarrow> grid \<Rightarrow> grid_controller \<Rightarrow> py_exc option \<times> grid_controller" where
  "tick_grid e price g c =
     (let prev = (case last_price g of Some p \<Rightarrow> p | None \<Rightarrow> price)
      in case tick_cells e prev price (symbol_blocked c (g_symbol g)) (cells_of g) (g, c) of
           (Some x, g1, c1) \<Rightarrow> (Some x, put_grid g1 c1)
         | (None, g1, c1) \<Rightarrow>
             let g2 = update_mark_to_market price (g1\<lparr>last_price := Some price\<rparr>)
             in (None, persist_grid g2 (put_grid g2 c1)))"

definition on_price_tick :: "grid_env \<Rightarrow> nat \<Rightarrow> dec \<Rightarrow> grid_controller \<Rightarrow> py_exc option \<times> grid_controller" where
  "on_price_tick e i price c =
     (case map_of (gc_grids c) i of
        None \<Rightarrow> (Some KeyError, c)
      | Some g \<Rightarrow> if \<not> grid_active g then (None, c) else tick_grid e price g c)"

section \<open>Closing\<close>

fun close_levels ::
  "grid_env \<Rightarrow> dec \<Rightarrow> string \<Rightarrow> nat list \<Rightarrow> grid \<times> grid_controller \<Rightarrow> py_exc option \<times> grid \<times> grid_controller"
where
  "close_levels e price fill_type [] gc = (None, gc)"
| "close_levels e price fill_type (i # is) gc =
     (case find_level (fst gc) i of
        None \<Rightarrow> close_levels e price fill_type is gc
      | Some l \<Rightarrow>
          if \<not> gl_filled l then close_levels e price fill_type is gc
          else case fill_level e price False fill_type l gc of
                 (Some x, gc1) \<Rightarrow> (Some x, gc1)
               | (None, gc1) \<Rightarrow> close_levels e price fill_type is gc1)"

definition close_active :: "grid_env \<Rightarrow> string \<Rightarrow> dec \<Rightarrow> bool \<Rightarrow> grid \<Rightarrow> grid_controller \<Rightarrow> py_exc option \<times> grid_controller" where
  "close_active e why price force g c =
     (case close_levels e price (if force then ''force_exit'' else ''level_cross'') (map gl_index (g_levels g))
             (g\<lparr>g_status := GRID_CLOSING\<rparr>, c) of
        (Some x, g1, c1) \<Rightarrow> (Some x, put_grid g1 c1)
      | (None, g1, c1) \<Rightarrow>
          let g2 = update_mark_to_market price
                     (g1\<lparr>g_status := GRID_CLOSED, g_closed_at := Some (ge_now e), g_close_reason := Some why\<rparr>)
          in (None, persist_grid g2 (put_grid g2 c1)))"

definition close_grid :: "grid_env \<Rightarrow> nat \<Rightarrow> string \<Rightarrow> dec \<Rightarrow> bool \<Rightarrow> grid_controller \<Rightarrow> py_exc option \<times> grid_controller" where
  "close_grid e i why price force c =
     (case map_of (gc_grids c) i of
        None \<Rightarrow> (Some KeyError, c)
      | Some g \<Rightarrow> if \<not> grid_active g then (None, c) else close_active e why price force g c)"

text \<open>The hook of the symbol kill switch: an exception of one grid leaves the later ones open.\<close>

fun close_grids :: "(nat \<Rightarrow> grid_env) \<Rightarrow> string \<Rightarrow> string \<Rightarrow> nat list \<Rightarrow> grid_controller \<Rightarrow> py_exc option \<times> grid_controller" where
  "close_grids e sk why [] c = (None, c)"
| "close_grids e sk why (i # is) c =
     (case map_of (gc_grids c) i of
        None \<Rightarrow> close_grids e sk why is c
      | Some g \<Rightarrow>
          if \<not> grid_active g \<or> symbol_switch_key (g_symbol g) \<noteq> sk then close_grids e sk why is c
          else case last_price g of
                 None \<Rightarrow> close_grids e sk why is c
               | Some price \<Rightarrow>
                   case close_grid (e i) i (''symbol_kill_switch:'' @ why) price True c of
                     (Some x, c1) \<Rightarrow> (Some x, c1)
                   | (None, c1) \<Rightarrow> close_grids e sk why is c1)"

definition close_all_grids_for_symbol ::
  "(nat \<Rightarrow> grid_env) \<Rightarrow> string \<Rightarrow> string \<Rightarrow> grid_controller \<Rightarrow> py_exc option \<times> grid_controller"
where
  "close_all_grids_for_symbol e sk why c = close_grids e sk why (map fst (gc_grids c)) c"

section \<open>Opening\<close>

datatype open_refusal =
    NoDecision | SymbolOff | HedgeMode | MarginMismatch | NoCapability | NotCompliant compliance_status
  | GridRiskRefused grid_reason

definition grid_requirement :: "grid_params \<Rightarrow> requirement" where
  "grid_requirement p = \<lparr>requires_long = (long_or_short p = GRID_LONG), requires_short = (long_or_short p = GRID_SHORT),
     requires_leverage = 1 < gp_leverage p\<rparr>"

text \<open>A question to the exchange that fails, for whatever reason, is skipped.\<close>

definition account_mode_refusal :: "grid_env \<Rightarrow> trading_mode \<Rightarrow> symbol \<Rightarrow> grid_params \<Rightarrow> open_refusal option" where
  "account_mode_refusal e m s p =
     (if m \<noteq> LIVE then None
      else if ge_hedged e (sym_exchange s) = Inr True then Some HedgeMode
      else case ge_margin e (ccxt_symbol s) of
             Inr mm \<Rightarrow> if mm \<noteq> gp_margin_mode p then Some MarginMismatch else None
           | Inl x \<Rightarrow> None)"

definition build_grid_state ::
  "grid_env \<Rightarrow> grid_controller \<Rightarrow> symbol \<Rightarrow> string \<Rightarrow> grid_params \<Rightarrow> grid result"
where
  "build_grid_state e c s name p =
     bind_result (compute_levels (ge_pow e) p) (\<lambda>prices. Inr \<lparr>g_id = ge_grid_id e, g_tenant = gc_tenant c, g_symbol = s,
       g_strategy = name, g_mode = gc_mode c, g_direction = long_or_short p, g_status = GRID_ACTIVE,
       g_parameters = parameter_dict p, g_levels = fresh_levels (long_or_short p) prices, net_position_qty = 0,
       g_realized_pnl = 0, g_unrealized_pnl = 0, peak_value = 0, fees_paid = 0, funding_paid = 0, fills_count = 0,
       last_price = None, g_opened_at = ge_now e, g_closed_at = None, g_close_reason = None\<rparr>)"

text \<open>The gates in the order of the code; the result is the refusal or the new grid.\<close>

definition open_grid ::
  "grid_env \<Rightarrow> grid_decision \<Rightarrow> symbol \<Rightarrow> string \<Rightarrow> eligibility \<Rightarrow> grid_snapshot \<Rightarrow> dec \<Rightarrow> grid_market \<Rightarrow> grid_controller \<Rightarrow>
   ((open_refusal + grid) \<times> grid_controller) result"
where
  "open_grid e d s name a snap price m c =
     (case gd_params d of
        None \<Rightarrow> Inr (Inl NoDecision, c)
      | Some p \<Rightarrow>
          if gd_direction d = GRID_NEUTRAL then Inr (Inl NoDecision, c)
          else if symbol_blocked c s then Inr (Inl SymbolOff, c)
          else case account_mode_refusal e (gc_mode c) s p of
                 Some why \<Rightarrow> Inr (Inl why, c)
               | None \<Rightarrow>
                   let x = sym_exchange s; q = grid_requirement p;
                       cs = check_compliance (gc_rules c) a x FUTURES_GRID q
                   in if \<not> check_capability x FUTURES_GRID q then Inr (Inl NoCapability, c)
                      else if cs \<noteq> ELIGIBLE then Inr (Inl (NotCompliant cs), c)
                      else case evaluate_new_grid (ge_pow e) (gc_limits c) p snap price m of
                             Some why \<Rightarrow> Inr (Inl (GridRiskRefused why), c)
                           | None \<Rightarrow> bind_result (build_grid_state e c s name p) (\<lambda>g0.
                               let g = g0\<lparr>last_price := Some price\<rparr>
                               in Inr (Inr g, persist_grid g (put_grid g c))))"

section \<open>Monitoring\<close>

fun violation_code :: "grid_violation \<Rightarrow> string" where
  "violation_code MaxGridLossExceeded = ''max_grid_loss_exceeded''"
| "violation_code StopLossHit = ''stop_loss_hit''"
| "violation_code TakeProfitHit = ''take_profit_hit''"
| "violation_code FundingCostLimitExceeded = ''funding_cost_limit_exceeded''"
| "violation_code VolatilityLimitExceeded = ''volatility_limit_exceeded''"
| "violation_code RangeBreakout = ''range_breakout''"
| "violation_code MaxHoldingTimeExceeded = ''max_holding_time_exceeded''"

fun joined :: "string \<Rightarrow> string list \<Rightarrow> string" where
  "joined sep [] = []"
| "joined sep [x] = x"
| "joined sep (x # y # xs) = x @ sep @ joined sep (y # xs)"

definition monitor_one ::
  "grid_env \<Rightarrow> (string \<Rightarrow> dec option) \<Rightarrow> (string \<Rightarrow> flt option) \<Rightarrow> (string \<Rightarrow> flt option) \<Rightarrow> grid \<Rightarrow> grid_controller \<Rightarrow>
   py_exc option \<times> grid_controller"
where
  "monitor_one e prices fundings vols g c =
     (let k = ccxt_symbol (g_symbol g)
      in if \<not> grid_active g then (None, c)
         else case prices k of
                None \<Rightarrow> (None, c)
              | Some price \<Rightarrow>
                  case check_ongoing_grid (gc_limits c) (ge_now e) g price (fundings k) (vols k) of
                    Inl x \<Rightarrow> (Some x, c)
                  | Inr [] \<Rightarrow> on_price_tick e (g_id g) price c
                  | Inr vs \<Rightarrow> close_grid e (g_id g) (joined '';'' (map violation_code vs)) price True c)"

text \<open>The grids are those the controller held at the start; an exception ends the run.\<close>

fun monitor_grids ::
  "(nat \<Rightarrow> grid_env) \<Rightarrow> (string \<Rightarrow> dec option) \<Rightarrow> (string \<Rightarrow> flt option) \<Rightarrow> (string \<Rightarrow> flt option) \<Rightarrow> nat list \<Rightarrow>
   grid_controller \<Rightarrow> py_exc option \<times> grid_controller"
where
  "monitor_grids e prices fundings vols [] c = (None, c)"
| "monitor_grids e prices fundings vols (i # is) c =
     (case map_of (gc_grids c) i of
        None \<Rightarrow> monitor_grids e prices fundings vols is c
      | Some g \<Rightarrow>
          case monitor_one (e i) prices fundings vols g c of
            (Some x, c1) \<Rightarrow> (Some x, c1)
          | (None, c1) \<Rightarrow> monitor_grids e prices fundings vols is c1)"

definition active_grids :: "grid_controller \<Rightarrow> grid list" where
  "active_grids c = filter grid_active (dict_values (gc_grids c))"

definition get_grid :: "grid_controller \<Rightarrow> nat \<Rightarrow> grid option" where
  "get_grid c i = map_of (gc_grids c) i"

section \<open>Frames\<close>

lemma persist_grid_frame [simp, frame]:
  "gc_exec (persist_grid g c) = gc_exec c" "gc_grids (persist_grid g c) = gc_grids c"
  "gc_limits (persist_grid g c) = gc_limits c" "gc_mode (persist_grid g c) = gc_mode c"
  "gc_symbols (persist_grid g c) = gc_symbols c" "gc_gate (persist_grid g c) = gc_gate c"
  "gc_rules (persist_grid g c) = gc_rules c" "gc_tenant (persist_grid g c) = gc_tenant c"
  by (simp_all add: persist_grid_def split: option.split)

lemma put_grid_frame [simp, frame]:
  "gc_exec (put_grid g c) = gc_exec c" "gc_repo (put_grid g c) = gc_repo c" "gc_limits (put_grid g c) = gc_limits c"
  "gc_mode (put_grid g c) = gc_mode c" "gc_symbols (put_grid g c) = gc_symbols c" "gc_gate (put_grid g c) = gc_gate c"
  "gc_grids (put_grid g c) = AList.update (g_id g) g (gc_grids c)" "gc_rules (put_grid g c) = gc_rules c"
  "gc_tenant (put_grid g c) = gc_tenant c"
  by (simp_all add: put_grid_def)

lemma record_level_fill_frame [simp, frame]:
  "gc_exec (record_level_fill f c) = gc_exec c" "gc_grids (record_level_fill f c) = gc_grids c"
  "gc_limits (record_level_fill f c) = gc_limits c" "gc_mode (record_level_fill f c) = gc_mode c"
  "gc_symbols (record_level_fill f c) = gc_symbols c" "gc_rules (record_level_fill f c) = gc_rules c"
  "gc_tenant (record_level_fill f c) = gc_tenant c"
  by (simp_all add: record_level_fill_def split: option.split)

lemma book_grid_loss_frame [simp, frame]:
  "gc_exec (book_grid_loss x r c) = gc_exec c" "gc_grids (book_grid_loss x r c) = gc_grids c"
  "gc_limits (book_grid_loss x r c) = gc_limits c" "gc_mode (book_grid_loss x r c) = gc_mode c"
  "gc_symbols (book_grid_loss x r c) = gc_symbols c" "gc_repo (book_grid_loss x r c) = gc_repo c"
  "gc_rules (book_grid_loss x r c) = gc_rules c" "gc_tenant (book_grid_loss x r c) = gc_tenant c"
  by (simp_all add: book_grid_loss_def split: option.split)

lemma mark_frame [simp, frame]:
  "g_id (update_mark_to_market p g) = g_id g" "g_levels (update_mark_to_market p g) = g_levels g"
  "g_status (update_mark_to_market p g) = g_status g" "g_direction (update_mark_to_market p g) = g_direction g"
  "net_position_qty (update_mark_to_market p g) = net_position_qty g" "g_symbol (update_mark_to_market p g) = g_symbol g"
  "g_parameters (update_mark_to_market p g) = g_parameters g" "g_mode (update_mark_to_market p g) = g_mode g"
  "last_price (update_mark_to_market p g) = last_price g" "g_strategy (update_mark_to_market p g) = g_strategy g"
  "g_realized_pnl (update_mark_to_market p g) = g_realized_pnl g"
  by (simp_all add: update_mark_to_market_def Let_def)

lemma grid_after_frame [simp, frame]:
  "g_id (grid_after e g l p opening r) = g_id g" "g_status (grid_after e g l p opening r) = g_status g"
  "g_direction (grid_after e g l p opening r) = g_direction g" "g_symbol (grid_after e g l p opening r) = g_symbol g"
  "g_parameters (grid_after e g l p opening r) = g_parameters g" "g_mode (grid_after e g l p opening r) = g_mode g"
  "last_price (grid_after e g l p opening r) = last_price g" "g_strategy (grid_after e g l p opening r) = g_strategy g"
  "g_levels (grid_after e g l p opening r) = g_levels (update_level (gl_index l) (level_after opening (ge_now e) r) g)"
  by (simp_all add: grid_after_def Let_def update_level_def)

text \<open>How a fill of a level ends.\<close>

lemma fill_level_cases [consumes 1, case_names kept booked]:
  assumes "fill_level e price opening ft l (g, c) = (x, g', c')"
  obtains (kept) "g' = g" "gc_repo c' = gc_repo c" "gc_grids c' = gc_grids c" "gc_gate c' = gc_gate c"
      "placed (gc_exec c') = placed (gc_exec c) \<or>
       (\<exists>q ord. fill_quantity g l price opening = Inr (Some q) \<and> placed (gc_exec c') = placed (gc_exec c) @ [ord] \<and>
          ord = (level_order e g l q opening ft)\<lparr>quantity := quantity ord, limit_price := limit_price ord\<rparr> \<and>
          (\<not> opening \<longrightarrow> quantity ord = q))"
      "gc_symbols c' = gc_symbols c" "gc_limits c' = gc_limits c" "gc_rules c' = gc_rules c" "gc_mode c' = gc_mode c"
  | (booked) q lim r ee where "fill_quantity g l price opening = Inr (Some q)" "x = None"
      "execute (ge_venue e (gl_index l)) (level_order e g l q opening ft) False (gc_exec c) = Inr (r, ee)"
      "fill_counts r" "(g', c') = book_level e g l price opening r (c\<lparr>gc_limiter := lim, gc_exec := ee\<rparr>)"
      "gc_exec c' = ee" "gc_grids c' = gc_grids c"
      "gc_symbols c' = gc_symbols c" "gc_limits c' = gc_limits c" "gc_rules c' = gc_rules c" "gc_mode c' = gc_mode c"
proof (cases "fill_quantity g l price opening")
  case (Inl y)
  with assms kept show ?thesis by (auto simp: fill_level_def)
next
  case (Inr qo)
  show ?thesis
  proof (cases qo)
    case None
    with Inr assms kept show ?thesis by (auto simp: fill_level_def)
  next
    case (Some q)
    obtain lim ok where a: "acquire_opt (ge_limiter e (gl_index l)) (exchange_value (sym_exchange (g_symbol g))) (gc_tenant c)
        ''order_submit'' (gc_limiter c) = (lim, ok)" by fastforce
    show ?thesis
    proof (cases "ok \<and> (\<exists>y. execute (ge_venue e (gl_index l)) (level_order e g l q opening ft) False (gc_exec c) = Inr y)")
      case False
      with Inr Some assms a kept show ?thesis by (auto simp: fill_level_def Let_def split: sum.splits if_splits)
    next
      case True
      then obtain r ee where x: "execute (ge_venue e (gl_index l)) (level_order e g l q opening ft) False (gc_exec c) = Inr (r, ee)"
        by auto
      show ?thesis
      proof (cases "fill_counts r")
        case f: True
        with Inr Some assms a True x have "x = None" "(g', c') = book_level e g l price opening r (c\<lparr>gc_limiter := lim, gc_exec := ee\<rparr>)"
          by (auto simp: fill_level_def Let_def)
        with Inr Some x f show ?thesis by (intro booked [of q r ee lim]) (auto simp: book_level_def Let_def)
      next
        case False
        have o: "reduce_only (level_order e g l q opening ft) = (\<not> opening)" "quantity (level_order e g l q opening ft) = q"
          by (simp_all add: level_order_def)
        have "placed ee = placed (gc_exec c) \<or> (\<exists>ord. placed ee = placed (gc_exec c) @ [ord] \<and>
            ord = (level_order e g l q opening ft)\<lparr>quantity := quantity ord, limit_price := limit_price ord\<rparr> \<and>
            (\<not> opening \<longrightarrow> quantity ord = q))"
          using execute_contact [OF x] o by (cases "placed ee = placed (gc_exec c)") (auto split: if_splits)
        with False Inr Some assms a True x show ?thesis
          by (intro kept) (auto simp: fill_level_def Let_def)
      qed
    qed
  qed
qed

section \<open>Orders of a tick\<close>

text \<open>A grid as it is built: its levels are numbered in order.\<close>

definition numbered :: "grid \<Rightarrow> bool" where
  "numbered g \<longleftrightarrow> map gl_index (g_levels g) = [0..<length (g_levels g)]"

lemma numbered_nth: "numbered g \<Longrightarrow> k < length (g_levels g) \<Longrightarrow> gl_index (g_levels g ! k) = k"
  unfolding numbered_def by (metis add_0 length_map length_upt nth_map nth_upt diff_zero)

lemma numbered_sorted: "numbered g \<Longrightarrow> sort_key gl_index (g_levels g) = g_levels g"
  by (rule sort_key_id_if_sorted) (simp add: numbered_def)

lemma level_after_index [simp]: "gl_index (level_after opening now r l) = gl_index l"
  "gl_price (level_after opening now r l) = gl_price l"
  by (simp_all add: level_after_def Let_def)

lemma grid_after_indices [simp]:
  "map gl_index (g_levels (grid_after e g l p opening r)) = map gl_index (g_levels g)"
  "length (g_levels (grid_after e g l p opening r)) = length (g_levels g)"
  by (simp_all add: update_level_def comp_def if_distrib cong: if_cong)

lemma find_level_in: "find_level g i = Some l \<Longrightarrow> l \<in> set (g_levels g) \<and> gl_index l = i"
  by (auto simp: find_level_def find_Some_iff)

lemma find_map_other:
  "i \<noteq> j \<Longrightarrow> (\<And>l. gl_index (f l) = gl_index l) \<Longrightarrow>
   find (\<lambda>l. gl_index l = j) (map (\<lambda>l. if gl_index l = i then f l else l) ls) = find (\<lambda>l. gl_index l = j) ls"
  by (induction ls) auto

lemma find_level_other: "gl_index l \<noteq> j \<Longrightarrow> find_level (grid_after e g l p opening r) j = find_level g j"
  by (simp add: find_level_def update_level_def find_map_other)

lemma find_level_mark [simp]: "find_level (update_mark_to_market p g) j = find_level g j"
  by (simp add: find_level_def)

text \<open>What one order of a tick is for: the opening of a crossed empty level, or the closing of a filled one.\<close>

definition opens_level :: "grid \<Rightarrow> dec \<Rightarrow> dec \<Rightarrow> grid_level \<Rightarrow> order_request \<Rightarrow> bool" where
  "opens_level g prev price l ord \<longleftrightarrow>
     \<not> gl_filled l \<and> crossed prev price (gl_price l) \<and> \<not> reduce_only ord \<and>
     (if g_direction g = GRID_LONG then oside ord = BUY \<and> price < prev else oside ord = SELL \<and> prev < price)"

definition closes_level :: "grid \<Rightarrow> dec \<Rightarrow> dec \<Rightarrow> dec \<Rightarrow> grid_level \<Rightarrow> order_request \<Rightarrow> bool" where
  "closes_level g prev price exit_price l ord \<longleftrightarrow>
     gl_filled l \<and> crossed prev price exit_price \<and> reduce_only ord \<and> quantity ord = gl_quantity l \<and>
     (if g_direction g = GRID_LONG then oside ord = SELL \<and> prev < price else oside ord = BUY \<and> price < prev)"

definition tick_order :: "grid \<Rightarrow> dec \<Rightarrow> dec \<Rightarrow> bool \<Rightarrow> nat \<times> dec \<Rightarrow> order_request \<Rightarrow> bool" where
  "tick_order g prev price blocked cell ord \<longleftrightarrow>
     osymbol ord = g_symbol g \<and> otype ord = MARKET \<and>
     (\<exists>l. find_level g (fst cell) = Some l \<and>
        (\<not> blocked \<and> opens_level g prev price l ord \<or> closes_level g prev price (snd cell) l ord))"

lemma fill_level_order:
  assumes "fill_level e p opening ft l (g, c) = (x, g', c')"
  shows "\<exists>os. placed (gc_exec c') = placed (gc_exec c) @ os \<and> length os \<le> 1 \<and>
    (\<forall>ord \<in> set os. \<exists>q. fill_quantity g l p opening = Inr (Some q) \<and>
       ord = (level_order e g l q opening ft)\<lparr>quantity := quantity ord, limit_price := limit_price ord\<rparr> \<and>
       (\<not> opening \<longrightarrow> quantity ord = q))"
  using assms
proof (cases rule: fill_level_cases)
  case kept
  then show ?thesis by (metis append_Nil2 empty_iff empty_set le0 length_0_conv length_Cons One_nat_def le_refl list.set_intros(1) set_ConsD)
next
  case (booked q lim r ee)
  have o: "reduce_only (level_order e g l q opening ft) = (\<not> opening)" "quantity (level_order e g l q opening ft) = q"
    by (simp_all add: level_order_def)
  show ?thesis
  proof (cases "placed ee = placed (gc_exec c)")
    case False
    from execute_contact [OF booked(3) False] o booked(1,6) show ?thesis
      by (auto split: if_splits)
  qed (use booked(6) in auto)
qed

lemma tick_cell_step:
  assumes "tick_cell e prev price blocked (i, xp) (g, c) = (x, g', c')"
  shows "(\<exists>os. placed (gc_exec c') = placed (gc_exec c) @ os \<and> length os \<le> 1 \<and>
      (\<forall>ord \<in> set os. tick_order g prev price blocked (i, xp) ord)) \<and>
    (\<forall>j. j \<noteq> i \<longrightarrow> find_level g' j = find_level g j) \<and> g_direction g' = g_direction g \<and> g_symbol g' = g_symbol g"
proof (cases "find_level g i")
  case None
  with assms show ?thesis by (auto simp: tick_cell_def)
next
  case (Some l)
  have ix: "gl_index l = i" using find_level_in [OF Some] by simp
  have rest: "(\<forall>j. j \<noteq> i \<longrightarrow> find_level g' j = find_level g j) \<and> g_direction g' = g_direction g \<and> g_symbol g' = g_symbol g"
    if "fill_level e p b ft l (g, c) = (x, g', c')" for p b ft
    using that
  proof (cases rule: fill_level_cases)
    case (booked q lim r ee)
    then show ?thesis by (simp add: book_level_def Let_def find_level_other ix)
  qed simp
  let ?open = "\<not> gl_filled l \<and> crossed prev price (gl_price l) \<and> \<not> blocked \<and>
    (if g_direction g = GRID_LONG then price < prev else prev < price)"
  let ?close = "gl_filled l \<and> crossed prev price xp \<and> (if g_direction g = GRID_LONG then prev < price else price < prev)"
  consider (o) "?open" "fill_level e (gl_price l) True ''level_cross'' l (g, c) = (x, g', c')"
    | (c) "?close" "fill_level e xp False ''level_cross'' l (g, c) = (x, g', c')"
    | (n) "g' = g" "c' = c"
    using assms Some by (auto simp: tick_cell_def Let_def simp del: dec_order split: if_splits)
  then show ?thesis
  proof cases
    case o
    from fill_level_order [OF o(2)] obtain os where os: "placed (gc_exec c') = placed (gc_exec c) @ os" "length os \<le> 1"
      "\<forall>ord \<in> set os. \<exists>q. ord = (level_order e g l q True ''level_cross'')\<lparr>quantity := quantity ord, limit_price := limit_price ord\<rparr>"
      by blast
    have "tick_order g prev price blocked (i, xp) ord" if "ord \<in> set os" for ord
    proof -
      from os(3) that obtain q where q: "ord = (level_order e g l q True ''level_cross'')\<lparr>quantity := quantity ord, limit_price := limit_price ord\<rparr>"
        by blast
      have "osymbol ord = g_symbol g" "otype ord = MARKET" "\<not> reduce_only ord" "oside ord = level_side g True"
        by (subst q, simp add: level_order_def)+
      with o(1) Some show ?thesis by (simp add: tick_order_def opens_level_def level_side_def del: dec_order)
    qed
    with os(1,2) rest [OF o(2)] show ?thesis by blast
  next
    case c
    from fill_level_order [OF c(2)] obtain os where os: "placed (gc_exec c') = placed (gc_exec c) @ os" "length os \<le> 1"
      "\<forall>ord \<in> set os. \<exists>q. fill_quantity g l xp False = Inr (Some q) \<and>
        ord = (level_order e g l q False ''level_cross'')\<lparr>quantity := quantity ord, limit_price := limit_price ord\<rparr> \<and>
        quantity ord = q"
      by blast
    have "tick_order g prev price blocked (i, xp) ord" if "ord \<in> set os" for ord
    proof -
      from os(3) that obtain q where q: "fill_quantity g l xp False = Inr (Some q)" "quantity ord = q"
        "ord = (level_order e g l q False ''level_cross'')\<lparr>quantity := quantity ord, limit_price := limit_price ord\<rparr>"
        by blast
      have "osymbol ord = g_symbol g" "otype ord = MARKET" "reduce_only ord" "oside ord = level_side g False"
        by (subst q(3), simp add: level_order_def)+
      moreover have "q = gl_quantity l" using q(1) by (simp add: fill_quantity_def split: if_splits)
      ultimately show ?thesis using c(1) q(2) Some by (simp add: tick_order_def closes_level_def level_side_def del: dec_order)
    qed
    with os(1,2) rest [OF c(2)] show ?thesis by blast
  next
    case n
    then show ?thesis by (intro conjI exI [of _ "[]"]) auto
  qed
qed

lemma subseq_distinct: "subseq xs ys \<Longrightarrow> distinct ys \<Longrightarrow> distinct xs"
  using subseqs_distinctD [of xs ys] by simp

lemma subseq_elem: "subseq xs ys \<Longrightarrow> x \<in> set xs \<Longrightarrow> x \<in> set ys"
  by (induction rule: list_emb.induct) auto

lemma tick_order_same:
  "g_direction g' = g_direction g \<Longrightarrow> g_symbol g' = g_symbol g \<Longrightarrow> find_level g' (fst k) = find_level g (fst k) \<Longrightarrow>
   tick_order g' prev price b k ord = tick_order g prev price b k ord"
  by (simp add: tick_order_def opens_level_def closes_level_def)

lemma tick_cells_orders:
  assumes "tick_cells e prev price blocked xs (g, c) = (x, g', c')" and "distinct (map fst xs)"
  shows "\<exists>os ks. placed (gc_exec c') = placed (gc_exec c) @ os \<and> subseq ks xs \<and> list_all2 (tick_order g prev price blocked) ks os"
  using assms
proof (induction xs arbitrary: g c)
  case (Cons y xs)
  obtain i xp where y: "y = (i, xp)" by fastforce
  obtain x1 g1 c1 where t: "tick_cell e prev price blocked (i, xp) (g, c) = (x1, g1, c1)" by (cases "tick_cell e prev price blocked (i, xp) (g, c)") auto
  from tick_cell_step [OF t] obtain os1 where os1: "placed (gc_exec c1) = placed (gc_exec c) @ os1" "length os1 \<le> 1"
    "\<forall>ord \<in> set os1. tick_order g prev price blocked (i, xp) ord"
    and same: "\<forall>j. j \<noteq> i \<longrightarrow> find_level g1 j = find_level g j" "g_direction g1 = g_direction g" "g_symbol g1 = g_symbol g" by blast
  have "\<exists>ks. (ks = [] \<or> ks = [y]) \<and> list_all2 (tick_order g prev price blocked) ks os1"
  proof (cases os1)
    case (Cons ord os)
    with os1(2) have "os = []" by simp
    with Cons os1(3) y show ?thesis by (intro exI [of _ "[y]"]) simp
  qed auto
  then obtain ks1 where ks1: "ks1 = [] \<or> ks1 = [y]" "list_all2 (tick_order g prev price blocked) ks1 os1" by blast
  show ?case
  proof (cases x1)
    case (Some err)
    with Cons.prems(1) t y have "c' = c1" by simp
    moreover have "subseq ks1 (y # xs)" using ks1(1) by auto
    ultimately show ?thesis using os1(1) ks1(2) by blast
  next
    case None
    with Cons.prems(1) t y have r: "tick_cells e prev price blocked xs (g1, c1) = (x, g', c')" by simp
    from Cons.IH [OF r] Cons.prems(2) y obtain os2 ks2 where os2: "placed (gc_exec c') = placed (gc_exec c1) @ os2" "subseq ks2 xs"
      "list_all2 (tick_order g1 prev price blocked) ks2 os2" by auto
    have "list_all2 (tick_order g prev price blocked) ks2 os2"
    proof (rule list.rel_mono_strong [OF os2(3)])
      fix k ord
      assume k: "k \<in> set ks2" "ord \<in> set os2" "tick_order g1 prev price blocked k ord"
      have "k \<in> set xs" using subseq_elem [OF os2(2) k(1)] .
      with Cons.prems(2) y have "fst k \<noteq> i" by auto
      with same k(3) show "tick_order g prev price blocked k ord" using tick_order_same [OF same(2,3)] by metis
    qed
    with ks1(2) have "list_all2 (tick_order g prev price blocked) (ks1 @ ks2) (os1 @ os2)" by (rule list_all2_appendI)
    moreover have "subseq (ks1 @ ks2) (y # xs)" using ks1(1) os2(2) by auto
    ultimately show ?thesis using os1(1) os2(1) by (metis append_assoc)
  qed
qed simp

lemma cells_of_entries:
  assumes "numbered g"
  shows "distinct (map fst (cells_of g))" "length (cells_of g) = length (g_levels g) - 1"
proof -
  let ?ls = "g_levels g"
  have s: "sort_key gl_index ?ls = ?ls" by (rule numbered_sorted [OF assms])
  show "length (cells_of g) = length ?ls - 1" by (simp add: cells_of_def s Let_def)
  have d: "distinct (map gl_index ?ls)" using assms by (simp add: numbered_def)
  have "map fst (cells_of g) = (if g_direction g = GRID_LONG then map gl_index (take (length ?ls - 1) ?ls) else map gl_index (tl ?ls))"
    by (auto simp: cells_of_def s Let_def map_fst_zip_take [symmetric] comp_def split_def intro!: nth_equalityI)
  with d show "distinct (map fst (cells_of g))"
    by (auto simp: distinct_tl map_tl distinct_map intro: inj_on_subset dest: in_set_takeD)
qed

text \<open>
  C13. A price tick of an active grid hands over at most one market order for each cell of the grid, in the order of the
  cells. A cell is a level with the price of the neighbour at which it closes. Its order either opens the level, which is
  then empty, crossed by the price since the last tick in the direction against the grid, and of a symbol that is not
  switched off; or it closes the level, which is then filled, with exactly its quantity, because the price crossed
  the price of the neighbour the other way. A grid without a last price, or an ended one, gets no order.
\<close>

theorem tick_orders_follow_crossings:
  assumes "map_of (gc_grids c) i = Some g" and "numbered g" and "on_price_tick e i price c = (x, c')"
  shows "\<exists>os ks. placed (gc_exec c') = placed (gc_exec c) @ os \<and> subseq ks (cells_of g) \<and> distinct (map fst ks) \<and>
    list_all2 (\<lambda>k ord. grid_active g \<and> (\<exists>prev. last_price g = Some prev \<and>
      tick_order g prev price (symbol_blocked c (g_symbol g)) k ord)) ks os"
proof (cases "grid_active g")
  case False
  with assms show ?thesis by (intro exI [of _ "[]"]) (simp add: on_price_tick_def)
next
  case True
  let ?prev = "case last_price g of Some p \<Rightarrow> p | None \<Rightarrow> price"
  let ?b = "symbol_blocked c (g_symbol g)"
  obtain y g1 c1 where t: "tick_cells e ?prev price ?b (cells_of g) (g, c) = (y, g1, c1)"
    by (cases "tick_cells e ?prev price ?b (cells_of g) (g, c)") auto
  with assms True have p: "placed (gc_exec c') = placed (gc_exec c1)"
    by (auto simp: on_price_tick_def tick_grid_def Let_def split: option.splits)
  note ce = cells_of_entries(1) [OF assms(2)]
  from tick_cells_orders [OF t ce] obtain os ks where os: "placed (gc_exec c1) = placed (gc_exec c) @ os"
    "subseq ks (cells_of g)" "list_all2 (tick_order g ?prev price ?b) ks os" by blast
  have "list_all2 (\<lambda>k ord. grid_active g \<and> (\<exists>prev. last_price g = Some prev \<and> tick_order g prev price ?b k ord)) ks os"
  proof (rule list.rel_mono_strong [OF os(3)])
    fix k ord
    assume k: "tick_order g ?prev price ?b k ord"
    have "last_price g \<noteq> None"
    proof
      assume "last_price g = None"
      with k show False by (auto simp: tick_order_def opens_level_def closes_level_def split: if_splits)
    qed
    with k True show "grid_active g \<and> (\<exists>prev. last_price g = Some prev \<and> tick_order g prev price ?b k ord)" by auto
  qed
  moreover have "distinct (map fst ks)"
    using subseq_map [OF os(2), of fst] ce by (rule subseq_distinct)
  moreover have "placed (gc_exec c') = placed (gc_exec c) @ os" using os(1) p by simp
  ultimately show ?thesis using os(2) by blast
qed

section \<open>Under an active kill switch\<close>

lemma killed_execute:
  assumes "is_active (st (ee_switch e))" and "omode ord = ee_mode e"
  shows "\<exists>r. execute v ord False e = Inr (r, e) \<and> status r = REJECTED"
  using assms by (auto simp: execute_def rejected_result_def)

lemma killed_fill_level:
  assumes "is_active (st (ee_switch (gc_exec c)))" and "g_mode g = ee_mode (gc_exec c)"
  shows "\<exists>lim. fill_level e price False ft l (g, c) = (None, g, c\<lparr>gc_limiter := lim\<rparr>)"
proof (cases "gl_quantity l \<le> 0")
  case True
  then show ?thesis by (intro exI [of _ "gc_limiter c"]) (simp add: fill_level_def fill_quantity_def)
next
  case False
  obtain lim ok where a: "acquire_opt (ge_limiter e (gl_index l)) (exchange_value (sym_exchange (g_symbol g))) (gc_tenant c)
      ''order_submit'' (gc_limiter c) = (lim, ok)" by fastforce
  have "omode (level_order e g l (gl_quantity l) False ft) = ee_mode (gc_exec c)" using assms(2) by (simp add: level_order_def)
  from killed_execute [OF assms(1) this, of "ge_venue e (gl_index l)"] obtain r where
    "execute (ge_venue e (gl_index l)) (level_order e g l (gl_quantity l) False ft) False (gc_exec c) = Inr (r, gc_exec c)"
    "status r = REJECTED" by blast
  with False a show ?thesis
    by (intro exI [of _ lim]) (simp add: fill_level_def fill_quantity_def fill_counts_def Let_def del: dec_order)
qed

lemma killed_close_levels:
  assumes "is_active (st (ee_switch (gc_exec c)))" and "g_mode g = ee_mode (gc_exec c)"
  shows "\<exists>lim. close_levels e price ft is (g, c) = (None, g, c\<lparr>gc_limiter := lim\<rparr>)"
  using assms
proof (induction "is" arbitrary: c)
  case Nil
  show ?case by (intro exI [of _ "gc_limiter c"]) simp
next
  case (Cons i "is")
  show ?case
  proof (cases "\<exists>l. find_level g i = Some l \<and> gl_filled l")
    case True
    then obtain l where l: "find_level g i = Some l" "gl_filled l" by blast
    from killed_fill_level [OF Cons.prems, of e price ft l] obtain lim where
      f: "fill_level e price False ft l (g, c) = (None, g, c\<lparr>gc_limiter := lim\<rparr>)" by blast
    from Cons.IH [of "c\<lparr>gc_limiter := lim\<rparr>"] Cons.prems obtain lim2 where
      "close_levels e price ft is (g, c\<lparr>gc_limiter := lim\<rparr>) = (None, g, c\<lparr>gc_limiter := lim2\<rparr>)" by auto
    with l f show ?thesis by auto
  next
    case False
    with Cons.IH [of c] Cons.prems show ?thesis by (auto split: option.split)
  qed
qed

lemma killed_close_grid:
  assumes "map_of (gc_grids c) i = Some g" and "g_id g = i" and "grid_active g"
    and "g_mode g = ee_mode (gc_exec c)" and "is_active (st (ee_switch (gc_exec c)))"
  shows "\<exists>c' g'. close_grid e i why price force c = (None, c') \<and> gc_grids c' = AList.update i g' (gc_grids c) \<and>
    g_id g' = i \<and> g_status g' = GRID_CLOSED \<and> g_levels g' = g_levels g \<and> net_position_qty g' = net_position_qty g \<and>
    gc_exec c' = gc_exec c"
proof -
  let ?ft = "if force then ''force_exit'' else ''level_cross''"
  let ?g = "g\<lparr>g_status := GRID_CLOSING\<rparr>"
  from killed_close_levels [OF assms(5), of ?g e price ?ft "map gl_index (g_levels g)"] assms(4) obtain lim where
    cl: "close_levels e price ?ft (map gl_index (g_levels g)) (?g, c) = (None, ?g, c\<lparr>gc_limiter := lim\<rparr>)" by auto
  define g2 where "g2 = update_mark_to_market price
    (?g\<lparr>g_status := GRID_CLOSED, g_closed_at := Some (ge_now e), g_close_reason := Some why\<rparr>)"
  have f: "g_id g2 = i" "g_status g2 = GRID_CLOSED" "g_levels g2 = g_levels g" "net_position_qty g2 = net_position_qty g"
    using assms(2) by (simp_all add: g2_def)
  have "close_grid e i why price force c = (None, persist_grid g2 (put_grid g2 (c\<lparr>gc_limiter := lim\<rparr>)))"
    using assms(1,3) cl by (simp add: close_grid_def close_active_def g2_def Let_def)
  with f show ?thesis
    by (intro exI [of _ "persist_grid g2 (put_grid g2 (c\<lparr>gc_limiter := lim\<rparr>))"] exI [of _ g2]) simp
qed

text \<open>
  Closing a grid while the kill switch is active closes nothing: every closing order is refused, because the
  controller does not ask for the bypass, yet the grid ends up with the status closed, with its levels and its net
  position as before, and no later tick or close touches it again.
\<close>

theorem kill_switch_orphans_grid:
  assumes "map_of (gc_grids c) i = Some g" and "g_id g = i" and "grid_active g"
    and "g_mode g = ee_mode (gc_exec c)" and "is_active (st (ee_switch (gc_exec c)))"
  shows "\<exists>c' g'. close_grid e i why price force c = (None, c') \<and> map_of (gc_grids c') i = Some g' \<and>
    g_status g' = GRID_CLOSED \<and> g_levels g' = g_levels g \<and> net_position_qty g' = net_position_qty g \<and>
    gc_exec c' = gc_exec c \<and>
    (\<forall>e2 price2. on_price_tick e2 i price2 c' = (None, c')) \<and>
    (\<forall>e2 why2 price2 force2. close_grid e2 i why2 price2 force2 c' = (None, c'))"
proof -
  from killed_close_grid [OF assms] obtain c2 g2 where c: "close_grid e i why price force c = (None, c2)"
    "gc_grids c2 = AList.update i g2 (gc_grids c)" and f: "g_id g2 = i" "g_status g2 = GRID_CLOSED" "g_levels g2 = g_levels g"
    "net_position_qty g2 = net_position_qty g" "gc_exec c2 = gc_exec c" by blast
  have m: "map_of (gc_grids c2) i = Some g2" by (simp add: c(2))
  have "\<not> grid_active g2" by (simp add: grid_active_def f)
  with c m f show ?thesis
    by (intro exI [of _ c2] exI [of _ g2]) (simp add: on_price_tick_def close_grid_def)
qed

end
