(* ===== verification/Grid_Recovery.thy ===== *)
theory Grid_Recovery
  imports Grid_Controller
begin

text \<open>
  \<open>GridController.restore_from_persistence\<close> and the reads of \<open>GridRepository\<close>: after a restart the levels of a grid
  are built again from its parameters and brought up to date by replaying the ledger of its fills. The rounding of a value
  to a column of the database is the argument \<open>col\<close>, as for the positions; \<open>orders\<close> is the order table that the statuses
  are checked against, if the controller has one.
\<close>

section \<open>Rows\<close>

definition open_statuses :: "grid_status set" where
  "open_statuses = {GRID_PENDING, GRID_ACTIVE, GRID_PAUSED, GRID_CLOSING}"

definition get_open_grids :: "trading_mode \<Rightarrow> string option \<Rightarrow> grid_repo \<Rightarrow> grid list" where
  "get_open_grids m u t =
     filter (\<lambda>g. g_mode g = m \<and> g_status g \<in> open_statuses \<and> (u \<noteq> None \<longrightarrow> g_tenant g = u)) (dict_values (gt_rows t))"

definition get_fills :: "(nat \<Rightarrow> dec \<Rightarrow> dec) \<Rightarrow> nat \<Rightarrow> grid_repo \<Rightarrow> grid_fill list" where
  "get_fills col i t =
     map (\<lambda>f. f\<lparr>gf_price := col 8 (gf_price f), gf_quantity := col 8 (gf_quantity f)\<rparr>)
       (sort_key gf_at (filter (\<lambda>f. gf_grid f = i) (gt_fills t)))"

section \<open>Restoring\<close>

definition lookup_order_status :: "executor \<Rightarrow> nat \<Rightarrow> order_status option" where
  "lookup_order_status x i =
     (if \<not> odb_up x then None
      else case orders_db x of None \<Rightarrow> None | Some t \<Rightarrow> map_option ow_status (get_order_by_id t i))"

definition required :: "py_dict \<Rightarrow> string \<Rightarrow> pyval result" where
  "required d k = (case map_of d k of Some v \<Rightarrow> Inr v | None \<Rightarrow> Inl KeyError)"

definition int_of_pyval :: "pyval \<Rightarrow> int result" where
  "int_of_pyval v = (case v of PyInt i \<Rightarrow> Inr i | _ \<Rightarrow> Inl ValueError)"

definition spacing_mode_of :: "pyval \<Rightarrow> grid_spacing_mode result" where
  "spacing_mode_of v =
     (case v of PyStr s \<Rightarrow> if s = ''arithmetic'' then Inr ARITHMETIC
                           else if s = ''geometric'' then Inr GEOMETRIC else Inl ValueError
      | _ \<Rightarrow> Inl ValueError)"

definition levels_from_parameters :: "fpow \<Rightarrow> py_dict \<Rightarrow> grid_direction \<Rightarrow> dec list result" where
  "levels_from_parameters fpow d dir =
     bind_result (bind_result (required d ''grid_lower_price'') decimal_of_pyval) (\<lambda>lo.
     bind_result (bind_result (required d ''grid_upper_price'') decimal_of_pyval) (\<lambda>hi.
     bind_result (bind_result (required d ''grid_count'') int_of_pyval) (\<lambda>n.
     bind_result (decimal_of_pyval (py_get d ''leverage'' (PyStr ''1''))) (\<lambda>lev.
     bind_result (spacing_mode_of (py_get d ''grid_mode'' (PyStr ''arithmetic''))) (\<lambda>m.
     bind_result (check_grid_params \<lparr>lower_price = lo, upper_price = hi, grid_count = n, long_or_short = dir,
       gp_leverage = lev, gp_margin_mode = ISOLATED, grid_mode = m, grid_spacing = None, position_size = 0,
       max_notional = 0, take_profit = None, stop_loss = None, maximum_holding_time = None\<rparr>)
       (compute_levels fpow))))))"

text \<open>\<open>base, _, quote = str(row["symbol"]).partition("/")\<close>\<close>

definition symbol_of_text :: "string \<Rightarrow> exchange_id \<Rightarrow> symbol" where
  "symbol_of_text s x = \<lparr>base = takeWhile (\<lambda>c. c \<noteq> CHR ''/'') s, quote = tl (dropWhile (\<lambda>c. c \<noteq> CHR ''/'') s),
     sym_exchange = x, asset = ASSET_SPOT\<rparr>"

definition grid_state_from_row :: "fpow \<Rightarrow> (nat \<Rightarrow> dec \<Rightarrow> dec) \<Rightarrow> grid \<Rightarrow> grid result" where
  "grid_state_from_row fpow col row =
     bind_result (levels_from_parameters fpow (g_parameters row) (g_direction row)) (\<lambda>prices.
       Inr (row\<lparr>g_symbol := symbol_of_text (ccxt_symbol (g_symbol row)) (sym_exchange (g_symbol row)),
                g_levels := fresh_levels (g_direction row) prices, net_position_qty := col 8 (net_position_qty row),
                g_realized_pnl := col 8 (g_realized_pnl row), g_unrealized_pnl := col 8 (g_unrealized_pnl row),
                peak_value := col 8 (peak_value row), fees_paid := col 8 (fees_paid row),
                funding_paid := col 8 (funding_paid row), last_price := map_option (col 8) (last_price row)\<rparr>))"

definition replay_after :: "grid_fill \<Rightarrow> grid_level \<Rightarrow> grid_level" where
  "replay_after f l =
     (let l1 = l\<lparr>gl_last_order := Some (nat_str (gf_order f)), gl_last_filled_at := Some (gf_at f)\<rparr>;
          rest = gl_quantity l - gf_quantity f
      in if gf_opening f
         then l1\<lparr>gl_filled := True, gl_quantity := gl_quantity l + gf_quantity f, gl_cycles := gl_cycles l + 1\<rparr>
         else if rest \<le> dust then l1\<lparr>gl_filled := False, gl_quantity := 0\<rparr>
         else l1\<lparr>gl_filled := True, gl_quantity := rest\<rparr>)"

definition replay_fill :: "grid_fill \<Rightarrow> grid_level list \<Rightarrow> grid_level list" where
  "replay_fill f ls = map (\<lambda>l. if gl_index l = gf_level f then replay_after f l else l) ls"

text \<open>\<open>None\<close>: the grid is inconsistent and stays out.\<close>

fun replay_fills :: "executor option \<Rightarrow> grid_fill list \<Rightarrow> grid_level list \<Rightarrow> grid_level list option" where
  "replay_fills orders [] ls = Some ls"
| "replay_fills orders (f # fs) ls =
     (if gf_level f \<notin> gl_index ` set ls then None
      else if \<exists>x \<in> set_option orders. lookup_order_status x (gf_order f) \<noteq> Some FILLED then None
      else replay_fills orders fs (replay_fill f ls))"

definition restore_one_grid ::
  "executor option \<Rightarrow> (nat \<Rightarrow> dec \<Rightarrow> dec) \<Rightarrow> fpow \<Rightarrow> grid_repo \<Rightarrow> grid \<Rightarrow> grid option result"
where
  "restore_one_grid orders col fpow t row =
     bind_result (grid_state_from_row fpow col row) (\<lambda>g.
       case replay_fills orders (get_fills col (g_id row) t) (g_levels g) of
         None \<Rightarrow> Inr None
       | Some ls \<Rightarrow> Inr (Some (g\<lparr>g_levels := sort_key gl_index ls\<rparr>)))"

definition restored_grids ::
  "executor option \<Rightarrow> (nat \<Rightarrow> dec \<Rightarrow> dec) \<Rightarrow> fpow \<Rightarrow> grid_controller \<Rightarrow> grid list"
where
  "restored_grids orders col fpow c =
     (case gc_repo c of
        None \<Rightarrow> []
      | Some t \<Rightarrow>
          if \<not> gt_up t then []
          else List.map_filter (\<lambda>row. case restore_one_grid orders col fpow t row of Inr r \<Rightarrow> r | Inl x \<Rightarrow> None)
                 (get_open_grids (gc_mode c) (gc_tenant c) t))"

definition restore_grids ::
  "executor option \<Rightarrow> (nat \<Rightarrow> dec \<Rightarrow> dec) \<Rightarrow> fpow \<Rightarrow> grid_controller \<Rightarrow> grid_controller \<times> grid list"
where
  "restore_grids orders col fpow c =
     (let gs = restored_grids orders col fpow c in (fold put_grid gs c, gs))"

section \<open>Replay against the running grid\<close>

text \<open>What of a level decides about later orders.\<close>

definition core :: "grid_level \<Rightarrow> nat \<times> dec \<times> bool \<times> dec \<times> nat" where
  "core l = (gl_index l, gl_price l, gl_filled l, gl_quantity l, gl_cycles l)"

definition ledger_of :: "nat \<Rightarrow> grid_controller \<Rightarrow> grid_fill list" where
  "ledger_of i c = (case gc_repo c of Some t \<Rightarrow> filter (\<lambda>f. gf_grid f = i) (gt_fills t) | None \<Rightarrow> [])"

definition levels_ok :: "grid \<Rightarrow> bool" where
  "levels_ok g \<longleftrightarrow> distinct (map gl_index (g_levels g)) \<and> (\<forall>l \<in> set (g_levels g). \<not> gl_filled l \<longrightarrow> gl_quantity l = 0)"

definition repo_up :: "grid_controller \<Rightarrow> bool" where
  "repo_up c \<longleftrightarrow> (\<exists>t. gc_repo c = Some t \<and> gt_up t)"

definition exact_fills :: "grid_fill list \<Rightarrow> bool" where
  "exact_fills fs \<longleftrightarrow> (\<forall>f \<in> set fs. is_dec (gf_quantity f))"

text \<open>A grid as the ledger says it is, seen from the grid \<open>g0\<close> that was opened.\<close>

definition matches :: "grid \<Rightarrow> grid \<Rightarrow> grid_fill list \<Rightarrow> bool" where
  "matches g0 g fs \<longleftrightarrow> g_parameters g = g_parameters g0 \<and> g_direction g = g_direction g0 \<and>
     (exact_fills fs \<longrightarrow> map core (g_levels g) = map core (fold replay_fill fs (g_levels g0)) \<and>
        gf_level ` set fs \<subseteq> gl_index ` set (g_levels g0))"

lemma core_replay:
  assumes "core l = core l'" and "gf_opening f = b" and "gf_quantity f = filled_quantity r"
    and "b \<Longrightarrow> gl_quantity l = 0 \<and> is_dec (filled_quantity r)"
  shows "core (level_after b now r l) = core (replay_after f l')"
proof -
  have z: "(0::dec) + filled_quantity r = filled_quantity r" if b
    using assms(4) [OF that] by (simp add: dec_eq_iff is_dec_def)
  show ?thesis
    using assms z by (cases b) (auto simp: core_def level_after_def replay_after_def Let_def simp del: dec_order)
qed

lemma core_map_replay:
  assumes "map core ls = map core ls'" and "distinct (map gl_index ls)" and "find (\<lambda>l. gl_index l = i) ls = Some l"
    and "gf_level f = i" and "gf_opening f = b" and "gf_quantity f = filled_quantity r"
    and "b \<Longrightarrow> gl_quantity l = 0 \<and> is_dec (filled_quantity r)"
  shows "map core (map (\<lambda>k. if gl_index k = i then level_after b now r k else k) ls) = map core (replay_fill f ls')"
proof -
  have only: "k = l" if "k \<in> set ls" "gl_index k = i" for k
    using that assms(2,3) by (auto simp: find_Some_iff distinct_map inj_on_def in_set_conv_nth) (metis nth_mem)
  have "length ls = length ls'" using assms(1) by (metis length_map)
  then show ?thesis
    unfolding replay_fill_def using assms(1) only assms(4-7)
  proof (induction ls ls' rule: list_induct2)
    case (Cons k ks k' ks')
    have c: "core k = core k'" "gl_index k = gl_index k'" using Cons.prems(1) by (auto simp: core_def)
    have t: "map core (map (\<lambda>k. if gl_index k = i then level_after b now r k else k) ks) =
        map core (map (\<lambda>l. if gl_index l = gf_level f then replay_after f l else l) ks')"
      using Cons.prems Cons.IH by simp
    have h: "core (level_after b now r k) = core (replay_after f k')" if "gl_index k = i"
      using core_replay [OF c(1) Cons.prems(4,5)] Cons.prems(2) [of k] Cons.prems(6) that by simp
    from t h c Cons.prems(3) show ?case by simp
  qed simp
qed

section \<open>The invariant\<close>

lemma ledger_persist [simp]: "ledger_of i (persist_grid g c) = ledger_of i c"
  by (simp add: ledger_of_def persist_grid_def upsert_grid_def split: option.split)

lemma ledger_other [simp]:
  "ledger_of i (put_grid g c) = ledger_of i c" "ledger_of i (book_grid_loss x r c) = ledger_of i c"
  "ledger_of i (c\<lparr>gc_limiter := lm, gc_exec := ee\<rparr>) = ledger_of i c"
  by (simp_all add: ledger_of_def)

lemma ledger_record:
  "repo_up c \<Longrightarrow> ledger_of i (record_level_fill f c) = ledger_of i c @ (if gf_grid f = i then [f] else [])"
  by (auto simp: ledger_of_def record_level_fill_def repo_up_def)

lemma repo_up_frame [simp]:
  "repo_up (persist_grid g c) = repo_up c" "repo_up (put_grid g c) = repo_up c" "repo_up (book_grid_loss x r c) = repo_up c"
  "repo_up (record_level_fill f c) = repo_up c" "repo_up (c\<lparr>gc_limiter := lm, gc_exec := ee\<rparr>) = repo_up c"
  by (auto simp: repo_up_def persist_grid_def upsert_grid_def record_level_fill_def split: option.split)

text \<open>The row of the grid keeps the parameters and the direction it was opened with.\<close>

definition row_ok :: "nat \<Rightarrow> grid \<Rightarrow> grid_controller \<Rightarrow> bool" where
  "row_ok i g c \<longleftrightarrow> (\<forall>t. gc_repo c = Some t \<longrightarrow> (\<exists>r. map_of (gt_rows t) i = Some r \<and> g_id r = i \<and>
     g_parameters r = g_parameters g \<and> g_direction r = g_direction g))"

lemma row_ok_frame [simp]:
  "row_ok i g (put_grid h c) = row_ok i g c" "row_ok i g (book_grid_loss x r c) = row_ok i g c"
  "row_ok i g (record_level_fill f c) = row_ok i g c" "row_ok i g (c\<lparr>gc_limiter := lm, gc_exec := ee\<rparr>) = row_ok i g c"
  by (auto simp: row_ok_def record_level_fill_def split: option.splits)

lemma row_ok_persist:
  assumes "row_ok i g c" and "g_id h = i \<Longrightarrow> g_parameters h = g_parameters g \<and> g_direction h = g_direction g"
  shows "row_ok i g (persist_grid h c)"
  using assms by (auto simp: row_ok_def persist_grid_def upsert_grid_def split: option.splits)

lemma row_ok_same: "g_parameters h = g_parameters g \<Longrightarrow> g_direction h = g_direction g \<Longrightarrow> row_ok i h c = row_ok i g c"
  by (simp add: row_ok_def)

definition registry_ok :: "grid_controller \<Rightarrow> bool" where
  "registry_ok c \<longleftrightarrow> (\<forall>j h. map_of (gc_grids c) j = Some h \<longrightarrow> g_id h = j \<and> levels_ok h)"

lemma registry_same: "gc_grids c' = gc_grids c \<Longrightarrow> registry_ok c' = registry_ok c"
  by (simp add: registry_ok_def)

lemma registry_frame [simp]:
  "registry_ok (persist_grid g c) = registry_ok c" "registry_ok (book_grid_loss x r c) = registry_ok c"
  "registry_ok (record_level_fill f c) = registry_ok c" "registry_ok (c\<lparr>gc_limiter := lm, gc_exec := ee\<rparr>) = registry_ok c"
  by (simp_all add: registry_ok_def)

definition tracked :: "nat \<Rightarrow> grid \<Rightarrow> grid_controller \<Rightarrow> bool" where
  "tracked i g0 c \<longleftrightarrow> repo_up c \<and> registry_ok c \<and>
     (\<exists>g. map_of (gc_grids c) i = Some g \<and> matches g0 g (ledger_of i c) \<and> row_ok i g c)"

text \<open>The same while an operation holds a grid that is not yet back in the registry.\<close>

definition held :: "nat \<Rightarrow> grid \<Rightarrow> grid \<times> grid_controller \<Rightarrow> bool" where
  "held i g0 gc \<longleftrightarrow> (case gc of (g, c) \<Rightarrow> repo_up c \<and> registry_ok c \<and> levels_ok g \<and>
     (\<exists>h. (if g_id g = i then h = g else map_of (gc_grids c) i = Some h) \<and>
          matches g0 h (ledger_of i c) \<and> row_ok i h c))"

lemma levels_ok_same: "g_levels h = g_levels g \<Longrightarrow> levels_ok h = levels_ok g"
  by (simp add: levels_ok_def)

lemma held_E:
  assumes "held i g0 (g, c)"
  obtains h where "repo_up c" "registry_ok c" "levels_ok g" "if g_id g = i then h = g else map_of (gc_grids c) i = Some h"
    "matches g0 h (ledger_of i c)" "row_ok i h c"
  using assms by (auto simp: held_def)

lemma held_I:
  "repo_up c \<Longrightarrow> registry_ok c \<Longrightarrow> levels_ok g \<Longrightarrow> (if g_id g = i then h = g else map_of (gc_grids c) i = Some h) \<Longrightarrow>
   matches g0 h (ledger_of i c) \<Longrightarrow> row_ok i h c \<Longrightarrow> held i g0 (g, c)"
  unfolding held_def by blast

lemma tracked_held:
  assumes "tracked i g0 c" and "map_of (gc_grids c) j = Some g"
  shows "held i g0 (g, c)"
proof -
  from assms(1) obtain h where h: "map_of (gc_grids c) i = Some h" "matches g0 h (ledger_of i c)" "row_ok i h c"
    "repo_up c" "registry_ok c" by (auto simp: tracked_def)
  from h(5) assms(2) have g: "g_id g = j" "levels_ok g" by (auto simp: registry_ok_def)
  with h assms(2) have "if g_id g = i then h = g else map_of (gc_grids c) i = Some h" by auto
  with h g show ?thesis by (intro held_I) auto
qed

lemma held_tracked:
  assumes "held i g0 (g, c)"
  shows "tracked i g0 (put_grid g c)"
  using assms
proof (cases rule: held_E)
  case (1 h)
  from 1(2,3) have "registry_ok (put_grid g c)" by (simp add: registry_ok_def)
  moreover from 1(4) have "map_of (gc_grids (put_grid g c)) i = Some h" by (auto split: if_splits)
  ultimately show ?thesis using 1(1,5,6) by (simp add: tracked_def)
qed

lemma held_same:
  assumes "held i g0 (g, c)" and "g_levels h = g_levels g" "g_id h = g_id g" "g_parameters h = g_parameters g"
    "g_direction h = g_direction g"
  shows "held i g0 (h, c)"
  using assms(1)
proof (cases rule: held_E)
  case (1 k)
  show ?thesis
    by (rule held_I [of _ _ _ "if g_id g = i then h else k"])
      (use 1 assms(2-5) in \<open>auto simp: levels_ok_def matches_def row_ok_def split: if_splits\<close>)
qed

lemma tracked_persist:
  assumes "tracked i g0 c" and "map_of (gc_grids c) (g_id g) = Some g"
  shows "tracked i g0 (persist_grid g c)"
proof -
  from assms(1) obtain h where h: "map_of (gc_grids c) i = Some h" "matches g0 h (ledger_of i c)" "row_ok i h c"
    "repo_up c" "registry_ok c" by (auto simp: tracked_def)
  have "row_ok i h (persist_grid g c)" 
    by (rule row_ok_persist [OF h(3)]) (use assms(2) h(1) in auto)
  with h show ?thesis by (simp add: tracked_def)
qed

lemma level_after_ok: "\<not> gl_filled (level_after b now r l) \<Longrightarrow> gl_quantity (level_after b now r l) = 0"
  by (simp add: level_after_def Let_def split: if_splits)

lemma levels_ok_after: "levels_ok g \<Longrightarrow> levels_ok (update_level i (level_after b now r) g)"
proof -
  assume g: "levels_ok g"
  have "map gl_index (g_levels (update_level i (level_after b now r) g)) = map gl_index (g_levels g)"
    by (simp add: update_level_def)
  then have "distinct (map gl_index (g_levels (update_level i (level_after b now r) g)))"
    using g by (simp only: levels_ok_def)
  moreover have "gl_quantity l = 0" if l: "l \<in> set (g_levels (update_level i (level_after b now r) g))" "\<not> gl_filled l" for l
  proof -
    from l(1) obtain k where "k \<in> set (g_levels g)" "l = (if gl_index k = i then level_after b now r k else k)"
      by (auto simp: update_level_def)
    with l(2) g level_after_ok [of b now r k] show ?thesis by (auto simp: levels_ok_def split: if_splits)
  qed
  ultimately show ?thesis by (simp add: levels_ok_def)
qed

lemma replay_fill_index [simp]: "map gl_index (replay_fill f ls) = map gl_index ls"
  by (simp add: replay_fill_def replay_after_def Let_def)

lemma replay_index [simp]: "map gl_index (fold replay_fill fs ls) = map gl_index ls"
  by (induction fs arbitrary: ls) simp_all

lemma indices_of_core:
  assumes "map core ls = map core (fold replay_fill fs ls0)"
  shows "gl_index ` set ls = gl_index ` set ls0"
proof -
  have i: "map gl_index ks = map fst (map core ks)" for ks by (simp add: core_def comp_def)
  have "map gl_index ls = map gl_index ls0" using assms i [of ls] i [of "fold replay_fill fs ls0"] by simp
  then show ?thesis by (metis list.set_map)
qed

lemma held_book_level:
  assumes h: "held i g0 (g, c)" and l: "find_level g (gl_index l) = Some l" and b: "b \<Longrightarrow> \<not> gl_filled l"
  shows "held i g0 (book_level e g l price b r c)"
proof -
  define f where "f = \<lparr>gf_grid = g_id g, gf_level = gl_index l, gf_price = price, gf_side = level_side g b,
    gf_quantity = filled_quantity r, gf_opening = b, gf_at = ge_now e, gf_order = ge_order_id e (gl_index l)\<rparr>"
  define g1 where "g1 = grid_after e g l price b r"
  define c2 where "c2 = (if b then record_level_fill f c else book_grid_loss (cycle_pnl g l price r) r (record_level_fill f c))"
  have bl: "book_level e g l price b r c = (update_mark_to_market price g1, persist_grid g1 c2)"
    by (simp add: book_level_def Let_def f_def g1_def c2_def)
  from h obtain k where up: "repo_up c" and reg: "registry_ok c" and ok: "levels_ok g"
    and k: "if g_id g = i then k = g else map_of (gc_grids c) i = Some k"
    and m: "matches g0 k (ledger_of i c)" and row: "row_ok i k c"
    by (rule held_E)
  have ok1: "levels_ok g1"
    using levels_ok_after [OF ok] by (simp add: g1_def levels_ok_def)
  have led: "ledger_of i c2 = ledger_of i c @ (if g_id g = i then [f] else [])"
    using up by (simp add: c2_def ledger_record f_def)
  have c2: "repo_up c2" "gc_grids c2 = gc_grids c" "row_ok i k c2" "registry_ok c2"
    using up row reg by (simp_all add: c2_def)
  define k1 where "k1 = (if g_id g = i then g1 else k)"
  have q0: "gl_quantity l = 0" if b using b [OF that] ok l find_level_in [OF l] by (auto simp: levels_ok_def)
  have m1: "matches g0 k1 (ledger_of i c2)"
  proof (cases "g_id g = i")
    case True
    show ?thesis
      unfolding matches_def
    proof (intro conjI impI)
      show "g_parameters k1 = g_parameters g0" "g_direction k1 = g_direction g0"
        using m k True by (simp_all add: matches_def k1_def g1_def)
    next
      assume ex: "exact_fills (ledger_of i c2)"
      with led True have old: "exact_fills (ledger_of i c)" and d: "is_dec (filled_quantity r)"
        by (auto simp: exact_fills_def f_def)
      from m old k True have c0: "map core (g_levels g) = map core (fold replay_fill (ledger_of i c) (g_levels g0))"
        and lv: "gf_level ` set (ledger_of i c) \<subseteq> gl_index ` set (g_levels g0)"
        by (simp_all add: matches_def)
      have "map core (g_levels g1) = map core (replay_fill f (fold replay_fill (ledger_of i c) (g_levels g0)))"
        using core_map_replay [OF c0, of "gl_index l" l f b r "ge_now e"] ok l q0 d
        by (simp add: g1_def update_level_def levels_ok_def find_level_def f_def)
      moreover have "gl_index l \<in> gl_index ` set (g_levels g0)"
        using find_level_in [OF l] indices_of_core [OF c0] by auto
      ultimately have fin: "map core (g_levels k1) = map core (fold replay_fill (ledger_of i c2) (g_levels g0)) \<and>
          gf_level ` set (ledger_of i c2) \<subseteq> gl_index ` set (g_levels g0)"
        using led True lv by (simp add: k1_def f_def)
      then show "map core (g_levels k1) = map core (fold replay_fill (ledger_of i c2) (g_levels g0))"
        "gf_level ` set (ledger_of i c2) \<subseteq> gl_index ` set (g_levels g0)" by simp_all
    qed
  next
    case False
    with m led k show ?thesis by (simp add: k1_def)
  qed
  have row1: "row_ok i k1 (persist_grid g1 c2)"
  proof -
    have p: "g_parameters k1 = g_parameters k" "g_direction k1 = g_direction k" using k by (auto simp: k1_def g1_def)
    have "row_ok i k1 c2" using c2(3) row_ok_same [OF p] by simp
    then show ?thesis by (rule row_ok_persist) (simp add: k1_def g1_def)
  qed
  have "held i g0 (g1, persist_grid g1 c2)"
    by (rule held_I [of _ _ _ k1]) (use c2 ok1 m1 row1 k in \<open>auto simp: k1_def g1_def split: if_splits\<close>)
  then show ?thesis unfolding bl by (rule held_same) simp_all
qed

lemma held_fill_level:
  assumes h: "held i g0 (g, c)" and l: "find_level g (gl_index l) = Some l" and b: "b \<Longrightarrow> \<not> gl_filled l"
    and f: "fill_level e price b ft l (g, c) = (x, g', c')"
  shows "held i g0 (g', c')"
  using f
proof (cases rule: fill_level_cases)
  case kept
  have "registry_ok c' = registry_ok c" "repo_up c' = repo_up c" "ledger_of i c' = ledger_of i c"
    "\<And>k. row_ok i k c' = row_ok i k c"
    using kept by (simp_all add: registry_ok_def repo_up_def ledger_of_def row_ok_def)
  note frame = this
  from h show ?thesis
  proof (cases rule: held_E)
    case (1 k)
    then show ?thesis using kept(1,3) by (intro held_I [of _ _ _ k]) (simp_all add: frame)
  qed
next
  case (booked q lm r ee)
  have "held i g0 (g, c\<lparr>gc_limiter := lm, gc_exec := ee\<rparr>)"
    using h by (cases "g_id g = i") (simp_all add: held_def)
  from held_book_level [OF this l b, where e = e and price = price and r = r] booked(5) show ?thesis by simp
qed

lemma find_level_self: "find_level g j = Some l \<Longrightarrow> find_level g (gl_index l) = Some l"
  using find_level_in by metis

lemma held_tick_cell:
  assumes "held i g0 gc" and "tick_cell e prev price blocked cell gc = (x, gc')"
  shows "held i g0 gc'"
proof -
  obtain g c where gc: "gc = (g, c)" by fastforce
  obtain j xp where cell: "cell = (j, xp)" by fastforce
  show ?thesis
  proof (cases "find_level g j")
    case None
    with assms show ?thesis by (simp add: tick_cell_def gc cell)
  next
    case (Some l)
    note s = find_level_self [OF Some]
    obtain g' c' where gc': "gc' = (g', c')" by fastforce
    from assms Some consider "gc' = (g, c)"
      | "\<not> gl_filled l" "fill_level e (gl_price l) True ''level_cross'' l (g, c) = (x, g', c')"
      | "gl_filled l" "fill_level e xp False ''level_cross'' l (g, c) = (x, g', c')"
      by (auto simp: tick_cell_def gc gc' cell Let_def simp del: dec_order split: if_splits)
    then show ?thesis
      using assms(1) held_fill_level [OF _ s] by cases (auto simp: gc gc')
  qed
qed

lemma held_tick_cells:
  "held i g0 gc \<Longrightarrow> tick_cells e prev price blocked xs gc = (x, gc') \<Longrightarrow> held i g0 gc'"
proof (induction xs arbitrary: gc)
  case (Cons cell xs)
  obtain x1 gc1 where t: "tick_cell e prev price blocked cell gc = (x1, gc1)"
    by (cases "tick_cell e prev price blocked cell gc") auto
  from held_tick_cell [OF Cons.prems(1) t] Cons.IH [of gc1] Cons.prems(2) t show ?case
    by (cases x1) auto
qed simp

lemma held_close_levels:
  "held i g0 gc \<Longrightarrow> close_levels e price ft is gc = (x, gc') \<Longrightarrow> held i g0 gc'"
proof (induction "is" arbitrary: gc)
  case (Cons j "is")
  obtain g c where gc: "gc = (g, c)" by fastforce
  show ?case
  proof (cases "\<exists>l. find_level g j = Some l \<and> gl_filled l")
    case True
    then obtain l where l: "find_level g j = Some l" "gl_filled l" by blast
    obtain x1 g1 c1 where f: "fill_level e price False ft l (g, c) = (x1, g1, c1)"
      by (cases "fill_level e price False ft l (g, c)") auto
    have "held i g0 (g1, c1)"
      using held_fill_level [OF Cons.prems(1) [unfolded gc] find_level_self [OF l(1)] _ f] by simp
    with Cons.IH [of "(g1, c1)"] Cons.prems(2) l f show ?thesis by (cases x1) (auto simp: gc)
  next
    case False
    with Cons.prems Cons.IH [of gc] show ?thesis by (auto simp: gc split: option.splits)
  qed
qed simp

lemma tracked_finish:
  assumes "held i g0 (g, c)" and "g_levels h = g_levels g" "g_id h = g_id g" "g_parameters h = g_parameters g"
    "g_direction h = g_direction g"
  shows "tracked i g0 (persist_grid h (put_grid h c))"
  by (rule tracked_persist [OF held_tracked [OF held_same [OF assms]]]) simp

lemma tracked_tick:
  assumes "tracked i g0 c" and "on_price_tick e j price c = (x, c')"
  shows "tracked i g0 c'"
proof (cases "map_of (gc_grids c) j")
  case None
  with assms show ?thesis by (simp add: on_price_tick_def)
next
  case (Some g)
  let ?prev = "case last_price g of Some p \<Rightarrow> p | None \<Rightarrow> price"
  obtain y g1 c1 where t: "tick_cells e ?prev price (symbol_blocked c (g_symbol g)) (cells_of g) (g, c) = (y, g1, c1)"
    by (cases "tick_cells e ?prev price (symbol_blocked c (g_symbol g)) (cells_of g) (g, c)") auto
  from held_tick_cells [OF tracked_held [OF assms(1) Some] t] have h: "held i g0 (g1, c1)" .
  show ?thesis
  proof (cases "grid_active g")
    case False
    with assms Some show ?thesis by (simp add: on_price_tick_def)
  next
    case True
    show ?thesis
    proof (cases y)
      case None
      with assms Some True t have "c' = persist_grid (update_mark_to_market price (g1\<lparr>last_price := Some price\<rparr>))
          (put_grid (update_mark_to_market price (g1\<lparr>last_price := Some price\<rparr>)) c1)"
        by (simp add: on_price_tick_def tick_grid_def Let_def)
      with tracked_finish [OF h] show ?thesis by simp
    next
      case err: (Some err)
      with assms Some True t have "c' = put_grid g1 c1" by (simp add: on_price_tick_def tick_grid_def Let_def)
      with held_tracked [OF h] show ?thesis by simp
    qed
  qed
qed

lemma tracked_close:
  assumes "tracked i g0 c" and "close_grid e j why price force c = (x, c')"
  shows "tracked i g0 c'"
proof (cases "map_of (gc_grids c) j")
  case None
  with assms show ?thesis by (simp add: close_grid_def)
next
  case (Some g)
  let ?ft = "if force then ''force_exit'' else ''level_cross''" and ?g = "g\<lparr>g_status := GRID_CLOSING\<rparr>"
  obtain y g1 c1 where t: "close_levels e price ?ft (map gl_index (g_levels g)) (?g, c) = (y, g1, c1)"
    by (cases "close_levels e price ?ft (map gl_index (g_levels g)) (?g, c)") auto
  have "held i g0 (?g, c)" by (rule held_same [OF tracked_held [OF assms(1) Some]]) simp_all
  from held_close_levels [OF this t] have h: "held i g0 (g1, c1)" .
  show ?thesis
  proof (cases "grid_active g")
    case False
    with assms Some show ?thesis by (simp add: close_grid_def)
  next
    case True
    let ?h = "update_mark_to_market price (g1\<lparr>g_status := GRID_CLOSED, g_closed_at := Some (ge_now e), g_close_reason := Some why\<rparr>)"
    show ?thesis
    proof (cases y)
      case None
      with assms Some True t have "c' = persist_grid ?h (put_grid ?h c1)"
        by (simp add: close_grid_def close_active_def Let_def)
      with tracked_finish [OF h, of ?h] show ?thesis by simp
    next
      case err: (Some err)
      with assms Some True t have "c' = put_grid g1 c1" by (simp add: close_grid_def close_active_def)
      with held_tracked [OF h] show ?thesis by simp
    qed
  qed
qed


text \<open>What happens to a controller between the opening of a grid and a crash: ticks and closes of any grids.\<close>

datatype grid_op = GridTick grid_env nat dec | GridClose grid_env nat string dec bool

fun grid_step :: "grid_controller \<Rightarrow> grid_op \<Rightarrow> grid_controller" where
  "grid_step c (GridTick e j price) = snd (on_price_tick e j price c)"
| "grid_step c (GridClose e j why price force) = snd (close_grid e j why price force c)"

interpretation grids: stateful grid_step "tracked i g0" for i g0
proof unfold_locales
  fix c op assume t: "tracked i g0 c"
  show "tracked i g0 (grid_step c op)"
  proof (cases op)
    case (GridTick e j price)
    with tracked_tick [OF t, of e j price] show ?thesis by (cases "on_price_tick e j price c") simp
  next
    case (GridClose e j why price force)
    with tracked_close [OF t, of e j why price force] show ?thesis by (cases "close_grid e j why price force c") simp
  qed
qed

section \<open>From the opening to the restart\<close>

lemma fresh_levels_index: "map gl_index (fresh_levels d ps) = [0..<length ps]"
  by (simp add: fresh_levels_def fresh_level_def comp_def split_def enumerate_eq_zip)

lemma fresh_levels_ok: "l \<in> set (fresh_levels d ps) \<Longrightarrow> gl_quantity l = 0"
  by (auto simp: fresh_levels_def fresh_level_def)

lemma open_grid_opened:
  assumes "open_grid e d s name a snap price m c0 = Inr (Inr g, c1)" and "gd_params d = Some p"
  shows "\<exists>prices. compute_levels (ge_pow e) p = Inr prices \<and> g_levels g = fresh_levels (long_or_short p) prices \<and>
    g_parameters g = parameter_dict p \<and> g_direction g = long_or_short p \<and> g_id g = ge_grid_id e \<and> g_status g = GRID_ACTIVE \<and>
    g_close_reason g = None \<and> c1 = persist_grid g (put_grid g c0) \<and>
    evaluate_new_grid (ge_pow e) (gc_limits c0) p snap price m = None \<and>
    check_compliance (gc_rules c0) a (sym_exchange s) FUTURES_GRID (grid_requirement p) = ELIGIBLE \<and>
    \<not> symbol_blocked c0 s \<and> account_mode_refusal e (gc_mode c0) s p = None"
  using assms by (auto simp: open_grid_def build_grid_state_def bind_result_Inr Let_def split: if_splits option.splits)

lemma opened_tracked:
  assumes "open_grid e d s name a snap price m c0 = Inr (Inr g, c1)" and "gd_params d = Some p"
    and "repo_up c0" and "registry_ok c0" and "ledger_of (ge_grid_id e) c0 = []"
  shows "tracked (ge_grid_id e) g c1"
proof -
  from open_grid_opened [OF assms(1,2)] obtain prices where o: "g_levels g = fresh_levels (long_or_short p) prices"
    "g_id g = ge_grid_id e" "g_close_reason g = None" "c1 = persist_grid g (put_grid g c0)" by blast
  have ok: "levels_ok g"
    using fresh_levels_ok fresh_levels_index [of "long_or_short p" prices] by (auto simp: levels_ok_def o(1))
  have reg: "registry_ok c1" using assms(4) ok by (simp add: o(4) registry_ok_def)
  have row: "row_ok (ge_grid_id e) g c1"
    using assms(3) o by (auto simp: row_ok_def persist_grid_def upsert_grid_def repo_up_def fits_columns_def)
  show ?thesis
    using assms(3,5) reg row o(2,4) by (simp add: tracked_def matches_def)
qed

lemma levels_from_parameters_built:
  assumes "check_grid_params p = Inr p"
  shows "levels_from_parameters fpow (parameter_dict p) (long_or_short p) = compute_levels fpow p"
proof -
  have "spacing_mode_of (PyStr (grid_mode_value (grid_mode p))) = Inr (grid_mode p)"
    by (cases "grid_mode p") (simp_all add: spacing_mode_of_def)
  moreover have "compute_levels fpow (p\<lparr>gp_margin_mode := x, grid_spacing := y, position_size := z, max_notional := u,
      take_profit := v, stop_loss := w, maximum_holding_time := h\<rparr>) = compute_levels fpow p" for x y z u v w h
  proof -
    have "raw_level fpow (p\<lparr>gp_margin_mode := x, grid_spacing := y, position_size := z, max_notional := u,
      take_profit := v, stop_loss := w, maximum_holding_time := h\<rparr>) = raw_level fpow p"
      by (intro ext) (simp add: raw_level_def)
    then show ?thesis by (simp add: compute_levels_def)
  qed
  from this [where x = ISOLATED and y = None and z = 0 and u = 0 and v = None and w = None and h = None]
  have "compute_levels fpow \<lparr>lower_price = lower_price p, upper_price = upper_price p, grid_count = grid_count p,
      long_or_short = long_or_short p, gp_leverage = gp_leverage p, gp_margin_mode = ISOLATED, grid_mode = grid_mode p,
      grid_spacing = None, position_size = 0, max_notional = 0, take_profit = None, stop_loss = None,
      maximum_holding_time = None\<rparr> = compute_levels fpow p"
    by (cases p) simp
  moreover have "check_grid_params \<lparr>lower_price = lower_price p, upper_price = upper_price p, grid_count = grid_count p,
      long_or_short = long_or_short p, gp_leverage = gp_leverage p, gp_margin_mode = ISOLATED, grid_mode = grid_mode p,
      grid_spacing = None, position_size = 0, max_notional = 0, take_profit = None, stop_loss = None,
      maximum_holding_time = None\<rparr> = Inr \<lparr>lower_price = lower_price p, upper_price = upper_price p, grid_count = grid_count p,
      long_or_short = long_or_short p, gp_leverage = gp_leverage p, gp_margin_mode = ISOLATED, grid_mode = grid_mode p,
      grid_spacing = None, position_size = 0, max_notional = 0, take_profit = None, stop_loss = None,
      maximum_holding_time = None\<rparr>"
    using assms by (simp add: check_grid_params_def del: dec_order split: if_splits)
  ultimately show ?thesis
    by (simp add: levels_from_parameters_def required_def py_get_def parameter_dict_def int_of_pyval_def del: dec_order)
qed

lemma replay_fills_fold:
  assumes "gf_level ` set fs \<subseteq> gl_index ` set ls"
    and "\<forall>x \<in> set_option orders. \<forall>f \<in> set fs. lookup_order_status x (gf_order f) = Some FILLED"
  shows "replay_fills orders fs ls = Some (fold replay_fill fs ls)"
  using assms
proof (induction fs arbitrary: ls)
  case (Cons f fs)
  have "gl_index ` set (replay_fill f ls) = gl_index ` set ls" using replay_fill_index [of f ls] by (metis list.set_map)
  with Cons.IH [of "replay_fill f ls"] Cons.prems show ?case by simp
qed simp

lemma replay_fill_price [simp]: "replay_fill (f\<lparr>gf_price := x\<rparr>) ls = replay_fill f ls"
  by (simp add: replay_fill_def replay_after_def Let_def)

lemma fold_replay_price: "fold replay_fill (map (\<lambda>f. f\<lparr>gf_price := h f\<rparr>) fs) ls = fold replay_fill fs ls"
  by (induction fs arbitrary: ls) simp_all

text \<open>
  C6. A restart gives back the levels of a grid. From the opening of the grid on, let ticks and closes of any grids change
  the controller in any order. The grid that is restored from its row and the ledger of its fills then has the same levels
  as the running one: the same prices, the same ones filled, with the same quantities and cycles. What it takes: the
  database was up, the quantities are exact at the eight places of the column, the clock of the fills did not run
  backwards, and the order table, if it is asked, knows each order as filled.
\<close>

theorem recovery_replays_levels:
  assumes opened: "open_grid e d s name a snap price m c0 = Inr (Inr g0, c1)"
    and params: "gd_params d = Some p" "check_grid_params p = Inr p"
    and start: "repo_up c0" "registry_ok c0" "ledger_of (ge_grid_id e) c0 = []"
    and fin: "c = run grid_step c1 ops" "gc_repo c = Some t" "map_of (gt_rows t) (ge_grid_id e) = Some row"
    and exact: "\<forall>f \<in> set (ledger_of (ge_grid_id e) c). is_dec (gf_quantity f) \<and> col 8 (gf_quantity f) = gf_quantity f"
    and ordered: "sorted (map gf_at (ledger_of (ge_grid_id e) c))"
    and filled: "\<forall>x \<in> set_option orders. \<forall>f \<in> set (ledger_of (ge_grid_id e) c).
      lookup_order_status x (gf_order f) = Some FILLED"
  shows "\<exists>h g. restore_one_grid orders col (ge_pow e) t row = Inr (Some h) \<and> map_of (gc_grids c) (ge_grid_id e) = Some g \<and>
    map core (g_levels h) = map core (g_levels g)"
proof -
  let ?i = "ge_grid_id e" and ?ls = "g_levels g0"
  from open_grid_opened [OF opened params(1)] obtain prices where o: "compute_levels (ge_pow e) p = Inr prices"
    "?ls = fresh_levels (long_or_short p) prices" "g_parameters g0 = parameter_dict p" "g_direction g0 = long_or_short p"
    "c1 = persist_grid g0 (put_grid g0 c0)" "g_id g0 = ?i"
    by blast
  have tr1: "tracked ?i g0 c1" by (rule opened_tracked [OF opened params(1) start])
  have tr: "tracked ?i g0 c" unfolding fin(1) by (rule grids.run_ok [OF tr1])
  obtain g where g: "map_of (gc_grids c) ?i = Some g" "matches g0 g (ledger_of ?i c)" "row_ok ?i g c"
    using tr by (auto simp: tracked_def)
  have exf: "exact_fills (ledger_of ?i c)" using exact by (simp add: exact_fills_def)
  from g(2) exf have m: "map core (g_levels g) = map core (fold replay_fill (ledger_of ?i c) ?ls)"
    "gf_level ` set (ledger_of ?i c) \<subseteq> gl_index ` set ?ls" by (simp_all add: matches_def)
  have par: "g_parameters row = parameter_dict p \<and> g_direction row = long_or_short p \<and> g_id row = ?i"
    using g(2,3) fin(2,3) o(3,4) by (auto simp: row_ok_def matches_def)
  have fills: "get_fills col ?i t = map (\<lambda>f. f\<lparr>gf_price := col 8 (gf_price f)\<rparr>) (ledger_of ?i c)"
  proof -
    have l: "ledger_of ?i c = filter (\<lambda>f. gf_grid f = ?i) (gt_fills t)" using fin(2) by (simp add: ledger_of_def)
    have "sort_key gf_at (ledger_of ?i c) = ledger_of ?i c" using ordered by (rule sort_key_id_if_sorted)
    with exact show ?thesis unfolding get_fills_def l [symmetric] by simp
  qed
  have rs: "replay_fills orders (get_fills col ?i t) ?ls = Some (fold replay_fill (ledger_of ?i c) ?ls)"
    unfolding fills using replay_fills_fold [where orders = orders] m(2) filled
    by (subst replay_fills_fold) (auto simp: fold_replay_price image_image)
  have srt: "sort_key gl_index (fold replay_fill (ledger_of ?i c) ?ls) = fold replay_fill (ledger_of ?i c) ?ls"
    by (rule sort_key_id_if_sorted) (simp add: o(2) fresh_levels_index)
  obtain h0 where h0: "grid_state_from_row (ge_pow e) col row = Inr h0" "g_levels h0 = ?ls"
    using levels_from_parameters_built [OF params(2), of "ge_pow e"] par o(1,2) by (simp add: grid_state_from_row_def)
  have "restore_one_grid orders col (ge_pow e) t row = Inr (Some (h0\<lparr>g_levels := fold replay_fill (ledger_of ?i c) ?ls\<rparr>))"
    using h0 rs srt par by (simp add: restore_one_grid_def)
  with g(1) m(1) show ?thesis by auto
qed

end
