(* ===== verification/Grid_Examples.thy ===== *)
theory Grid_Examples
  imports Grid_Recovery
begin

text \<open>
  A grid of three levels that is opened, ticked once and restored, for the applications of the properties of
  \<open>Grid_Controller\<close> and \<open>Grid_Recovery\<close>.
\<close>

section \<open>Examples\<close>

definition grid_symbol :: symbol where
  "grid_symbol = \<lparr>base = ''BTC'', quote = ''USDT'', sym_exchange = BINANCE, asset = ASSET_FUTURES\<rparr>"

definition grid_venue :: venue where
  "grid_venue = (demo_venue 1)\<lparr>v_place := accept\<rparr>"

lemma accepted_fills:
  assumes "omode ord = PAPER" and "osymbol ord = grid_symbol"
  shows "\<exists>r ee. execute grid_venue ord False demo_engine = Inr (r, ee) \<and> status r = FILLED \<and>
    filled_quantity r = quantity ord \<and> placed ee = [ord]"
proof -
  let ?v = grid_venue and ?e = "demo_engine\<lparr>leverage_cache := [(''BTC/USDT:binance'', Dec 1)]\<rparr>"
  define e0 where "e0 = (if reduce_only ord then demo_engine else ?e)"
  have e0: "ee_mode e0 = PAPER" "ee_gate e0 = None" "ee_exec e0 = demo_executor" "placed e0 = []" "e0\<lparr>ee_gate := None\<rparr> = e0"
    by (simp_all add: e0_def demo_engine_def)
  define a where "a = (blank_result ord 3)\<lparr>status := FILLED, filled_quantity := quantity ord, exchange_order_id := ''X1''\<rparr>"
  have h: "hands_over ord (ee_exec e0)"
    by (simp add: hands_over_def e0 demo_executor_def lookup_persisted_def get_order_by_id_def)
  have "\<exists>x1. execute_safely (v_place ?v) (v_now ?v) ord (ee_exec e0) = (Some a, x1)"
    by (simp add: e0 a_def accept_def grid_venue_def demo_venue_def demo_executor_def execute_safely_def
        eval_nat_numeral lookup_persisted_def get_order_by_id_def answered_def blank_result_def)
  then obtain x1 where x: "execute_safely (v_place ?v) (v_now ?v) ord (ee_exec e0) = (Some a, x1)" ..
  define e1 where "e1 = e0\<lparr>ee_exec := x1, placed := [ord]\<rparr>"
  have s: "safely ?v ord e0 = (Inr a, e1)"
    using h x by (simp add: safely_def e1_def e0)
  have up: "adapter_of ?v e0 ord = Inr True"
    using assms by (simp add: adapter_of_def e0 grid_venue_def demo_venue_def grid_symbol_def)
  have a: "status a = FILLED" "\<not> marked a" "filled_quantity a = quantity ord"
    by (simp_all add: a_def marked_def py_get_def blank_result_def)
  have i: "execute_internal ?v ord e0 = (Inr (attribute ord a), on_fill ?v (attribute ord a) e1)"
    using s up a by (simp add: execute_internal_def Let_def)
  have b: "execute_budgeted ?v ord e0 = (attribute ord a, release_order ord (on_fill ?v (attribute ord a) e1))"
    using i assms by (simp add: execute_budgeted_def check_live_verification_allowed_def e0)
  have "execute ?v ord False demo_engine = Inr (execute_budgeted ?v ord e0)"
    using assms by (simp add: execute_def check_live_trading_allowed_def demo_engine_def new_kill_switch_def ks_init_def
      grid_venue_def demo_venue_def execute_opening_def ensure_leverage_def adapter_of_def Let_def quantize_order_def
      symbol_str_def e0_def grid_symbol_def)
  with b a show ?thesis by (simp add: attribute_def e1_def)
qed

definition demo_grid_limits :: grid_limits where
  "demo_grid_limits = \<lparr>max_grid_exposure_usd = Dec 500, max_grid_position_usd = Dec 200, max_open_grids = 3,
     max_grid_orders = 20, max_grid_loss_usd = Dec 50, max_funding_cost_pct = Flt 1, max_liquidation_distance_pct = Flt (1/4),
     gr_max_leverage = Dec 3, min_liquidity_usd = Dec 0, max_volatility_atr_pct = Flt 1,
     cost_guard_safety_margin = Dec 2, max_funding_share_of_cycle_edge = Flt 1, max_combined_exposure_usd = None,
     max_total_exposure_pct = None, range_breakout_buffer_factor = Flt (1/4), gr_maker_fee = Flt 0, gr_taker_fee = Flt 0,
     gr_slippage = Flt 0\<rparr>"

definition demo_rules :: compliance_rules where
  "demo_rules = register_rule BINANCE FUTURES_GRID
     \<lparr>jurisdictions_allowed = Some [''DE''], requires_manual_approval = True\<rparr> []"

definition demo_controller :: grid_controller where
  "demo_controller = \<lparr>gc_exec = demo_engine, gc_mode = PAPER, gc_tenant = Some ''t1'', gc_limits = demo_grid_limits,
     gc_rules = demo_rules, gc_repo = Some \<lparr>gt_up = True, gt_rows = [], gt_fills = []\<rparr>, gc_symbols = None,
     gc_limiter = None, gc_gate = None, gc_grids = []\<rparr>"

definition demo_grid_env :: "time \<Rightarrow> grid_env" where
  "demo_grid_env t = \<lparr>ge_now = t, ge_venue = (\<lambda>i. grid_venue), ge_order_id = (\<lambda>i. 31), ge_signal_id = (\<lambda>i. 41),
     ge_limiter = (\<lambda>i. \<lparr>le_now = t, le_incr_ok = True, le_expire_ok = True\<rparr>), ge_hedged = (\<lambda>x. Inr False),
     ge_margin = (\<lambda>s. Inr ISOLATED), ge_pow = (\<lambda>x y. x), ge_grid_id = 7\<rparr>"

definition demo_grid :: "time \<Rightarrow> grid" where
  "demo_grid t = \<lparr>g_id = 7, g_tenant = Some ''t1'', g_symbol = grid_symbol, g_strategy = ''long_futures_grid'', g_mode = PAPER,
     g_direction = GRID_LONG, g_status = GRID_ACTIVE, g_parameters = parameter_dict (demo_grid_params GRID_LONG),
     g_levels = fresh_levels GRID_LONG [Dec 10, Dec 20, Dec 30], net_position_qty = 0,
     g_realized_pnl = 0, g_unrealized_pnl = 0, peak_value = 0, fees_paid = 0, funding_paid = 0, fills_count = 0,
     last_price = Some (Dec 25), g_opened_at = t, g_closed_at = None, g_close_reason = None\<rparr>"

lemma demo_opens:
  "open_grid (demo_grid_env 3) \<lparr>gd_direction = GRID_LONG, gd_params = Some (demo_grid_params GRID_LONG), gd_confidence = Flt 1\<rparr>
     grid_symbol ''long_futures_grid'' demo_verified_account \<lparr>open_grids = [], snap_value = Dec 1000\<rparr> (Dec 25)
     \<lparr>gm_liquidity = None, gm_funding = None, gm_volatility = None, gm_directional = None\<rparr> demo_controller =
   Inr (Inr (demo_grid 3), persist_grid (demo_grid 3) (put_grid (demo_grid 3) demo_controller))"
proof -
  let ?p = "demo_grid_params GRID_LONG"
  have r: "rnd_dec 180 = 180" "rnd_dec 10 = 10" "rnd_dec (1/2) = 1/2" "0 \<le> rnd_dec (10/25)"
    using rnd_dec_int [of 180] rnd_dec_int [of 10] rnd_dec_exact [of 1 "1/2"] by (simp_all add: dec.rnd_nonneg on_grid_def)
  have p: "position_size ?p = Dec 60" "grid_count ?p = 3" "gp_leverage ?p = Dec 2" "grid_spacing ?p = None"
    by (simp_all add: demo_grid_params_def)
  have sp: "effective_grid_spacing (\<lambda>x y. x) ?p = Inr (Dec 10)"
    using demo_grid_levels [of "\<lambda>x y. x" GRID_LONG] r by (simp add: effective_grid_spacing_def p dec_eq_iff)
  have n: "grid_notional ?p = Dec 180" using r by (simp add: grid_notional_def p dec_eq_iff)
  have "1 / Dec 2 = Dec (1/2)" using rnd_dec_exact [of 1 "1/2"] by (simp add: dec_eq_iff on_grid_def)
  moreover have "float_of (Dec (1/2)) = Flt (1/2)"
    using rnd_flt_dyadic [of "1/2" 1 "- 1"] by (simp add: float_of_def flt_eq_iff bpow_def)
  ultimately have fl: "float_of (1 / Dec 2) = Flt (1/2)" by simp
  have mk: "check_market (\<lambda>x y. x) demo_grid_limits ?p (Dec 25)
     \<lparr>gm_liquidity = None, gm_funding = None, gm_volatility = None, gm_directional = None\<rparr> = Inr None"
    using r(4) by (simp add: fl check_market_def funding_too_high_def volatility_too_high_def check_cost_guard_def p sp
      demo_grid_limits_def Let_def dec_of_float_def)
  have ev: "evaluate_new_grid (\<lambda>x y. x) demo_grid_limits ?p \<lparr>open_grids = [], snap_value = Dec 1000\<rparr> (Dec 25)
     \<lparr>gm_liquidity = None, gm_funding = None, gm_volatility = None, gm_directional = None\<rparr> = None"
    using r(1) mk by (simp add: evaluate_new_grid_def evaluate_grid_internal_def active_grids_of_def n p
      check_combined_def exposure_limit_def Let_def demo_grid_limits_def)
  have c: "check_compliance demo_rules demo_verified_account BINANCE FUTURES_GRID (grid_requirement ?p) = ELIGIBLE"
    by (simp add: compliance_eligible check_capability_def get_capability_def capabilities_def missing_features_def
       futures_capability_def demo_rules_def register_rule_def check_jurisdiction_def demo_verified_account_def check_account_def)
  then have cap: "check_capability BINANCE FUTURES_GRID (grid_requirement ?p)" by (simp add: compliance_eligible)
  show ?thesis
    using ev c cap demo_grid_levels
    by (simp add: open_grid_def demo_grid_env_def demo_controller_def symbol_blocked_def account_mode_refusal_def
      grid_symbol_def Let_def build_grid_state_def demo_grid_def demo_grid_params_def)
qed


text \<open>The price falls from 25 to 15: the level at 20 is opened with 60 / 20 = 3.\<close>

definition opened_controller :: grid_controller where
  "opened_controller = persist_grid (demo_grid 3) (put_grid (demo_grid 3) demo_controller)"

lemma opened_fields:
  "gc_exec opened_controller = demo_engine" "gc_limiter opened_controller = None" "gc_symbols opened_controller = None"
  "gc_grids opened_controller = [(7, demo_grid 3)]" "gc_tenant opened_controller = Some ''t1''" "gc_gate opened_controller = None"
  "gc_repo opened_controller = Some \<lparr>gt_up = True, gt_rows = [(7, demo_grid 3)], gt_fills = []\<rparr>"
  "opened_controller\<lparr>gc_limiter := None\<rparr> = opened_controller"
  by (simp_all add: opened_controller_def demo_controller_def persist_grid_def put_grid_def upsert_grid_def fits_columns_def
    demo_grid_def)

lemma demo_env_fields:
  "ge_now (demo_grid_env t) = t" "ge_venue (demo_grid_env t) i = grid_venue" "ge_order_id (demo_grid_env t) i = 31"
  "ge_grid_id (demo_grid_env t) = 7" "ge_pow (demo_grid_env t) = (\<lambda>x y. x)"
  by (simp_all add: demo_grid_env_def)

lemma demo_filled:
  "\<exists>c1 f. on_price_tick (demo_grid_env 5) 7 (Dec 15) opened_controller = (None, c1) \<and>
     ledger_of 7 c1 = [f] \<and> gf_opening f \<and> gf_level f = 1 \<and> gf_grid f = 7 \<and>
     gf_quantity f = Dec 3 \<and> gf_at f = 5 \<and> gf_order f = 31 \<and> length (placed (gc_exec c1)) = 1"
proof -
  let ?e = "demo_grid_env 5" and ?c = opened_controller
  define g where "g = demo_grid 3"
  define l where "l = fresh_level GRID_LONG 1 (Dec 20)"
  define ord where "ord = level_order ?e g l (Dec 3) True ''level_cross''"
  have rd: "Dec 60 / Dec 20 = Dec 3" using rnd_dec_int [of 3] by (simp add: dec_eq_iff)
  have ls: "find_level g 0 = Some (fresh_level GRID_LONG 0 (Dec 10))" "find_level g 1 = Some l"
    "cells_of g = [(0, Dec 20), (1, Dec 30)]"
    by (simp_all add: find_level_def g_def demo_grid_def fresh_levels_def fresh_level_def l_def cells_of_def)
  have lf: "gl_index l = 1" "gl_price l = Dec 20" "\<not> gl_filled l" by (simp_all add: l_def fresh_level_def)
  have gf: "g_id g = 7" "g_direction g = GRID_LONG" "last_price g = Some (Dec 25)" "grid_active g"
    by (simp_all add: g_def demo_grid_def grid_active_def)
  have "omode ord = PAPER" "osymbol ord = grid_symbol"
    by (simp_all add: ord_def level_order_def g_def demo_grid_def)
  from accepted_fills [OF this] obtain r ee where x: "execute grid_venue ord False demo_engine = Inr (r, ee)" "status r = FILLED"
      "filled_quantity r = quantity ord" "placed ee = [ord]" by blast
  then have q: "filled_quantity r = Dec 3" by (simp add: ord_def level_order_def)
  define c1 where "c1 = ?c\<lparr>gc_exec := ee\<rparr>"
  obtain g2 c2 where b: "book_level ?e g l (Dec 20) True r c1 = (g2, c2)" by fastforce
  have fq: "fill_quantity g l (Dec 20) True = Inr (Some (Dec 3))"
    by (simp add: fill_quantity_def g_def demo_grid_def parameter_dict_def demo_grid_params_def py_get_def rd)
  have f: "fill_level ?e (Dec 20) True ''level_cross'' l (g, ?c) = (None, g2, c2)"
    using x(1,2) q b
    by (simp add: fill_level_def fq c1_def fill_counts_def opened_fields demo_env_fields acquire_opt_def Let_def ord_def)
  have "tick_cells ?e (Dec 25) (Dec 15) False [(0, Dec 20), (1, Dec 30)] (g, ?c) = (None, g2, c2)"
    using ls lf f gf(2) by (simp add: tick_cell_def crossed_def fresh_level_def)
  then have t: "on_price_tick ?e 7 (Dec 15) ?c = (None, persist_grid (update_mark_to_market (Dec 15) (g2\<lparr>last_price := Some (Dec 15)\<rparr>))
      (put_grid (update_mark_to_market (Dec 15) (g2\<lparr>last_price := Some (Dec 15)\<rparr>)) c2))"
    using gf ls(3) by (simp add: on_price_tick_def tick_grid_def opened_fields g_def [symmetric] symbol_blocked_def Let_def)
  have c1: "ledger_of 7 c1 = []" "repo_up c1" by (simp_all add: c1_def ledger_of_def repo_up_def opened_fields)
  have c2: "gc_exec c2 = ee" "\<exists>f. ledger_of 7 c2 = [f] \<and> gf_opening f \<and> gf_level f = 1 \<and> gf_grid f = 7 \<and>
     gf_quantity f = Dec 3 \<and> gf_at f = 5 \<and> gf_order f = 31"
    using b c1 by (auto simp: book_level_def Let_def ledger_record lf gf q demo_env_fields) (simp_all add: c1_def)
  with t x(4) show ?thesis by auto
qed


section \<open>Applications\<close>

theorem tick_orders_follow_crossings_witness:
  "\<exists>c' ord. on_price_tick (demo_grid_env 5) 7 (Dec 15) opened_controller = (None, c') \<and> placed (gc_exec c') = [ord] \<and>
     (\<exists>k \<in> set (cells_of (demo_grid 3)). tick_order (demo_grid 3) (Dec 25) (Dec 15) False k ord)"
proof -
  from demo_filled obtain c1 where t: "on_price_tick (demo_grid_env 5) 7 (Dec 15) opened_controller = (None, c1)"
    "length (placed (gc_exec c1)) = 1" by blast
  have g: "map_of (gc_grids opened_controller) 7 = Some (demo_grid 3)" "numbered (demo_grid 3)"
    by (simp_all add: opened_fields numbered_def demo_grid_def fresh_levels_def fresh_level_def)
  have s: "placed (gc_exec opened_controller) = []" "last_price (demo_grid 3) = Some (Dec 25)"
    "symbol_blocked opened_controller (g_symbol (demo_grid 3)) = False"
    by (simp_all add: opened_fields demo_engine_def demo_grid_def symbol_blocked_def)
  from t(2) obtain ord where o: "placed (gc_exec c1) = [ord]" by (auto simp: length_Suc_conv)
  let ?P = "\<lambda>k ord. grid_active (demo_grid 3) \<and> (\<exists>prev. last_price (demo_grid 3) = Some prev \<and>
    tick_order (demo_grid 3) prev (Dec 15) (symbol_blocked opened_controller (g_symbol (demo_grid 3))) k ord)"
  from tick_orders_follow_crossings [OF g t(1)] obtain os ks where
    p: "placed (gc_exec c1) = placed (gc_exec opened_controller) @ os" and k: "subseq ks (cells_of (demo_grid 3))" "list_all2 ?P ks os"
    by blast
  from p o s(1) have "os = [ord]" by simp
  with k(2) obtain k' where "ks = [k']" "?P k' ord" by (auto simp: list_all2_Cons2)
  with k(1) s have "k' \<in> set (cells_of (demo_grid 3))" "tick_order (demo_grid 3) (Dec 25) (Dec 15) False k' ord"
    by (simp_all add: subseq_singleton_left)
  with t(1) o show ?thesis by blast
qed

definition killed_controller :: grid_controller where
  "killed_controller = opened_controller\<lparr>gc_exec := demo_engine\<lparr>ee_switch :=
     (ee_switch demo_engine)\<lparr>st := (st (ee_switch demo_engine))\<lparr>is_active := True\<rparr>\<rparr>\<rparr>,
     gc_grids := [(7, (demo_grid 3)\<lparr>g_levels := map (\<lambda>l. l\<lparr>gl_filled := True, gl_quantity := Dec 3\<rparr>) (g_levels (demo_grid 3)),
       net_position_qty := Dec 9\<rparr>)]\<rparr>"

theorem kill_switch_orphans_grid_witness:
  "\<exists>c' g'. close_grid (demo_grid_env 9) 7 ''kill_switch'' (Dec 15) True killed_controller = (None, c') \<and>
     map_of (gc_grids c') 7 = Some g' \<and> g_status g' = GRID_CLOSED \<and> net_position_qty g' = Dec 9"
proof -
  let ?g = "(demo_grid 3)\<lparr>g_levels := map (\<lambda>l. l\<lparr>gl_filled := True, gl_quantity := Dec 3\<rparr>) (g_levels (demo_grid 3)),
       net_position_qty := Dec 9\<rparr>"
  have h: "map_of (gc_grids killed_controller) 7 = Some ?g" "g_id ?g = 7" "grid_active ?g"
    "g_mode ?g = ee_mode (gc_exec killed_controller)" "is_active (st (ee_switch (gc_exec killed_controller)))"
    by (simp_all add: killed_controller_def demo_grid_def grid_active_def demo_engine_def)
  from kill_switch_orphans_grid [OF h, of "demo_grid_env 9" "''kill_switch''" "Dec 15" True] show ?thesis
    by (force simp: demo_grid_def)
qed

theorem recovery_replays_levels_witness:
  "\<exists>c t row h g. on_price_tick (demo_grid_env 5) 7 (Dec 15) opened_controller = (None, c) \<and> gc_repo c = Some t \<and>
     map_of (gt_rows t) 7 = Some row \<and> length (ledger_of 7 c) = 1 \<and> map_of (gc_grids c) 7 = Some g \<and>
     restore_one_grid None (\<lambda>n x. x) (\<lambda>x y. x) t row = Inr (Some h) \<and> map core (g_levels h) = map core (g_levels g)"
proof -
  from demo_filled obtain c1 f where t: "on_price_tick (demo_grid_env 5) 7 (Dec 15) opened_controller = (None, c1)"
    "ledger_of 7 c1 = [f]" "gf_quantity f = Dec 3" by blast
  have p: "check_grid_params (demo_grid_params GRID_LONG) = Inr (demo_grid_params GRID_LONG)"
    by (simp add: check_grid_params_def demo_grid_params_def)
  have s: "repo_up demo_controller" "registry_ok demo_controller" "ledger_of 7 demo_controller = []"
    by (simp_all add: repo_up_def registry_ok_def ledger_of_def demo_controller_def)
  have r: "c1 = run grid_step opened_controller [GridTick (demo_grid_env 5) 7 (Dec 15)]" using t(1) by simp
  have "is_dec (Dec 3)" using rnd_dec_int [of 3] by (simp add: is_dec_def)
  then have e: "\<forall>f \<in> set (ledger_of 7 c1). is_dec (gf_quantity f) \<and> (\<lambda>n x. x) 8 (gf_quantity f) = gf_quantity f"
    using t(2,3) by simp
  have "tracked 7 (demo_grid 3) opened_controller"
    using opened_tracked [OF demo_opens, of "demo_grid_params GRID_LONG"] s by (simp add: demo_env_fields opened_controller_def)
  then have "tracked 7 (demo_grid 3) c1" unfolding r by (rule grids.run_ok)
  then obtain tb row where tb: "gc_repo c1 = Some tb" "map_of (gt_rows tb) 7 = Some row"
    by (auto simp: tracked_def repo_up_def row_ok_def)
  from recovery_replays_levels [where e = "demo_grid_env 3" and orders = None and col = "\<lambda>n x. x",
      OF demo_opens _ p, unfolded demo_env_fields, OF _ s, folded opened_controller_def, OF _ r tb e] t tb
  show ?thesis by auto
qed

end
