(* ===== verification/Grid_Scheduler.thy ===== *)
theory Grid_Scheduler
  imports Grid_Examples Feature_Store Strategy_Registry Portfolio_Engine
begin

text \<open>
  \<open>sgr/orchestrator/grid_scheduler.py\<close>: candles drive the grids of a tenant. A candle ticks the grid that runs on its
  symbol, or lets the active grid strategies open one. Everything the scheduler reads besides its own state is an
  argument of the step: the store of the features, the registry, the approval of the account, the portfolio and the
  symbol kill switch.
\<close>

section \<open>State\<close>

record grid_scheduler =
  gs_enabled :: bool
  gs_tenant :: "string option"
  gs_open_keys :: "string list"
  gs_controller :: grid_controller

definition new_grid_scheduler :: "bool option \<Rightarrow> string option \<Rightarrow> string option \<Rightarrow> grid_controller \<Rightarrow> grid_scheduler" where
  "new_grid_scheduler b0 env_flag u c = \<lparr>gs_enabled = (case b0 of Some b \<Rightarrow> b
       | None \<Rightarrow> (case env_flag of Some v \<Rightarrow> ascii_lower v = ''true'' | None \<Rightarrow> False)),
     gs_tenant = u, gs_open_keys = [], gs_controller = c\<rparr>"

record sched_env =
  sv_grid :: grid_env
  sv_decode :: "string \<Rightarrow> feature_set option"
  sv_store :: feature_store
  sv_registry :: strategy_registry
  sv_account :: "eligibility option result"
  sv_portfolio :: "portfolio option"
  sv_symbols :: sks

record candle =
  cd_symbol :: symbol
  cd_timeframe :: string
  cd_close :: dec

section \<open>Steps\<close>

definition directional_exposure :: "portfolio option \<Rightarrow> dec option" where
  "directional_exposure pf =
     (case pf of
        None \<Rightarrow> None
      | Some p \<Rightarrow> Some (foldl (\<lambda>acc q. acc + (if notional_value q < 0 then - notional_value q else notional_value q)) 0
                      (dict_values (positions p))))"

definition grid_strategies :: "grid_strategy list" where
  "grid_strategies = [LongGrid, ShortGrid, AdaptiveGrid]"

definition grid_strategy_of :: "string \<Rightarrow> grid_strategy option" where
  "grid_strategy_of n = find (\<lambda>g. grid_strategy_name g = n) grid_strategies"

definition get_active_grid_strategies :: "strategy_registry \<Rightarrow> grid_strategy list" where
  "get_active_grid_strategies r = List.map_filter (\<lambda>s. grid_strategy_of (strat_name s)) (get_active None r)"

definition portfolio_snapshot :: "portfolio option \<Rightarrow> grid_controller \<Rightarrow> grid_snapshot" where
  "portfolio_snapshot pf c = \<lparr>open_grids = active_grids c,
     snap_value = (case pf of Some p \<Rightarrow> portfolio_value p | None \<Rightarrow> Dec 0)\<rparr>"

definition grid_symbol_key :: "grid \<Rightarrow> string" where
  "grid_symbol_key g = symbol_switch_key (g_symbol g)"

definition open_key :: "string \<Rightarrow> grid_strategy \<Rightarrow> string" where
  "open_key sk g = sk @ '':'' @ grid_strategy_name g"

text \<open>The attempt to open one grid, after which the scheduler is done with the candle.\<close>

definition attempt_open ::
  "sched_env \<Rightarrow> candle \<Rightarrow> grid_strategy \<Rightarrow> grid_decision \<Rightarrow> grid_scheduler \<Rightarrow> py_exc option \<times> grid_scheduler"
where
  "attempt_open e c g d s =
     (case sv_account e of
        Inl x \<Rightarrow> (Some x, s)
      | Inr None \<Rightarrow> (None, s)
      | Inr (Some a) \<Rightarrow>
          (case open_grid (sv_grid e) d (cd_symbol c) (grid_strategy_name g) a
                  (portfolio_snapshot (sv_portfolio e) (gs_controller s)) (cd_close c)
                  \<lparr>gm_liquidity = None, gm_funding = None, gm_volatility = None,
                   gm_directional = directional_exposure (sv_portfolio e)\<rparr> (gs_controller s) of
             Inl x \<Rightarrow> (Some x, s)
           | Inr (Inl why, c1) \<Rightarrow> (None, s\<lparr>gs_controller := c1\<rparr>)
           | Inr (Inr gr, c1) \<Rightarrow> (None, s\<lparr>gs_controller := c1,
               gs_open_keys := List.insert (open_key (symbol_switch_key (cd_symbol c)) g) (gs_open_keys s)\<rparr>)))"

fun try_strategies ::
  "sched_env \<Rightarrow> candle \<Rightarrow> market_context \<Rightarrow> grid_strategy list \<Rightarrow> grid_scheduler \<Rightarrow> py_exc option \<times> grid_scheduler"
where
  "try_strategies e c ctx [] s = (None, s)"
| "try_strategies e c ctx (g # gs) s =
     (if open_key (symbol_switch_key (cd_symbol c)) g \<in> set (gs_open_keys s) then try_strategies e c ctx gs s
      else case evaluate_grid g ctx of
             Inl x \<Rightarrow> (Some x, s)
           | Inr d \<Rightarrow>
               if gd_direction d = GRID_NEUTRAL \<or> gd_params d = None then try_strategies e c ctx gs s
               else attempt_open e c g d s)"

definition running_grid :: "string \<Rightarrow> grid_controller \<Rightarrow> grid option" where
  "running_grid sk c = find (\<lambda>g. grid_symbol_key g = sk) (active_grids c)"

definition process_symbol :: "sched_env \<Rightarrow> candle \<Rightarrow> grid_scheduler \<Rightarrow> py_exc option \<times> grid_scheduler" where
  "process_symbol e c s =
     (let sk = symbol_switch_key (cd_symbol c); tf = cd_timeframe c; now = ge_now (sv_grid e)
      in case running_grid sk (gs_controller s) of
           Some g \<Rightarrow>
             (let (x, c1) = on_price_tick (sv_grid e) (g_id g) (cd_close c) (gs_controller s)
              in (x, s\<lparr>gs_controller := c1\<rparr>))
         | None \<Rightarrow>
             let gs = get_active_grid_strategies (sv_registry e)
             in if gs = [] then (None, s)
                else case get_latest (sv_decode e) now sk tf (sv_store e) of
                       Inl x \<Rightarrow> (Some x, s)
                     | Inr None \<Rightarrow> (None, s)
                     | Inr (Some f) \<Rightarrow>
                         case get_latest_regime now sk tf (sv_store e) of
                           Inl x \<Rightarrow> (Some x, s)
                         | Inr r \<Rightarrow>
                             let m = (case r of Some m \<Rightarrow> m | None \<Rightarrow> UNKNOWN_REGIME)
                             in try_strategies e c \<lparr>c_symbol = cd_symbol c, primary = f\<lparr>f_regime := m\<rparr>, c_regime = m\<rparr> gs s)"

definition on_candle :: "sched_env \<Rightarrow> candle \<Rightarrow> grid_scheduler \<Rightarrow> grid_scheduler" where
  "on_candle e c s =
     (if \<not> gs_enabled s \<or> \<not> symbol_active (sv_symbols e) (symbol_switch_key (cd_symbol c)) then s
      else snd (process_symbol e c s))"

section \<open>What ticks and closes keep\<close>

text \<open>Whatever is not an opening keeps the grids with their symbols and parameters, and lets none become active.\<close>

definition kept :: "grid \<Rightarrow> grid \<Rightarrow> bool" where
  "kept g h \<longleftrightarrow> g_id h = g_id g \<and> g_symbol h = g_symbol g \<and> g_parameters h = g_parameters g \<and>
     g_strategy h = g_strategy g \<and> (grid_active h \<longrightarrow> grid_active g)"

definition shrinks :: "grid_controller \<Rightarrow> grid_controller \<Rightarrow> bool" where
  "shrinks c d \<longleftrightarrow> gc_limits d = gc_limits c \<and> map fst (gc_grids d) = map fst (gc_grids c) \<and>
     list_all2 kept (dict_values (gc_grids c)) (dict_values (gc_grids d))"

lemma kept_refl [simp]: "kept g g" by (simp add: kept_def)

lemma kept_trans: "kept a b \<Longrightarrow> kept b c \<Longrightarrow> kept a c" by (auto simp: kept_def)

lemma shrinks_refl [simp]: "shrinks c c" by (simp add: shrinks_def list.rel_refl)

lemma shrinks_trans: "shrinks a b \<Longrightarrow> shrinks b c \<Longrightarrow> shrinks a c"
  unfolding shrinks_def using list_all2_trans [of kept kept kept, OF kept_trans] by auto

lemma shrinks_same: "gc_grids d = gc_grids c \<Longrightarrow> gc_limits d = gc_limits c \<Longrightarrow> shrinks c d"
  by (simp add: shrinks_def list.rel_refl)

lemma update_kept:
  assumes "map_of d i = Some g" and "kept g h"
  shows "map fst (AList.update i h d) = map fst d \<and> list_all2 kept (dict_values d) (dict_values (AList.update i h d))"
  using assms by (induction d) (auto simp: dict_values_def list.rel_refl)

lemma shrinks_put:
  assumes "map_of (gc_grids c) (g_id h) = Some g" and "kept g h" and "gc_grids d = gc_grids c" and "gc_limits d = gc_limits c"
  shows "shrinks c (put_grid h d)" "shrinks c (persist_grid h (put_grid h d))"
  using update_kept [OF assms(1,2)] assms(3,4) by (simp_all add: shrinks_def)

definition in_place :: "grid \<times> grid_controller \<Rightarrow> grid \<times> grid_controller \<Rightarrow> bool" where
  "in_place gc gc' \<longleftrightarrow> (case gc of (g, c) \<Rightarrow> case gc' of (h, d) \<Rightarrow>
     gc_grids d = gc_grids c \<and> gc_limits d = gc_limits c \<and> g_id h = g_id g \<and> g_symbol h = g_symbol g \<and>
     g_parameters h = g_parameters g \<and> g_strategy h = g_strategy g \<and> g_status h = g_status g)"

lemma in_place_refl [simp]: "in_place gc gc" by (simp add: in_place_def split: prod.split)

lemma in_place_trans: "in_place a b \<Longrightarrow> in_place b c \<Longrightarrow> in_place a c"
  by (auto simp: in_place_def split: prod.splits)

lemma fill_level_in_place:
  assumes "fill_level e p b ft l gc = (x, gc')"
  shows "in_place gc gc'"
proof -
  obtain g c h d where gc: "gc = (g, c)" "gc' = (h, d)" by (metis surj_pair)
  from assms have "fill_level e p b ft l (g, c) = (x, h, d)" by (simp add: gc)
  then show ?thesis
    by (cases rule: fill_level_cases) (auto simp: in_place_def gc book_level_def Let_def)
qed

lemma tick_cell_in_place: "tick_cell e prev price b cell gc = (x, gc') \<Longrightarrow> in_place gc gc'"
  by (auto simp: tick_cell_def Let_def simp del: dec_order split: prod.splits option.splits if_splits
      dest: fill_level_in_place)

lemma tick_cells_in_place: "tick_cells e prev price b cells gc = (x, gc') \<Longrightarrow> in_place gc gc'"
proof (induction cells arbitrary: gc)
  case (Cons cell cells)
  obtain y gc1 where t: "tick_cell e prev price b cell gc = (y, gc1)" by (cases "tick_cell e prev price b cell gc") auto
  from tick_cell_in_place [OF t] Cons.IH [of gc1] Cons.prems t show ?case
    by (cases y) (auto dest: in_place_trans)
qed simp

lemma close_levels_in_place: "close_levels e price ft is gc = (x, gc') \<Longrightarrow> in_place gc gc'"
proof (induction "is" arbitrary: gc)
  case (Cons i "is")
  show ?case
  proof (cases "\<exists>l. find_level (fst gc) i = Some l \<and> gl_filled l")
    case True
    then obtain l where l: "find_level (fst gc) i = Some l" "gl_filled l" by blast
    obtain y gc1 where f: "fill_level e price False ft l gc = (y, gc1)"
      by (cases "fill_level e price False ft l gc") auto
    from fill_level_in_place [OF f] Cons.IH [of gc1] Cons.prems l f show ?thesis
      by (cases y) (auto dest: in_place_trans)
  next
    case False
    with Cons show ?thesis by (auto split: option.splits)
  qed
qed simp

definition ids_ok :: "grid_controller \<Rightarrow> bool" where
  "ids_ok c \<longleftrightarrow> (\<forall>i g. map_of (gc_grids c) i = Some g \<longrightarrow> g_id g = i)"

lemma ids_okD: "ids_ok c \<Longrightarrow> map_of (gc_grids c) i = Some g \<Longrightarrow> g_id g = i"
  by (simp add: ids_ok_def)

lemma tick_shrinks:
  assumes ids: "ids_ok c" and "on_price_tick e i price c = (x, d)"
  shows "shrinks c d"
proof (cases "map_of (gc_grids c) i")
  case None
  with assms(2) show ?thesis by (simp add: on_price_tick_def)
next
  case (Some g)
  let ?prev = "case last_price g of Some p \<Rightarrow> p | None \<Rightarrow> price"
  obtain y h c1 where t: "tick_cells e ?prev price (symbol_blocked c (g_symbol g)) (cells_of g) (g, c) = (y, h, c1)"
    by (cases "tick_cells e ?prev price (symbol_blocked c (g_symbol g)) (cells_of g) (g, c)") auto
  from tick_cells_in_place [OF t] ids_okD [OF ids Some] have f: "gc_grids c1 = gc_grids c" "gc_limits c1 = gc_limits c"
    "g_id h = i" "kept g h" "kept g (update_mark_to_market price (h\<lparr>last_price := Some price\<rparr>))"
    by (auto simp: in_place_def kept_def grid_active_def)
  have "shrinks c (put_grid h c1)"
    by (rule shrinks_put) (use f Some in simp_all)
  moreover have "shrinks c (persist_grid (update_mark_to_market price (h\<lparr>last_price := Some price\<rparr>))
      (put_grid (update_mark_to_market price (h\<lparr>last_price := Some price\<rparr>)) c1))"
    by (rule shrinks_put) (use f Some in simp_all)
  ultimately show ?thesis using assms(2) Some t
    by (auto simp: on_price_tick_def tick_grid_def Let_def split: if_splits option.splits)
qed

lemma close_shrinks:
  assumes ids: "ids_ok c" and "close_grid e i why price force c = (x, d)"
  shows "shrinks c d"
proof (cases "map_of (gc_grids c) i")
  case None
  with assms(2) show ?thesis by (simp add: close_grid_def)
next
  case (Some g)
  let ?ft = "if force then ''force_exit'' else ''level_cross''" and ?g = "g\<lparr>g_status := GRID_CLOSING\<rparr>"
  obtain y h c1 where t: "close_levels e price ?ft (map gl_index (g_levels g)) (?g, c) = (y, h, c1)"
    by (cases "close_levels e price ?ft (map gl_index (g_levels g)) (?g, c)") auto
  let ?h = "update_mark_to_market price (h\<lparr>g_status := GRID_CLOSED, g_closed_at := Some (ge_now e), g_close_reason := Some why\<rparr>)"
  from close_levels_in_place [OF t] ids_okD [OF ids Some] have f: "gc_grids c1 = gc_grids c" "gc_limits c1 = gc_limits c"
    "g_id h = i" "kept g h" "kept g ?h"
    by (auto simp: in_place_def kept_def grid_active_def)
  have "shrinks c (put_grid h c1)" by (rule shrinks_put) (use f Some in simp_all)
  moreover have "shrinks c (persist_grid ?h (put_grid ?h c1))" by (rule shrinks_put) (use f Some in simp_all)
  ultimately show ?thesis using assms(2) Some t
    by (auto simp: close_grid_def close_active_def Let_def split: if_splits option.splits)
qed

lemma close_grid_ends:
  assumes "ids_ok c" and "map_of (gc_grids c) i = Some g" and "close_grid e i why price force c = (x, d)"
  shows "\<exists>h. map_of (gc_grids d) i = Some h \<and> \<not> grid_active h"
proof (cases "grid_active g")
  case False
  with assms(2,3) show ?thesis by (simp add: close_grid_def)
next
  case True
  let ?ft = "if force then ''force_exit'' else ''level_cross''" and ?g = "g\<lparr>g_status := GRID_CLOSING\<rparr>"
  obtain y h c1 where t: "close_levels e price ?ft (map gl_index (g_levels g)) (?g, c) = (y, h, c1)"
    by (cases "close_levels e price ?ft (map gl_index (g_levels g)) (?g, c)") auto
  from close_levels_in_place [OF t] ids_okD [OF assms(1,2)] have f: "gc_grids c1 = gc_grids c" "g_id h = i" "\<not> grid_active h"
    by (auto simp: in_place_def grid_active_def)
  then show ?thesis using assms(2,3) t True
    by (cases y) (auto simp: close_grid_def close_active_def Let_def update_conv grid_active_def)
qed

lemma kept_lookup:
  "map fst d' = map fst d \<Longrightarrow> list_all2 kept (dict_values d) (dict_values d') \<Longrightarrow> map_of d' i = Some h \<Longrightarrow>
   \<exists>g. map_of d i = Some g \<and> kept g h"
proof (induction d arbitrary: d')
  case (Cons a d)
  then show ?case by (cases d') (auto simp: dict_values_def split: if_splits)
qed simp

lemma shrinks_lookup:
  "shrinks c d \<Longrightarrow> map_of (gc_grids d) i = Some h \<Longrightarrow> \<exists>g. map_of (gc_grids c) i = Some g \<and> kept g h"
  using kept_lookup [of "gc_grids d" "gc_grids c"] by (simp add: shrinks_def)

lemma shrinks_ids: "shrinks c d \<Longrightarrow> ids_ok c \<Longrightarrow> ids_ok d"
  using shrinks_lookup [of c d] by (fastforce simp: ids_ok_def kept_def)

lemma close_grids_shrink:
  "ids_ok c \<Longrightarrow> close_grids e sk why is c = (x, d) \<Longrightarrow> shrinks c d"
proof (induction "is" arbitrary: c)
  case (Cons i "is")
  show ?case
  proof (cases "\<exists>g price. map_of (gc_grids c) i = Some g \<and> grid_active g \<and> symbol_switch_key (g_symbol g) = sk \<and> last_price g = Some price")
    case True
    then obtain g price where g: "map_of (gc_grids c) i = Some g" "grid_active g" "symbol_switch_key (g_symbol g) = sk"
      "last_price g = Some price" by blast
    obtain y c1 where f: "close_grid (e i) i (''symbol_kill_switch:'' @ why) price True c = (y, c1)"
      by (cases "close_grid (e i) i (''symbol_kill_switch:'' @ why) price True c") auto
    have s: "shrinks c c1" by (rule close_shrinks [OF Cons.prems(1) f])
    from Cons.IH [OF shrinks_ids [OF s Cons.prems(1)]] Cons.prems(2) g f s show ?thesis
      by (cases y) (auto dest: shrinks_trans)
  next
    case False
    with Cons show ?thesis by (auto split: option.splits if_splits)
  qed
qed simp

lemma monitor_one_shrinks:
  assumes "ids_ok c" and "monitor_one e prices fundings vols g c = (x, d)"
  shows "shrinks c d"
  using assms tick_shrinks [of c] close_shrinks [of c]
  by (auto simp: monitor_one_def Let_def split: if_splits option.splits sum.splits list.splits)

lemma monitor_grids_shrink:
  "ids_ok c \<Longrightarrow> monitor_grids e prices fundings vols is c = (x, d) \<Longrightarrow> shrinks c d"
proof (induction "is" arbitrary: c)
  case (Cons i "is")
  show ?case
  proof (cases "map_of (gc_grids c) i")
    case (Some g)
    obtain y c1 where f: "monitor_one (e i) prices fundings vols g c = (y, c1)"
      by (cases "monitor_one (e i) prices fundings vols g c") auto
    have s: "shrinks c c1" by (rule monitor_one_shrinks [OF Cons.prems(1) f])
    from Cons.IH [OF shrinks_ids [OF s Cons.prems(1)]] Cons.prems(2) Some f s show ?thesis
      by (cases y) (auto dest: shrinks_trans)
  qed (use Cons in simp)
qed simp

section \<open>The grids a scheduler runs\<close>

inductive sched_reach :: "grid_scheduler \<Rightarrow> grid_scheduler \<Rightarrow> bool" for s0 where
  start: "sched_reach s0 s0"
| on_candle: "sched_reach s0 s \<Longrightarrow> map_of (gc_grids (gs_controller s)) (ge_grid_id (sv_grid e)) = None \<Longrightarrow>
    sched_reach s0 (on_candle e c s)"
| monitored: "sched_reach s0 s \<Longrightarrow> monitor_grids es prices fundings vols is (gs_controller s) = (x, d) \<Longrightarrow>
    sched_reach s0 (s\<lparr>gs_controller := d\<rparr>)"
| closed: "sched_reach s0 s \<Longrightarrow> close_grid ge i why price force (gs_controller s) = (x, d) \<Longrightarrow>
    sched_reach s0 (s\<lparr>gs_controller := d\<rparr>)"
| switched: "sched_reach s0 s \<Longrightarrow> close_all_grids_for_symbol es sk why (gs_controller s) = (x, d) \<Longrightarrow>
    sched_reach s0 (s\<lparr>gs_controller := d\<rparr>)"

text \<open>What the running grids bind, and how many there are of a symbol.\<close>

definition book_ok :: "grid_controller \<Rightarrow> bool" where
  "book_ok c \<longleftrightarrow> ids_ok c \<and> (\<forall>g \<in> set (active_grids c). notional_ok g) \<and>
     distinct (map grid_symbol_key (active_grids c)) \<and> int (length (active_grids c)) \<le> max_open_grids (gc_limits c) \<and>
     (\<exists>t. sum_notionals 0 (active_grids c) = Inr t \<and> t \<le> max_grid_exposure_usd (gc_limits c))"

lemma kept_notional: "kept g h \<Longrightarrow> bound_notional h = bound_notional g \<and> grid_symbol_key h = grid_symbol_key g"
  by (simp add: kept_def bound_notional_def grid_symbol_key_def)

lemma kept_sums:
  "list_all2 kept xs ys \<Longrightarrow> \<forall>g \<in> set (filter grid_active xs). notional_ok g \<Longrightarrow> is_dec a \<Longrightarrow>
   sum_notionals a (filter grid_active xs) = Inr t \<Longrightarrow>
   (\<forall>g \<in> set (filter grid_active ys). notional_ok g) \<and> length (filter grid_active ys) \<le> length (filter grid_active xs) \<and>
   grid_symbol_key ` set (filter grid_active ys) \<subseteq> grid_symbol_key ` set (filter grid_active xs) \<and>
   (distinct (map grid_symbol_key (filter grid_active xs)) \<longrightarrow> distinct (map grid_symbol_key (filter grid_active ys))) \<and>
   (\<exists>s. sum_notionals a (filter grid_active ys) = Inr s \<and> dval s \<le> dval t)"
proof (induction xs ys arbitrary: a t rule: list_all2_induct)
  case (Cons g xs h ys)
  note kn = kept_notional [OF Cons.hyps(1)]
  show ?case
  proof (cases "grid_active g")
    case False
    with Cons have "\<not> grid_active h" by (auto simp: kept_def)
    with False Cons show ?thesis by simp
  next
    case True
    with Cons.prems obtain n where n: "bound_notional g = Inr n" "0 \<le> dval n" by (auto simp: notional_ok_def)
    have ok: "\<forall>g \<in> set (filter grid_active xs). notional_ok g" using Cons.prems True by simp
    from Cons.prems(3) True n have t: "sum_notionals (a + n) (filter grid_active xs) = Inr t" by simp
    show ?thesis
    proof (cases "grid_active h")
      case h: True
      from Cons.IH [OF ok is_dec_op(1) t] True h n kn show ?thesis by (auto simp: notional_ok_def)
    next
      case False
      have "dval a \<le> dval (a + n)" by (rule dec_add_ge [OF Cons.prems(2) n(2)])
      from sum_notionals_mono [OF ok this] t obtain s where s: "sum_notionals a (filter grid_active xs) = Inr s" "dval s \<le> dval t"
        by auto
      from Cons.IH [OF ok Cons.prems(2) s(1)] s(2) True False show ?thesis by auto
    qed
  qed
qed simp

lemma shrinks_book:
  assumes "shrinks c d" and "book_ok c"
  shows "book_ok d"
proof -
  from assms(2) obtain t where t: "sum_notionals 0 (active_grids c) = Inr t" "t \<le> max_grid_exposure_usd (gc_limits c)"
    by (auto simp: book_ok_def)
  have k: "list_all2 kept (dict_values (gc_grids c)) (dict_values (gc_grids d))" using assms(1) by (simp add: shrinks_def)
  have n: "\<forall>g \<in> set (active_grids c). notional_ok g" using assms(2) by (simp add: book_ok_def)
  from kept_sums [OF k n [unfolded active_grids_def] _ t(1) [unfolded active_grids_def], folded active_grids_def] obtain s where
    s: "\<forall>g \<in> set (active_grids d). notional_ok g" "length (active_grids d) \<le> length (active_grids c)"
    "distinct (map grid_symbol_key (active_grids c)) \<longrightarrow> distinct (map grid_symbol_key (active_grids d))"
    "sum_notionals 0 (active_grids d) = Inr s" "dval s \<le> dval t"
    by auto
  have "distinct (map grid_symbol_key (active_grids d))"
    using s(3) assms(2) by (auto simp: book_ok_def)
  moreover have "ids_ok d" using shrinks_ids [OF assms(1)] assms(2) by (simp add: book_ok_def)
  moreover have l: "gc_limits d = gc_limits c" using assms(1) by (simp add: shrinks_def)
  moreover have "int (length (active_grids d)) \<le> max_open_grids (gc_limits d)"
    using s(2) assms(2) l by (simp add: book_ok_def)
  moreover have "s \<le> max_grid_exposure_usd (gc_limits d)" using s(5) t(2) l by simp
  ultimately show ?thesis using s(1,4) by (simp add: book_ok_def)
qed

section \<open>Openings\<close>

lemma open_grid_frame:
  assumes "open_grid e d s name a snap price m c = Inr (Inr g, c1)" and "map_of (gc_grids c) (ge_grid_id e) = None"
  obtains p where "gd_params d = Some p" "evaluate_new_grid (ge_pow e) (gc_limits c) p snap price m = None"
    "g_id g = ge_grid_id e" "g_symbol g = s" "g_strategy g = name" "g_parameters g = parameter_dict p" "grid_active g"
    "gc_grids c1 = gc_grids c @ [(ge_grid_id e, g)]" "gc_limits c1 = gc_limits c"
proof -
  from assms(1) obtain p where p: "gd_params d = Some p" by (auto simp: open_grid_def split: option.splits)
  have "g_symbol g = s" "g_strategy g = name"
    using assms(1) p by (auto simp: open_grid_def build_grid_state_def bind_result_Inr Let_def split: if_splits option.splits)
  with open_grid_opened [OF assms(1) p] p assms(2) show thesis
    by (intro that [of p]) (auto simp: grid_active_def update_new_key)
qed

lemma refused_same: "open_grid e d s name a snap price m c = Inr (Inl why, c1) \<Longrightarrow> c1 = c"
  by (auto simp: open_grid_def Let_def bind_result_Inr split: if_splits option.splits)

text \<open>How a candle ends: nothing of the grids changed, the running grid of the symbol was ticked, or one grid opened.\<close>

definition opened_by :: "sched_env \<Rightarrow> candle \<Rightarrow> grid_scheduler \<Rightarrow> grid_scheduler \<Rightarrow> bool" where
  "opened_by e c s t \<longleftrightarrow> (\<exists>g ctx d a gr c1. running_grid (symbol_switch_key (cd_symbol c)) (gs_controller s) = None \<and>
     open_key (symbol_switch_key (cd_symbol c)) g \<notin> set (gs_open_keys s) \<and> evaluate_grid g ctx = Inr d \<and>
     open_grid (sv_grid e) d (cd_symbol c) (grid_strategy_name g) a
       (portfolio_snapshot (sv_portfolio e) (gs_controller s)) (cd_close c)
       \<lparr>gm_liquidity = None, gm_funding = None, gm_volatility = None,
        gm_directional = directional_exposure (sv_portfolio e)\<rparr> (gs_controller s) = Inr (Inr gr, c1) \<and>
     t = s\<lparr>gs_controller := c1,
       gs_open_keys := List.insert (open_key (symbol_switch_key (cd_symbol c)) g) (gs_open_keys s)\<rparr>)"

lemma attempt_open_cases:
  assumes "attempt_open e c g d s = (x, t)"
  shows "t = s \<or> (\<exists>a gr c1. open_grid (sv_grid e) d (cd_symbol c) (grid_strategy_name g) a
       (portfolio_snapshot (sv_portfolio e) (gs_controller s)) (cd_close c)
       \<lparr>gm_liquidity = None, gm_funding = None, gm_volatility = None,
        gm_directional = directional_exposure (sv_portfolio e)\<rparr> (gs_controller s) = Inr (Inr gr, c1) \<and>
     t = s\<lparr>gs_controller := c1,
       gs_open_keys := List.insert (open_key (symbol_switch_key (cd_symbol c)) g) (gs_open_keys s)\<rparr>)"
  using assms by (auto simp: attempt_open_def simp del: List.insert_def split: sum.splits option.splits prod.splits dest!: refused_same)

lemma try_strategies_cases:
  "try_strategies e c ctx gs s = (x, t) \<Longrightarrow> running_grid (symbol_switch_key (cd_symbol c)) (gs_controller s) = None \<Longrightarrow>
   t = s \<or> opened_by e c s t"
proof (induction gs)
  case (Cons g gs)
  show ?case
  proof (cases "open_key (symbol_switch_key (cd_symbol c)) g \<in> set (gs_open_keys s)")
    case True
    with Cons show ?thesis by simp
  next
    case new: False
    show ?thesis
    proof (cases "evaluate_grid g ctx")
      case (Inl y)
      with new Cons.prems show ?thesis by simp
    next
      case (Inr d)
      show ?thesis
      proof (cases "gd_direction d = GRID_NEUTRAL \<or> gd_params d = None")
        case True
        with new Inr Cons show ?thesis by simp
      next
        case False
        with new Inr Cons.prems(1) have "attempt_open e c g d s = (x, t)" by simp
        from attempt_open_cases [OF this] show ?thesis
        proof
          assume "\<exists>a gr c1. open_grid (sv_grid e) d (cd_symbol c) (grid_strategy_name g) a
             (portfolio_snapshot (sv_portfolio e) (gs_controller s)) (cd_close c)
             \<lparr>gm_liquidity = None, gm_funding = None, gm_volatility = None,
              gm_directional = directional_exposure (sv_portfolio e)\<rparr> (gs_controller s) = Inr (Inr gr, c1) \<and>
           t = s\<lparr>gs_controller := c1,
             gs_open_keys := List.insert (open_key (symbol_switch_key (cd_symbol c)) g) (gs_open_keys s)\<rparr>"
          with new Inr Cons.prems(2) have "opened_by e c s t" unfolding opened_by_def by blast
          then show ?thesis ..
        qed simp
      qed
    qed
  qed
qed simp

lemma on_candle_cases:
  assumes "ids_ok (gs_controller s)"
  shows "shrinks (gs_controller s) (gs_controller (on_candle e c s)) \<and> gs_open_keys (on_candle e c s) = gs_open_keys s \<or>
    opened_by e c s (on_candle e c s)"
proof (cases "gs_enabled s \<and> symbol_active (sv_symbols e) (symbol_switch_key (cd_symbol c))")
  case False
  then show ?thesis by (auto simp: on_candle_def)
next
  case True
  let ?sk = "symbol_switch_key (cd_symbol c)"
  obtain x t where p: "process_symbol e c s = (x, t)" by fastforce
  with True have t: "on_candle e c s = t" by (simp add: on_candle_def)
  show ?thesis
  proof (cases "running_grid ?sk (gs_controller s)")
    case (Some g)
    obtain y c1 where y: "on_price_tick (sv_grid e) (g_id g) (cd_close c) (gs_controller s) = (y, c1)" by fastforce
    with p Some t have "on_candle e c s = s\<lparr>gs_controller := c1\<rparr>" by (simp add: process_symbol_def Let_def)
    with tick_shrinks [OF assms y] show ?thesis by simp
  next
    case None
    have "t = s \<or> (\<exists>ctx. try_strategies e c ctx (get_active_grid_strategies (sv_registry e)) s = (x, t))"
    proof (cases "get_active_grid_strategies (sv_registry e) = []")
      case True
      with p None show ?thesis by (simp add: process_symbol_def Let_def)
    next
      case some: False
      let ?f = "get_latest (sv_decode e) (ge_now (sv_grid e)) ?sk (cd_timeframe c) (sv_store e)"
      let ?r = "get_latest_regime (ge_now (sv_grid e)) ?sk (cd_timeframe c) (sv_store e)"
      show ?thesis
      proof (cases "\<exists>f r. ?f = Inr (Some f) \<and> ?r = Inr r")
        case True
        then obtain f r where "?f = Inr (Some f)" "?r = Inr r" by blast
        with p None some show ?thesis by (simp add: process_symbol_def Let_def) blast
      next
        case False
        with p None some show ?thesis
          by (cases ?f; cases ?r) (auto simp: process_symbol_def Let_def split: option.splits)
      qed
    qed
    then have "t = s \<or> opened_by e c s t" using try_strategies_cases [OF _ None] by blast
    with t show ?thesis by auto
  qed
qed

lemma evaluated_params: "evaluate_grid g c = Inr d \<Longrightarrow> gd_params d = Some p \<Longrightarrow> position_size p = Dec 20 \<and> grid_count p = 10"
proof -
  assume d: "evaluate_grid g c = Inr d" "gd_params d = Some p"
  define m where "m = decide_direction g (compute_grid_suitability (primary c))"
  have "build_parameters (primary c) m = Inr (Some p)"
  proof (cases "build_parameters (primary c) m")
    case (Inr q)
    with d show ?thesis
      by (cases q) (auto simp: evaluate_grid_def m_def [symmetric] Let_def split: if_splits)
  qed (use d in \<open>auto simp: evaluate_grid_def m_def [symmetric] Let_def split: if_splits\<close>)
  from build_parameters_ok [OF this] show ?thesis by simp
qed

lemma opened_book:
  assumes "opened_by e c s t" and "map_of (gc_grids (gs_controller s)) (ge_grid_id (sv_grid e)) = None"
    and "book_ok (gs_controller s)"
  shows "book_ok (gs_controller t)"
proof -
  let ?c = "gs_controller s"
  from assms(1) obtain g ctx d a gr c1 where o: "running_grid (symbol_switch_key (cd_symbol c)) ?c = None"
    "evaluate_grid g ctx = Inr d" "gs_controller t = c1"
    "open_grid (sv_grid e) d (cd_symbol c) (grid_strategy_name g) a (portfolio_snapshot (sv_portfolio e) ?c) (cd_close c)
       \<lparr>gm_liquidity = None, gm_funding = None, gm_volatility = None,
        gm_directional = directional_exposure (sv_portfolio e)\<rparr> ?c = Inr (Inr gr, c1)"
    unfolding opened_by_def by auto
  from open_grid_frame [OF o(4) assms(2)] obtain p where p: "gd_params d = Some p"
    "evaluate_new_grid (ge_pow (sv_grid e)) (gc_limits ?c) p (portfolio_snapshot (sv_portfolio e) ?c) (cd_close c)
       \<lparr>gm_liquidity = None, gm_funding = None, gm_volatility = None,
        gm_directional = directional_exposure (sv_portfolio e)\<rparr> = None"
    "g_id gr = ge_grid_id (sv_grid e)" "g_symbol gr = cd_symbol c" "g_parameters gr = parameter_dict p" "grid_active gr"
    "gc_grids c1 = gc_grids ?c @ [(ge_grid_id (sv_grid e), gr)]" "gc_limits c1 = gc_limits ?c" by metis
  have act: "active_grids c1 = active_grids ?c @ [gr]" by (simp add: active_grids_def dict_values_def p)
  have snap: "active_grids_of (open_grids (portfolio_snapshot (sv_portfolio e) ?c)) = active_grids ?c"
    by (simp add: active_grids_of_def portfolio_snapshot_def active_grids_def)
  note lim = approval_limits [OF p(2), unfolded snap]
  have n: "bound_notional gr = Inr (grid_notional p)" by (rule bound_notional_built [OF p(5)])
  have "0 \<le> dval (grid_notional p)" using evaluated_params [OF o(2) p(1)] by (simp add: grid_notional_def dec.rnd_nonneg)
  with n have ok: "notional_ok gr" by (simp add: notional_ok_def)
  have key: "grid_symbol_key gr \<notin> set (map grid_symbol_key (active_grids ?c))"
    using o(1) p(4) by (auto simp: running_grid_def find_None_iff grid_symbol_key_def)
  from lim(5) obtain t0 where t0: "sum_notionals 0 (active_grids ?c) = Inr t0" "t0 + grid_notional p \<le> max_grid_exposure_usd (gc_limits ?c)"
    by blast
  have "sum_notionals 0 (active_grids c1) = Inr (t0 + grid_notional p)"
    using t0(1) n by (simp add: act sum_notionals_append)
  moreover have "ids_ok c1" using assms(2,3) p(3) by (auto simp: ids_ok_def book_ok_def p(7) map_add_def split: option.splits if_splits)
  ultimately show ?thesis using assms(3) ok key lim(1) t0(2) by (simp add: book_ok_def act o(3) p(8) del: dec_order)
qed

lemma reach_book:
  assumes "sched_reach s0 s" and "book_ok (gs_controller s0)"
  shows "book_ok (gs_controller s)"
  using assms
proof induction
  case (on_candle s e c)
  then have b: "book_ok (gs_controller s)" by simp
  then have "ids_ok (gs_controller s)" by (simp add: book_ok_def)
  from on_candle_cases [OF this, of e c] opened_book [OF _ on_candle.hyps(2) b] shrinks_book [OF _ b] show ?case by blast
next
  case (monitored s es prices fundings vols "is" x d)
  then have b: "book_ok (gs_controller s)" by simp
  then have "ids_ok (gs_controller s)" by (simp add: book_ok_def)
  from shrinks_book [OF monitor_grids_shrink [OF this monitored.hyps(2)] b] show ?case by simp
next
  case (closed s ge i why price force x d)
  then have b: "book_ok (gs_controller s)" by simp
  then have "ids_ok (gs_controller s)" by (simp add: book_ok_def)
  from shrinks_book [OF close_shrinks [OF this closed.hyps(2)] b] show ?case by simp
next
  case (switched s es sk why x d)
  then have b: "book_ok (gs_controller s)" by simp
  then have "ids_ok (gs_controller s)" by (simp add: book_ok_def)
  from shrinks_book [OF close_grids_shrink [OF this switched.hyps(2) [unfolded close_all_grids_for_symbol_def]] b]
  show ?case by simp
qed

text \<open>
  C4. The grids a scheduler runs stay within the limits of the grid risk engine. From an empty controller on, after any
  candles, monitoring runs, closes and switched-off symbols in any order, there are at most \<open>max_open_grids\<close> active
  grids, at most one for each symbol, and what they bind in total is at most \<open>max_grid_exposure_usd\<close>.
\<close>

theorem scheduled_grids_within_limits:
  assumes "sched_reach s0 s" and "gc_grids (gs_controller s0) = []"
    and "0 \<le> max_open_grids (gc_limits (gs_controller s0))" and "0 \<le> max_grid_exposure_usd (gc_limits (gs_controller s0))"
  shows "int (length (active_grids (gs_controller s))) \<le> max_open_grids (gc_limits (gs_controller s)) \<and>
    distinct (map grid_symbol_key (active_grids (gs_controller s))) \<and>
    (\<exists>t. sum_notionals 0 (active_grids (gs_controller s)) = Inr t \<and>
         t \<le> max_grid_exposure_usd (gc_limits (gs_controller s)))"
proof -
  have "book_ok (gs_controller s0)" using assms(2-4) by (simp add: book_ok_def active_grids_def ids_ok_def dict_values_def)
  from reach_book [OF assms(1) this] show ?thesis by (simp add: book_ok_def)
qed

text \<open>Every grid is marked with its symbol and strategy, and no two grids, running or ended, share both.\<close>

definition pair_key :: "grid \<Rightarrow> string" where
  "pair_key g = grid_symbol_key g @ '':'' @ g_strategy g"

definition once_ok :: "grid_scheduler \<Rightarrow> bool" where
  "once_ok s \<longleftrightarrow> ids_ok (gs_controller s) \<and>
     (\<forall>i g. map_of (gc_grids (gs_controller s)) i = Some g \<longrightarrow> pair_key g \<in> set (gs_open_keys s)) \<and>
     (\<forall>i j g h. map_of (gc_grids (gs_controller s)) i = Some g \<longrightarrow> map_of (gc_grids (gs_controller s)) j = Some h \<longrightarrow>
        pair_key g = pair_key h \<longrightarrow> i = j)"

lemma kept_pair: "kept g h \<Longrightarrow> pair_key h = pair_key g"
  by (simp add: kept_def pair_key_def grid_symbol_key_def)

lemma shrinks_once:
  assumes "shrinks (gs_controller s) (gs_controller t)" and "gs_open_keys t = gs_open_keys s" and "once_ok s"
  shows "once_ok t"
proof -
  let ?G = "gc_grids (gs_controller s)" and ?H = "gc_grids (gs_controller t)"
  have ids: "ids_ok (gs_controller s)" and mark: "\<And>i g. map_of ?G i = Some g \<Longrightarrow> pair_key g \<in> set (gs_open_keys s)"
    and one: "\<And>i j g h. map_of ?G i = Some g \<Longrightarrow> map_of ?G j = Some h \<Longrightarrow> pair_key g = pair_key h \<Longrightarrow> i = j"
    using assms(3) by (auto simp: once_ok_def)
  have look: "\<exists>g. map_of ?G i = Some g \<and> pair_key h = pair_key g" if "map_of ?H i = Some h" for i h
    using shrinks_lookup [OF assms(1) that] kept_pair by blast
  have "pair_key h \<in> set (gs_open_keys t)" if "map_of ?H i = Some h" for i h
    using look [OF that] mark assms(2) by auto
  moreover have "i = j" if "map_of ?H i = Some h" "map_of ?H j = Some k" "pair_key h = pair_key k" for i j h k
    using look [OF that(1)] look [OF that(2)] one that(3) by metis
  ultimately show ?thesis unfolding once_ok_def using shrinks_ids [OF assms(1) ids] by blast
qed

lemma opened_once:
  assumes "opened_by e c s t" and "map_of (gc_grids (gs_controller s)) (ge_grid_id (sv_grid e)) = None" and "once_ok s"
  shows "once_ok t"
proof -
  let ?G = "gc_grids (gs_controller s)" and ?n = "ge_grid_id (sv_grid e)"
  from assms(1) obtain g ctx d a gr c1 where o: "open_key (symbol_switch_key (cd_symbol c)) g \<notin> set (gs_open_keys s)"
    "open_grid (sv_grid e) d (cd_symbol c) (grid_strategy_name g) a (portfolio_snapshot (sv_portfolio e) (gs_controller s)) (cd_close c)
       \<lparr>gm_liquidity = None, gm_funding = None, gm_volatility = None,
        gm_directional = directional_exposure (sv_portfolio e)\<rparr> (gs_controller s) = Inr (Inr gr, c1)"
    "gs_controller t = c1"
    "gs_open_keys t = List.insert (open_key (symbol_switch_key (cd_symbol c)) g) (gs_open_keys s)"
    unfolding opened_by_def by auto
  from open_grid_frame [OF o(2) assms(2)] have f: "g_id gr = ?n" "g_symbol gr = cd_symbol c"
    "g_strategy gr = grid_strategy_name g" "gc_grids c1 = ?G @ [(?n, gr)]" by metis+
  have look: "map_of (gc_grids c1) i = (if i = ?n then Some gr else map_of ?G i)" for i
    using assms(2) by (simp add: f(4) map_add_def split: option.split)
  have key: "pair_key gr = open_key (symbol_switch_key (cd_symbol c)) g"
    by (simp add: pair_key_def grid_symbol_key_def open_key_def f)
  have mark: "\<And>i g. map_of ?G i = Some g \<Longrightarrow> pair_key g \<in> set (gs_open_keys s)"
    and one: "\<And>i j g h. map_of ?G i = Some g \<Longrightarrow> map_of ?G j = Some h \<Longrightarrow> pair_key g = pair_key h \<Longrightarrow> i = j"
    using assms(3) by (auto simp: once_ok_def)
  have new: "pair_key h \<noteq> pair_key gr" if "map_of ?G i = Some h" for i h
    using mark [OF that] o(1) key by auto
  have "ids_ok c1" using assms(3) f(1) by (auto simp: once_ok_def ids_ok_def look split: if_splits)
  moreover have "pair_key h \<in> set (gs_open_keys t)" if "map_of (gc_grids c1) i = Some h" for i h
    using that mark [of i h] key by (auto simp: look o(4) split: if_splits)
  moreover have "i = j" if "map_of (gc_grids c1) i = Some h" "map_of (gc_grids c1) j = Some k" "pair_key h = pair_key k" for i j h k
    using that new [of i h] new [of j k] one [of i h j k] by (auto simp: look split: if_splits)
  ultimately show ?thesis unfolding once_ok_def o(3) by blast
qed

lemma reach_once:
  assumes "sched_reach s0 s" and "once_ok s0"
  shows "once_ok s"
  using assms
proof induction
  case (on_candle s e c)
  then have o: "once_ok s" by simp
  then have "ids_ok (gs_controller s)" by (simp add: once_ok_def)
  from on_candle_cases [OF this, of e c] opened_once [OF _ on_candle.hyps(2) o] shrinks_once [OF _ _ o] show ?case by blast
next
  case (monitored s es prices fundings vols "is" x d)
  then have o: "once_ok s" by simp
  then have "ids_ok (gs_controller s)" by (simp add: once_ok_def)
  from shrinks_once [OF _ _ o] monitor_grids_shrink [OF this monitored.hyps(2)] show ?case by simp
next
  case (closed s ge i why price force x d)
  then have o: "once_ok s" by simp
  then have "ids_ok (gs_controller s)" by (simp add: once_ok_def)
  from shrinks_once [OF _ _ o] close_shrinks [OF this closed.hyps(2)] show ?case by simp
next
  case (switched s es sk why x d)
  then have o: "once_ok s" by simp
  then have "ids_ok (gs_controller s)" by (simp add: once_ok_def)
  from shrinks_once [OF _ _ o] close_grids_shrink [OF this switched.hyps(2) [unfolded close_all_grids_for_symbol_def]]
  show ?case by simp
qed

text \<open>
  C29. A strategy opens a grid on a symbol once in the life of the scheduler. Every opening adds a grid to the controller
  and none is ever taken away, and from an empty controller on, whatever candles, ticks, monitoring runs, closes and
  switched-off symbols come, no two grids of the controller, running or ended, have the same symbol and the same strategy.
\<close>

theorem strategy_opens_once:
  assumes "sched_reach s0 s" and "gc_grids (gs_controller s0) = []"
    and "map_of (gc_grids (gs_controller s)) i = Some g" and "map_of (gc_grids (gs_controller s)) j = Some h"
    and "grid_symbol_key g = grid_symbol_key h" and "g_strategy g = g_strategy h"
  shows "i = j"
proof -
  have "once_ok s0" by (simp add: once_ok_def ids_ok_def assms(2))
  from reach_once [OF assms(1) this] assms(3-6) show ?thesis unfolding once_ok_def pair_key_def by metis
qed

section \<open>Examples\<close>

text \<open>A calm market at 100 with an average range of 3: ten levels from 91 to 109.\<close>

definition sched_features :: feature_set where
  "sched_features = grid_features\<lparr>f_indicators := (f_indicators grid_features)\<lparr>atr_14 := Some (Dec 3)\<rparr>, f_regime := UNKNOWN_REGIME\<rparr>"

lemma sched_suitable: "is_suitable (compute_grid_suitability sched_features)"
proof -
  have i: "range_quality (x\<lparr>atr_14 := y\<rparr>) = range_quality x" "volatility_quality (x\<lparr>atr_14 := y\<rparr>) = volatility_quality x"
    "breakout_risk (x\<lparr>atr_14 := y\<rparr>) = breakout_risk x" for x y
    by (simp_all add: range_quality_def volatility_quality_def breakout_risk_def Let_def split: option.split)
  have "composite_score sched_features = composite_score grid_features"
    proof -
    have "f_indicators sched_features = (f_indicators grid_features)\<lparr>atr_14 := Some (Dec 3)\<rparr>"
      "liquidity_score sched_features = liquidity_score grid_features"
      "funding_cost_score sched_features = funding_cost_score grid_features"
      by (simp_all add: sched_features_def liquidity_score_def funding_cost_score_def)
    then show ?thesis by (simp only: composite_score_def i Let_def)
  qed
  with grid_features_suitable show ?thesis by (simp add: compute_grid_suitability_def Let_def)
qed

definition sched_params :: grid_params where
  "sched_params = \<lparr>lower_price = Dec 91, upper_price = Dec 109, grid_count = 10, long_or_short = GRID_LONG, gp_leverage = Dec 2,
     gp_margin_mode = ISOLATED, grid_mode = ARITHMETIC, grid_spacing = None, position_size = Dec 20,
     max_notional = Dec 20 * Dec 10, take_profit = Some (Dec 100 * (1 + Dec (3/100))),
     stop_loss = Some (Dec 100 * (1 - Dec (8/100))), maximum_holding_time = Some (60 * 60 * 24 * 3)\<rparr>"

lemma sched_build: "build_parameters sched_features GRID_LONG = Inr (Some sched_params)"
proof -
  have r: "rnd_dec 9 = 9" "rnd_dec 91 = 91" "rnd_dec 50 = 50" "rnd_dec 109 = 109"
    using rnd_dec_int [of 9] rnd_dec_int [of 91] rnd_dec_int [of 50] rnd_dec_int [of 109] by simp_all
  have v: "Dec 3 * Dec 3 = Dec 9" "Dec 100 - Dec 9 = Dec 91" "Dec 100 + Dec 9 = Dec 109" "Dec 100 * Dec (1/2) = Dec 50"
    "max (Dec 91) (Dec 50) = Dec 91"
    by (simp_all add: dec_eq_iff r)
  show ?thesis
    by (simp add: build_parameters_def sched_features_def grid_features_def demo_features_def check_grid_params_def v r Let_def
      sched_params_def)
qed

lemma sched_levels: "compute_levels fpow sched_params = Inr (map (\<lambda>i. Dec (of_int (91 + 2 * i))) [0..9])"
proof -
  have r: "rnd_dec (of_int i) = of_int i" if "0 \<le> i" "i \<le> 200" for i
    using rnd_dec_int [of i] that by simp
  have l: "raw_level fpow sched_params i = Dec (of_int (91 + 2 * i))" if "0 \<le> i" "i \<le> 9" for i
    using r [of 18] r [of 2] r [of "2 * i"] r [of "91 + 2 * i"] that
    by (simp add: raw_level_def sched_params_def Let_def dec_eq_iff)
  have q: "quantize (Dec (of_int (91 + 2 * i))) 8 ROUND_HALF_EVEN = Inr (Dec (of_int (91 + 2 * i)))" if "0 \<le> i" "i \<le> 9" for i
    using quantize_int [of "91 + 2 * i"] that by simp
  have "rounded_levels (map (raw_level fpow sched_params) xs) = Inr (map (\<lambda>i. Dec (of_int (91 + 2 * i))) xs)"
    if "set xs \<subseteq> {0..9}" for xs
    using that l q by (induction xs) simp_all
  moreover have "set [0..9] \<subseteq> {0..9::int}" by simp
  ultimately show ?thesis by (simp add: compute_levels_def sched_params_def)
qed

definition sched_env0 :: sched_env where
  "sched_env0 = \<lparr>sv_grid = demo_grid_env 3, sv_decode = (\<lambda>s. Some sched_features),
     sv_store = \<lparr>fs_connected = True, fs_up = True, fs_keys = [(''features:latest:binance:BTC/USDT:1h'', ''{}'', 100)],
       fs_published = []\<rparr>,
     sv_registry = \<lparr>strategies = [(''futures_grid_long_v1'',
       (new_strategy_entry \<lparr>strat_name = ''futures_grid_long_v1'', version = ''1.0.0'', supported_regimes = []\<rparr>)\<lparr>strat_active := True\<rparr>)],
       table = None, db_up = True\<rparr>,
     sv_account = Inr (Some demo_verified_account), sv_portfolio = None, sv_symbols = new_sks\<rparr>"

definition sched_candle :: candle where
  "sched_candle = \<lparr>cd_symbol = grid_symbol, cd_timeframe = ''1h'', cd_close = Dec 100\<rparr>"

definition demo_scheduler :: grid_scheduler where
  "demo_scheduler = new_grid_scheduler (Some True) None (Some ''t1'') demo_controller"

lemma sched_decision:
  "evaluate_grid LongGrid \<lparr>c_symbol = grid_symbol, primary = sched_features, c_regime = UNKNOWN_REGIME\<rparr> =
     Inr \<lparr>gd_direction = GRID_LONG, gd_params = Some sched_params,
          gd_confidence = composite (compute_grid_suitability sched_features)\<rparr>"
  using sched_suitable sched_build by (simp add: evaluate_grid_def Let_def)

lemma sched_approved:
  "evaluate_new_grid fpow demo_grid_limits sched_params \<lparr>open_grids = [], snap_value = Dec 0\<rparr> (Dec 100)
     \<lparr>gm_liquidity = None, gm_funding = None, gm_volatility = None, gm_directional = None\<rparr> = None"
proof -
  let ?p = sched_params
  have r: "rnd_dec 200 = 200" "rnd_dec 2 = 2" "0 \<le> rnd_dec (2/100)"
    using rnd_dec_int [of 200] rnd_dec_int [of 2] by (simp_all add: dec.rnd_nonneg)
  have p: "position_size ?p = Dec 20" "grid_count ?p = 10" "gp_leverage ?p = Dec 2" "grid_spacing ?p = None"
    by (simp_all add: sched_params_def)
  have "[0..9::int] = 0 # 1 # [2..9]" by (simp add: upto.simps)
  then have sp: "effective_grid_spacing fpow ?p = Inr (Dec 2)"
    using r(2) by (simp add: effective_grid_spacing_def p sched_levels dec_eq_iff)
  have n: "grid_notional ?p = Dec 200" using r by (simp add: grid_notional_def p dec_eq_iff)
  have "1 / Dec 2 = Dec (1/2)" using rnd_dec_exact [of 1 "1/2"] by (simp add: dec_eq_iff on_grid_def)
  moreover have "float_of (Dec (1/2)) = Flt (1/2)"
    using rnd_flt_dyadic [of "1/2" 1 "- 1"] by (simp add: float_of_def flt_eq_iff bpow_def)
  ultimately have fl: "float_of (1 / Dec 2) = Flt (1/2)" by simp
  have mk: "check_market fpow demo_grid_limits ?p (Dec 100)
     \<lparr>gm_liquidity = None, gm_funding = None, gm_volatility = None, gm_directional = None\<rparr> = Inr None"
    using r(3) by (simp add: fl check_market_def funding_too_high_def volatility_too_high_def check_cost_guard_def p sp
      demo_grid_limits_def Let_def dec_of_float_def)
  show ?thesis
    using r(1) mk by (simp add: evaluate_new_grid_def evaluate_grid_internal_def active_grids_of_def n p
      check_combined_def exposure_limit_def Let_def demo_grid_limits_def)
qed

lemma sched_opens:
  "\<exists>g c1. gs_controller (on_candle sched_env0 sched_candle demo_scheduler) = c1 \<and> gc_grids c1 = [(7, g)] \<and> grid_active g \<and>
     grid_symbol_key g = ''binance:BTC/USDT'' \<and> g_strategy g = ''futures_grid_long_v1'' \<and>
     gs_open_keys (on_candle sched_env0 sched_candle demo_scheduler) = [open_key ''binance:BTC/USDT'' LongGrid] \<and>
     gc_exec c1 = demo_engine \<and> gc_mode c1 = PAPER \<and> g_mode g = PAPER \<and> g_id g = 7"
proof -
  let ?c = demo_controller
  have key: "symbol_switch_key grid_symbol = ''binance:BTC/USDT''" by (simp add: symbol_switch_key_def grid_symbol_def ccxt_symbol_def)
  have c: "check_compliance demo_rules demo_verified_account BINANCE FUTURES_GRID (grid_requirement sched_params) = ELIGIBLE"
    by (simp add: compliance_eligible check_capability_def get_capability_def capabilities_def missing_features_def
       futures_capability_def demo_rules_def register_rule_def check_jurisdiction_def demo_verified_account_def check_account_def)
  then have cap: "check_capability BINANCE FUTURES_GRID (grid_requirement sched_params)" by (simp add: compliance_eligible)
  define d where "d = \<lparr>gd_direction = GRID_LONG, gd_params = Some sched_params,
     gd_confidence = composite (compute_grid_suitability sched_features)\<rparr>"
  have dd: "gd_direction d = GRID_LONG" "gd_params d = Some sched_params" by (simp_all add: d_def)
  have pf: "long_or_short sched_params = GRID_LONG" by (simp add: sched_params_def)
  have act: "active_grids ?c = []" by (simp add: active_grids_def demo_controller_def dict_values_def)
  have snap: "portfolio_snapshot None ?c = \<lparr>open_grids = [], snap_value = Dec 0\<rparr>" by (simp add: portfolio_snapshot_def act)
  have cf: "gc_limits ?c = demo_grid_limits" "gc_rules ?c = demo_rules" "gc_mode ?c = PAPER" "gc_grids ?c = []" "gc_symbols ?c = None"
    "gc_exec ?c = demo_engine" "gc_tenant ?c = Some ''t1''"
    by (simp_all add: demo_controller_def)
  obtain g where g: "open_grid (demo_grid_env 3) d grid_symbol ''futures_grid_long_v1'' demo_verified_account
      (portfolio_snapshot None ?c) (Dec 100) \<lparr>gm_liquidity = None, gm_funding = None, gm_volatility = None,
        gm_directional = None\<rparr> ?c = Inr (Inr g, persist_grid g (put_grid g ?c))"
    and gf: "g_id g = 7" "g_symbol g = grid_symbol" "g_strategy g = ''futures_grid_long_v1''" "grid_active g" "g_mode g = PAPER"
    using c cap sched_approved
    by (simp add: open_grid_def dd pf cf symbol_blocked_def account_mode_refusal_def snap Let_def build_grid_state_def
       sched_levels demo_env_fields grid_symbol_def grid_active_def)
  let ?s = "demo_scheduler\<lparr>gs_controller := persist_grid g (put_grid g ?c),
      gs_open_keys := [open_key ''binance:BTC/USDT'' LongGrid]\<rparr>"
  have sf: "gs_controller demo_scheduler = ?c" "gs_open_keys demo_scheduler = []" "gs_enabled demo_scheduler"
    by (simp_all add: demo_scheduler_def new_grid_scheduler_def)
  have st: "get_latest (sv_decode sched_env0) (ge_now (sv_grid sched_env0)) ''binance:BTC/USDT'' ''1h'' (sv_store sched_env0) =
      Inr (Some sched_features)"
    "get_latest_regime (ge_now (sv_grid sched_env0)) ''binance:BTC/USDT'' ''1h'' (sv_store sched_env0) = Inr None"
    by (simp_all add: get_latest_def with_redis_def redis_get_def latest_features_key_def sched_env0_def demo_env_fields
      get_latest_regime_def regime_key_def)
  have gs: "get_active_grid_strategies (sv_registry sched_env0) = [LongGrid]"
    by (simp add: get_active_grid_strategies_def get_active_def sched_env0_def dict_values_def new_strategy_entry_def
      grid_strategy_of_def grid_strategies_def List.map_filter_def)
  have e: "sv_grid sched_env0 = demo_grid_env 3" "sv_account sched_env0 = Inr (Some demo_verified_account)"
    "sv_portfolio sched_env0 = None" "sv_symbols sched_env0 = new_sks"
    by (simp_all add: sched_env0_def)
  have cd: "cd_symbol sched_candle = grid_symbol" "cd_timeframe sched_candle = ''1h''" "cd_close sched_candle = Dec 100"
    by (simp_all add: sched_candle_def)
  have "attempt_open sched_env0 sched_candle LongGrid d demo_scheduler = (None, ?s)"
    using g by (simp add: attempt_open_def e cd sf directional_exposure_def key)
  then have "try_strategies sched_env0 sched_candle \<lparr>c_symbol = grid_symbol, primary = sched_features, c_regime = UNKNOWN_REGIME\<rparr>
      [LongGrid] demo_scheduler = (None, ?s)"
    using sched_decision by (simp add: sf d_def)
  moreover have "sched_features\<lparr>f_regime := UNKNOWN_REGIME\<rparr> = sched_features" by (simp add: sched_features_def)
  ultimately have "process_symbol sched_env0 sched_candle demo_scheduler = (None, ?s)"
    by (simp add: process_symbol_def cd key sf running_grid_def act gs st Let_def del: try_strategies.simps)
  then have "on_candle sched_env0 sched_candle demo_scheduler = ?s"
    by (simp add: on_candle_def sf cd key e symbol_active_def new_sks_def)
  with gf cf show ?thesis by (simp add: grid_symbol_key_def key)
qed

theorem scheduled_grids_within_limits_witness:
  "\<exists>s t. sched_reach demo_scheduler s \<and> length (active_grids (gs_controller s)) = 1 \<and>
     sum_notionals 0 (active_grids (gs_controller s)) = Inr t \<and> t \<le> Dec 500"
proof -
  let ?s = "on_candle sched_env0 sched_candle demo_scheduler"
  have d: "gc_grids (gs_controller demo_scheduler) = []" "0 \<le> max_open_grids (gc_limits (gs_controller demo_scheduler))"
    "0 \<le> max_grid_exposure_usd (gc_limits (gs_controller demo_scheduler))"
    by (simp_all add: demo_scheduler_def new_grid_scheduler_def demo_controller_def demo_grid_limits_def)
  have r: "sched_reach demo_scheduler ?s" by (rule sched_reach.on_candle [OF sched_reach.start]) (simp add: d)
  obtain g where g: "gc_grids (gs_controller ?s) = [(7, g)]" "grid_active g" using sched_opens by blast
  have "ids_ok (gs_controller demo_scheduler)" by (simp add: ids_ok_def d)
  from on_candle_cases [OF this, of sched_env0 sched_candle] have "gc_limits (gs_controller ?s) = demo_grid_limits"
  proof
    assume "shrinks (gs_controller demo_scheduler) (gs_controller ?s) \<and> gs_open_keys ?s = gs_open_keys demo_scheduler"
    then show ?thesis by (simp add: shrinks_def demo_scheduler_def new_grid_scheduler_def demo_controller_def)
  next
    assume "opened_by sched_env0 sched_candle demo_scheduler ?s"
    then show ?thesis unfolding opened_by_def using open_grid_frame d(1)
      by (fastforce simp: demo_scheduler_def new_grid_scheduler_def demo_controller_def)
  qed
  with scheduled_grids_within_limits [OF r d] g r show ?thesis
    by (auto simp: demo_grid_limits_def active_grids_def dict_values_def)
qed

text \<open>The grid of the first candle is closed; the next candle gives the strategy no second grid.\<close>

theorem strategy_opens_once_witness:
  "\<exists>s g. sched_reach demo_scheduler s \<and> map_of (gc_grids (gs_controller s)) 7 = Some g \<and> \<not> grid_active g \<and>
     (\<forall>i h. map_of (gc_grids (gs_controller s)) i = Some h \<longrightarrow> grid_symbol_key h = grid_symbol_key g \<longrightarrow>
        g_strategy h = g_strategy g \<longrightarrow> i = 7)"
proof -
  let ?s1 = "on_candle sched_env0 sched_candle demo_scheduler"
  let ?e = "sched_env0\<lparr>sv_grid := (demo_grid_env 5)\<lparr>ge_grid_id := 8\<rparr>\<rparr>"
  obtain g where g: "gc_grids (gs_controller ?s1) = [(7, g)]" "grid_active g" "g_id g = 7" using sched_opens by blast
  obtain x d where c: "close_grid (demo_grid_env 4) 7 ''stop_loss'' (Dec 91) True (gs_controller ?s1) = (x, d)" by fastforce
  let ?s2 = "?s1\<lparr>gs_controller := d\<rparr>"
  let ?s3 = "on_candle ?e sched_candle ?s2"
  have i: "ids_ok (gs_controller ?s1)" by (simp add: ids_ok_def g)
  have sh: "shrinks (gs_controller ?s1) d" by (rule close_shrinks [OF i c])
  then have keys: "map fst (gc_grids d) = [7]" by (simp add: shrinks_def g)
  have e: "gc_grids (gs_controller demo_scheduler) = []"
    by (simp add: demo_scheduler_def new_grid_scheduler_def demo_controller_def)
  have r1: "sched_reach demo_scheduler ?s1" by (rule sched_reach.on_candle [OF sched_reach.start]) (simp add: e)
  have r2: "sched_reach demo_scheduler ?s2" by (rule sched_reach.closed [OF r1 c])
  have fresh: "map_of (gc_grids (gs_controller ?s2)) (ge_grid_id (sv_grid ?e)) = None" using keys by (auto simp: map_of_eq_None_iff simp flip: set_map)
  have r3: "sched_reach demo_scheduler ?s3" by (rule sched_reach.on_candle [OF r2 fresh])
  obtain g2 where g2: "map_of (gc_grids d) 7 = Some g2" using keys by (cases "gc_grids d") auto
  have closed: "\<not> grid_active g2"
    using close_grid_ends [OF i _ c] g(1) g2 by fastforce
  have "\<exists>g3. map_of (gc_grids (gs_controller ?s3)) 7 = Some g3 \<and> \<not> grid_active g3"
    using on_candle_cases [of ?s2 ?e sched_candle]
  proof
    show "ids_ok (gs_controller ?s2)" using shrinks_ids [OF sh i] by simp
  next
    assume o: "shrinks (gs_controller ?s2) (gs_controller ?s3) \<and> gs_open_keys ?s3 = gs_open_keys ?s2"
    then have "map fst (gc_grids (gs_controller ?s3)) = [7]" using keys by (simp add: shrinks_def)
    then obtain g3 where g3: "map_of (gc_grids (gs_controller ?s3)) 7 = Some g3" by (cases "gc_grids (gs_controller ?s3)") auto
    from shrinks_lookup [OF o [THEN conjunct1] g3] g2 closed g3 show ?thesis by (auto simp: kept_def)
  next
    assume "opened_by ?e sched_candle ?s2 ?s3"
    then have "\<exists>gr. gc_grids (gs_controller ?s3) = gc_grids d @ [(8, gr)]"
      unfolding opened_by_def using open_grid_frame fresh by fastforce
    with g2 closed show ?thesis by auto
  qed
  then obtain g3 where g3: "map_of (gc_grids (gs_controller ?s3)) 7 = Some g3" "\<not> grid_active g3" by blast
  have "i = 7" if "map_of (gc_grids (gs_controller ?s3)) i = Some h" "grid_symbol_key h = grid_symbol_key g3" "g_strategy h = g_strategy g3" for i h
    by (rule strategy_opens_once [OF r3 e that(1) g3(1) that(2,3)])
  with r3 g3 show ?thesis by blast
qed

end
