(* ===== verification/Position_Liquidator.thy ===== *)
theory Position_Liquidator
  imports Grid_Examples Position_Protection
begin

text \<open>
  \<open>sgr/risk/position_liquidator.py\<close>: what happens to the positions and grids of a tenant when its kill switch asks for
  them to be closed. The liquidator and the grid controller hold the same engine object (\<open>sgr/api/main.py\<close>), so the
  engine is one part of the state, lent to the controller while it closes a grid. The last log line, which says whether
  everything is flat, is the result of the handler.
\<close>

section \<open>The handler\<close>

record liquidator =
  lq_portfolio :: portfolio
  lq_exec :: exec_engine
  lq_tenant :: "string option"
  lq_grids :: "grid_controller option"

definition new_liquidator :: "portfolio \<Rightarrow> exec_engine \<Rightarrow> string option \<Rightarrow> grid_controller option \<Rightarrow> liquidator" where
  "new_liquidator p e u g = \<lparr>lq_portfolio = p, lq_exec = e, lq_tenant = u, lq_grids = g\<rparr>"

definition set_grid_controller :: "grid_controller \<Rightarrow> liquidator \<Rightarrow> liquidator" where
  "set_grid_controller g q = q\<lparr>lq_grids := Some g\<rparr>"

text \<open>What a close takes from outside: those of a tick of the watchdog, and for each grid those of the controller.\<close>

record liq_env =
  le_tick :: watch_tick
  le_grid :: "nat \<Rightarrow> grid_env"

definition liquidation_order :: "liq_env \<Rightarrow> string \<Rightarrow> position \<Rightarrow> order_request" where
  "liquidation_order e why p = \<lparr>oid = tk_order_id (le_tick e) p, signal_id = tk_signal_id (le_tick e) p, osymbol = psymbol p,
     oside = close_side p, otype = MARKET, quantity = pquantity p, limit_price = None, omode = pmode p, reduce_only = True,
     metadata = [(''strategy'', PyStr (strategy_name p)), (''reason'', PyStr ''kill_switch_liquidation''),
       (''kill_switch_reason'', PyStr why)]\<rparr>"

definition liquidate_position :: "liq_env \<Rightarrow> string \<Rightarrow> position \<Rightarrow> liquidator \<Rightarrow> bool \<times> liquidator" where
  "liquidate_position e why p q =
     (case execute (tk_venue (le_tick e) p) (liquidation_order e why p) True (lq_exec q) of
        Inl x \<Rightarrow> (False, q)
      | Inr (r, ee) \<Rightarrow>
          let q1 = q\<lparr>lq_exec := ee\<rparr>
          in if status r = FILLED \<or> status r = PARTIALLY_FILLED
             then (status r = FILLED, q1\<lparr>lq_portfolio := on_order_filled (tk_shown (le_tick e)) (tk_now (le_tick e))
                     (tk_position_id (le_tick e) p) r (lq_portfolio q)\<rparr>)
             else (False, q1))"

fun liquidate_positions :: "liq_env \<Rightarrow> string \<Rightarrow> position list \<Rightarrow> liquidator \<Rightarrow> bool \<times> liquidator" where
  "liquidate_positions e why [] q = (True, q)"
| "liquidate_positions e why (p # ps) q =
     (let (b, q1) = liquidate_position e why p q; (bs, q2) = liquidate_positions e why ps q1 in (b \<and> bs, q2))"

definition flat_qty :: "dec \<Rightarrow> bool" where
  "flat_qty x \<longleftrightarrow> \<bar>dval x\<bar> < dval dust"

text \<open>The grids are those active at the start; the state of one is read when its turn comes.\<close>

fun liquidate_grids :: "liq_env \<Rightarrow> string \<Rightarrow> nat list \<Rightarrow> grid_controller \<Rightarrow> bool \<times> grid_controller" where
  "liquidate_grids e why [] c = (True, c)"
| "liquidate_grids e why (i # is) c =
     (case Option.bind (map_of (gc_grids c) i) last_price of
        None \<Rightarrow> (case liquidate_grids e why is c of (b, c2) \<Rightarrow> (False, c2))
      | Some price \<Rightarrow>
          (case close_grid (le_grid e i) i (''kill_switch:'' @ why) price True c of
             (Some x, c1) \<Rightarrow> (case liquidate_grids e why is c1 of (b, c2) \<Rightarrow> (False, c2))
           | (None, c1) \<Rightarrow>
               (case liquidate_grids e why is c1 of
                  (b, c2) \<Rightarrow> (b \<and> (case map_of (gc_grids c1) i of Some g \<Rightarrow> flat_qty (net_position_qty g) | None \<Rightarrow> False), c2))))"

definition close_all_grids :: "liq_env \<Rightarrow> string \<Rightarrow> liquidator \<Rightarrow> bool \<times> liquidator" where
  "close_all_grids e why q =
     (case lq_grids q of
        None \<Rightarrow> (True, q)
      | Some c \<Rightarrow>
          let (b, c1) = liquidate_grids e why (map g_id (active_grids c)) (c\<lparr>gc_exec := lq_exec q\<rparr>)
          in (b, q\<lparr>lq_exec := gc_exec c1, lq_grids := Some c1\<rparr>))"

text \<open>\<open>None\<close>: the event is not for this liquidator. Otherwise whether positions and grids are flat.\<close>

definition on_kill_switch_event :: "liq_env \<Rightarrow> ks_event \<Rightarrow> liquidator \<Rightarrow> (bool \<times> bool) option \<times> liquidator" where
  "on_kill_switch_event e ev q =
     (if \<not> ev_close_positions ev \<or> ev_tenant ev \<noteq> lq_tenant q then (None, q)
      else let (pf, q1) = liquidate_positions e (ev_reason ev) (dict_values (positions (lq_portfolio q))) q;
               (gf, q2) = close_all_grids e (ev_reason ev) q1
           in (Some (pf, gf), q2))"

section \<open>Orders of a liquidation\<close>

lemma handed_answer:
  assumes "hands_over ord x" and "submit ord = Inr q"
  shows "\<exists>x1. execute_safely submit now ord x = (Some q, x1)"
  using assms by (cases "orders_db x") (simp_all add: hands_over_def execute_safely_def eval_nat_numeral answered_def)

text \<open>An execution leaves the switch and the mode of the engine alone.\<close>

definition same_engine :: "exec_engine \<Rightarrow> exec_engine \<Rightarrow> bool" where
  "same_engine e d \<longleftrightarrow> ee_switch d = ee_switch e \<and> ee_mode d = ee_mode e"

lemma same_engine_refl [simp]: "same_engine e e" by (simp add: same_engine_def)

lemma same_engine_simps [simp]:
  "same_engine e (persist_order_status v i r d) = same_engine e d" "same_engine e (on_fill v r d) = same_engine e d"
  "same_engine e (track ord r d) = same_engine e d" "same_engine e (release_order ord d) = same_engine e d"
  "same_engine e (cancel_order v ord r d) = same_engine e d" "same_engine e (d\<lparr>ee_gate := g\<rparr>) = same_engine e d"
  "same_engine (e\<lparr>ee_gate := g\<rparr>) d = same_engine e d" "same_engine e (d\<lparr>ee_exec := x, placed := os\<rparr>) = same_engine e d"
  "same_engine e (d\<lparr>leverage_cache := l\<rparr>) = same_engine e d" "same_engine (e\<lparr>leverage_cache := l\<rparr>) d = same_engine e d"
  "same_engine (track ord r e) d = same_engine e d"
  by (simp_all add: same_engine_def persist_order_status_def on_fill_def track_def release_order_def cancel_order_def split: sum.split)

lemma monitor_loop_same: "monitor_loop v ord timeout elapsed cur e = (m, e') \<Longrightarrow> same_engine e e'"
proof (induction v ord timeout elapsed cur e rule: monitor_loop.induct)
  case (1 v ord timeout elapsed cur e)
  show ?case
  proof (cases "timeout \<le> elapsed")
    case True
    with "1.prems" show ?thesis by simp
  next
    case False
    then have lt: "elapsed < timeout" by simp
    consider answer where "v_poll v (nat (elapsed div 2)) = (True, answer)"
      | x where "v_poll v (nat (elapsed div 2)) = (False, Inl x)"
      | r where "v_poll v (nat (elapsed div 2)) = (False, Inr r)"
      by (metis (full_types) surj_pair sum.exhaust)
    then show ?thesis
    proof cases
      case 1
      with "1.prems" show ?thesis by (auto simp: monitor_loop_step(1) [OF lt])
    next
      case (2 x)
      with "1.IH"(1) [OF False 2 [symmetric] _ refl] "1.prems" show ?thesis
        by (auto simp: monitor_loop_step(2) [OF lt] split: if_splits)
    next
      case (3 r)
      with "1.IH"(2) [OF False 3 [symmetric] _ refl refl refl] "1.prems" show ?thesis
        by (auto simp: monitor_loop_step(3) [OF lt _ refl] split: if_splits)
    qed
  qed
qed

lemma monitor_fill_same: "monitor_fill v ord r timeout e = (res, e') \<Longrightarrow> same_engine e e'"
  by (cases "monitor_loop v ord timeout 0 r e")
     (auto simp: monitor_fill_def Let_def split: monitored.splits if_splits dest!: monitor_loop_same)

lemma execute_internal_same: "execute_internal v ord e = (res, e') \<Longrightarrow> same_engine e e'"
proof -
  have s: "safely v ord e = (a, d) \<Longrightarrow> same_engine e d" for a d by (auto simp: safely_def split: prod.splits)
  assume "execute_internal v ord e = (res, e')"
  then show ?thesis
    by (auto simp: execute_internal_def Let_def split: sum.splits prod.splits if_splits dest!: s monitor_fill_same)
       (auto simp: same_engine_def)
qed

lemma execute_budgeted_same: "execute_budgeted v ord e = (r, e') \<Longrightarrow> same_engine e e'"
  by (erule execute_budgeted_cases) (auto dest!: execute_internal_same)

lemma execute_same: "execute v ord b e = Inr (r, e') \<Longrightarrow> same_engine e e'"
  by (auto simp: execute_def execute_opening_def bind_result_Inr ensure_leverage_def Let_def
      split: if_splits sum.splits py_exc.splits dest!: execute_budgeted_same)

lemma liquidate_position_same: "liquidate_position e why p q = (b, q') \<Longrightarrow> same_engine (lq_exec q) (lq_exec q') \<and> lq_grids q' = lq_grids q \<and> lq_tenant q' = lq_tenant q"
  by (auto simp: liquidate_position_def Let_def split: sum.splits prod.splits if_splits dest: execute_same)

lemma liquidate_positions_same:
  "liquidate_positions e why ps q = (b, q') \<Longrightarrow> same_engine (lq_exec q) (lq_exec q') \<and> lq_grids q' = lq_grids q \<and> lq_tenant q' = lq_tenant q"
proof (induction ps arbitrary: q b)
  case (Cons p ps)
  obtain b1 q1 b2 where s: "liquidate_position e why p q = (b1, q1)" "liquidate_positions e why ps q1 = (b2, q')"
    using Cons.prems by (auto split: prod.splits)
  from liquidate_position_same [OF s(1)] Cons.IH [OF s(2)] show ?case by (simp add: same_engine_def)
qed simp

text \<open>
  C11. An exit that bypasses the kill switch is given up by the monitoring of its own engine. While the switch is active, an
  order that the exchange takes but has not filled in its first answer is cancelled before the first poll, so the
  position stays in the book and the liquidator reports it as not flat.
\<close>

theorem liquidation_cancelled_at_once:
  assumes "liquidate_position e why p q = (b, q')" and "placed (lq_exec q') \<noteq> placed (lq_exec q)"
    and "v_place (tk_venue (le_tick e) p) (liquidation_order e why p) = Inr a" and "\<not> marked a" and "status a = SUBMITTED"
    and "fst (v_poll (tk_venue (le_tick e) p) 0)"
  shows "\<not> b \<and> lq_portfolio q' = lq_portfolio q \<and>
    cancels (lq_exec q') = cancels (lq_exec q) @ [exchange_order_id a]"
proof -
  let ?v = "tk_venue (le_tick e) p" and ?o = "liquidation_order e why p"
  have o: "reduce_only ?o" by (simp add: liquidation_order_def)
  from assms(1,2) obtain r ee where x: "execute ?v ?o True (lq_exec q) = Inr (r, ee)" "placed ee \<noteq> placed (lq_exec q)"
    by (auto simp: liquidate_position_def Let_def split: sum.splits prod.splits if_splits)
  from x o have "execute_budgeted ?v ?o (lq_exec q) = (r, ee)"
    by (auto simp: execute_def bind_result_Inr split: if_splits)
  then show ?thesis
  proof (cases rule: execute_budgeted_cases)
    case (run qt g h res e3)
    let ?d = "lq_exec q\<lparr>ee_gate := h\<rparr>"
    from run(3) x(2) have pl: "placed e3 \<noteq> placed ?d" by simp
    from execute_internal_contact [OF run(2)] pl have h: "hands_over ?o (ee_exec ?d)" by auto
    obtain up where up: "adapter_of ?v ?d ?o = Inr up"
      using run(2) pl by (cases "adapter_of ?v ?d ?o") (auto simp: execute_internal_def)
    from handed_answer [where submit = "v_place ?v" and now = "v_now ?v", OF h assms(3)] obtain x1 where x1: "execute_safely (v_place ?v) (v_now ?v) ?o (ee_exec ?d) = (Some a, x1)"
      by blast
    define d1 where "d1 = ?d\<lparr>ee_exec := x1, placed := placed ?d @ [?o]\<rparr>"
    have s: "safely ?v ?o ?d = (Inr a, d1)" using x1 h by (simp add: safely_def d1_def)
    obtain answer where poll: "v_poll ?v (nat (0 div 2)) = (True, answer)" using assms(6) by (cases "v_poll ?v 0") auto
    have t: "(0::int) < fill_timeout ?o" by (simp add: fill_timeout_def)
    have up1: "adapter_of ?v d1 ?o = Inr up" using up by (simp add: d1_def adapter_of_def)
    have "execute_internal ?v ?o ?d = (Inr (attribute ?o a), persist_order_status ?v (oid ?o) (attribute ?o a) (cancel_order ?v ?o (attribute ?o a) d1))"
      using s up assms(4,5)
      by (simp add: execute_internal_def attribute_def monitor_fill_def monitor_loop_step(1) [OF t poll] Let_def)
    with run have e3: "res = Inr (attribute ?o a)" "e3 = persist_order_status ?v (oid ?o) (attribute ?o a) (cancel_order ?v ?o (attribute ?o a) d1)"
      by simp_all
    have "cancels e3 = cancels (lq_exec q) @ [exchange_order_id a]"
      using up1 by (simp add: e3(2) persist_order_status_def cancel_order_def attribute_def d1_def)
    then have c: "cancels ee = cancels (lq_exec q) @ [exchange_order_id a]" by (simp add: run(3) release_order_def)
    have st: "status r = SUBMITTED" using run(4) e3(1) assms(5) by (simp add: attribute_def)
    from assms(1) x(1) st c show ?thesis by (auto simp: liquidate_position_def)
  qed (use x(2) in simp)
qed

section \<open>Grids under the switch\<close>

definition orphaned :: "grid \<Rightarrow> grid \<Rightarrow> bool" where
  "orphaned g h \<longleftrightarrow> g_status h = GRID_CLOSED \<and> g_levels h = g_levels g \<and> net_position_qty h = net_position_qty g"

lemma killed_liquidate_grids:
  assumes "is_active (st (ee_switch (gc_exec c)))" and "distinct is"
    and "\<forall>i \<in> set is. \<exists>g. map_of (gc_grids c) i = Some g \<and> g_id g = i \<and> grid_active g \<and> g_mode g = ee_mode (gc_exec c)"
  shows "\<exists>b c'. liquidate_grids e why is c = (b, c') \<and> gc_exec c' = gc_exec c \<and>
    (b \<longleftrightarrow> (\<forall>i \<in> set is. \<forall>g. map_of (gc_grids c) i = Some g \<longrightarrow> last_price g \<noteq> None \<and> flat_qty (net_position_qty g))) \<and>
    (\<forall>i. i \<notin> set is \<longrightarrow> map_of (gc_grids c') i = map_of (gc_grids c) i) \<and>
    (\<forall>i \<in> set is. \<forall>g. map_of (gc_grids c) i = Some g \<longrightarrow>
       (if last_price g = None then map_of (gc_grids c') i = Some g
        else \<exists>h. map_of (gc_grids c') i = Some h \<and> orphaned g h))"
  using assms
proof (induction "is" arbitrary: c)
  case Nil
  show ?case by (intro exI [of _ True] exI [of _ c]) simp
next
  case (Cons i "is")
  from Cons.prems(3) obtain g where g: "map_of (gc_grids c) i = Some g" "g_id g = i" "grid_active g" "g_mode g = ee_mode (gc_exec c)"
    by auto
  show ?case
  proof (cases "last_price g")
    case None
    from Cons.IH [OF Cons.prems(1)] Cons.prems(2,3) obtain b c' where t: "liquidate_grids e why is c = (b, c')"
      "gc_exec c' = gc_exec c" "\<forall>i. i \<notin> set is \<longrightarrow> map_of (gc_grids c') i = map_of (gc_grids c) i"
      "\<forall>i \<in> set is. \<forall>g. map_of (gc_grids c) i = Some g \<longrightarrow>
         (if last_price g = None then map_of (gc_grids c') i = Some g
          else \<exists>h. map_of (gc_grids c') i = Some h \<and> orphaned g h)" by auto
    with g None Cons.prems(2) show ?thesis by (intro exI [of _ False] exI [of _ c']) auto
  next
    case (Some price)
    from killed_close_grid [OF g Cons.prems(1), of "le_grid e i" "''kill_switch:'' @ why" price True] obtain c1 h where
      c1: "close_grid (le_grid e i) i (''kill_switch:'' @ why) price True c = (None, c1)"
      "gc_grids c1 = AList.update i h (gc_grids c)" "g_status h = GRID_CLOSED" "g_levels h = g_levels g"
      "net_position_qty h = net_position_qty g" "gc_exec c1 = gc_exec c" by blast
    have look: "map_of (gc_grids c1) j = (if j = i then Some h else map_of (gc_grids c) j)" for j by (simp add: c1(2) update_conv')
    have pre: "\<forall>j \<in> set is. \<exists>g. map_of (gc_grids c1) j = Some g \<and> g_id g = j \<and> grid_active g \<and> g_mode g = ee_mode (gc_exec c1)"
      using Cons.prems(2,3) by (auto simp: look c1(6))
    have act: "is_active (st (ee_switch (gc_exec c1)))" "distinct is" using Cons.prems(1,2) by (simp_all add: c1(6))
    have same: "map_of (gc_grids c1) j = map_of (gc_grids c) j" if "j \<in> set is" for j
      using Cons.prems(2) that by (auto simp: look)
    from Cons.IH [OF act pre] obtain b c' where t: "liquidate_grids e why is c1 = (b, c')"
      "gc_exec c' = gc_exec c1"
      "b \<longleftrightarrow> (\<forall>i \<in> set is. \<forall>g. map_of (gc_grids c1) i = Some g \<longrightarrow> last_price g \<noteq> None \<and> flat_qty (net_position_qty g))"
      "\<forall>i. i \<notin> set is \<longrightarrow> map_of (gc_grids c') i = map_of (gc_grids c1) i"
      "\<forall>i \<in> set is. \<forall>g. map_of (gc_grids c1) i = Some g \<longrightarrow>
         (if last_price g = None then map_of (gc_grids c') i = Some g
          else \<exists>h. map_of (gc_grids c') i = Some h \<and> orphaned g h)" by blast
    have r: "liquidate_grids e why (i # is) c = (b \<and> flat_qty (net_position_qty g), c')"
      using g(1) Some c1(1,5) t(1) by (simp add: look)
    have "i \<notin> set is" using Cons.prems(2) by simp
    then have i: "map_of (gc_grids c') i = Some h" using t(4) by (simp add: look)
    have "orphaned g h" by (simp add: orphaned_def c1)
    with r t g(1) Some c1(6) same i \<open>i \<notin> set is\<close> show ?thesis
      by (intro exI [of _ "b \<and> flat_qty (net_position_qty g)"] exI [of _ c']) (auto simp: look)
  qed
qed

text \<open>
  C10. An emergency close does not close the grids. The event comes with the kill switch active, and then every active grid
  whose price is known ends up marked as closed, with its filled levels and its net position as they were, and the
  verdict of the handler is that it is not flat unless the net positions were zero before. Grids without a price stay as
  they are. No order is handed over for a grid.
\<close>

theorem emergency_close_leaves_grids:
  assumes "ev_close_positions ev" and "ev_tenant ev = lq_tenant q" and "lq_grids q = Some c"
    and "is_active (st (ee_switch (lq_exec q)))" and "dict_ok (gc_grids c)" and "\<forall>(i, g) \<in> set (gc_grids c). g_id g = i"
    and "\<forall>g \<in> set (active_grids c). g_mode g = ee_mode (lq_exec q)"
  shows "\<exists>pf gf q' c'. on_kill_switch_event e ev q = (Some (pf, gf), q') \<and> lq_grids q' = Some c' \<and>
    lq_exec q' = lq_exec (snd (liquidate_positions e (ev_reason ev) (dict_values (positions (lq_portfolio q))) q)) \<and>
    (gf \<longleftrightarrow> (\<forall>g \<in> set (active_grids c). last_price g \<noteq> None \<and> flat_qty (net_position_qty g))) \<and>
    (\<forall>g \<in> set (active_grids c). if last_price g = None then map_of (gc_grids c') (g_id g) = Some g
       else \<exists>h. map_of (gc_grids c') (g_id g) = Some h \<and> orphaned g h)"
proof -
  obtain pf q1 where p: "liquidate_positions e (ev_reason ev) (dict_values (positions (lq_portfolio q))) q = (pf, q1)" by fastforce
  from liquidate_positions_same [OF p] have q1: "ee_switch (lq_exec q1) = ee_switch (lq_exec q)" "ee_mode (lq_exec q1) = ee_mode (lq_exec q)"
    "lq_grids q1 = Some c" by (simp_all add: same_engine_def assms(3))
  let ?c = "c\<lparr>gc_exec := lq_exec q1\<rparr>" and ?is = "map g_id (active_grids c)"
  have look: "map_of (gc_grids c) (g_id g) = Some g" if "g \<in> set (active_grids c)" for g
  proof -
    from that obtain i where "(i, g) \<in> set (gc_grids c)" by (auto simp: active_grids_def dict_values_def)
    with assms(5,6) show ?thesis by (auto simp: dict_ok_def)
  qed
  have "distinct ?is"
  proof -
    have "map g_id (dict_values (gc_grids c)) = map fst (gc_grids c)"
      using assms(6) by (auto simp: dict_values_def)
    then have "distinct (map g_id (dict_values (gc_grids c)))" using assms(5) by (simp add: dict_ok_def)
    then show ?thesis unfolding active_grids_def by (rule distinct_map_filter)
  qed
  moreover have "\<forall>i \<in> set ?is. \<exists>g. map_of (gc_grids ?c) i = Some g \<and> g_id g = i \<and> grid_active g \<and> g_mode g = ee_mode (gc_exec ?c)"
    using look assms(7) by (auto simp: q1 active_grids_def)
  moreover have "is_active (st (ee_switch (gc_exec ?c)))" using assms(4) by (simp add: q1)
  ultimately obtain gf c' where k: "liquidate_grids e (ev_reason ev) ?is ?c = (gf, c')" "gc_exec c' = lq_exec q1"
    "gf \<longleftrightarrow> (\<forall>i \<in> set ?is. \<forall>g. map_of (gc_grids c) i = Some g \<longrightarrow> last_price g \<noteq> None \<and> flat_qty (net_position_qty g))"
    "\<forall>i \<in> set ?is. \<forall>g. map_of (gc_grids c) i = Some g \<longrightarrow>
       (if last_price g = None then map_of (gc_grids c') i = Some g
        else \<exists>h. map_of (gc_grids c') i = Some h \<and> orphaned g h)"
    using killed_liquidate_grids [of ?c ?is e "ev_reason ev"] by auto
  have "on_kill_switch_event e ev q = (Some (pf, gf), q1\<lparr>lq_exec := gc_exec c', lq_grids := Some c'\<rparr>)"
    using assms(1,2) p k(1) q1(3) by (simp add: on_kill_switch_event_def close_all_grids_def)
  then show ?thesis
    using k(2-4) look
    by (intro exI [of _ pf] exI [of _ gf] exI [of _ "q1\<lparr>lq_exec := gc_exec c', lq_grids := Some c'\<rparr>"] exI [of _ c'])
       (auto simp: p)
qed

section \<open>Examples\<close>

definition demo_liq_env :: liq_env where
  "demo_liq_env = \<lparr>le_tick = demo_watch_tick\<lparr>tk_venue := (\<lambda>p. (demo_venue 1)\<lparr>v_poll := (\<lambda>n. (True, Inl RuntimeError))\<rparr>)\<rparr>,
     le_grid = (\<lambda>i. demo_grid_env 9)\<rparr>"

definition demo_event :: ks_event where
  "demo_event = \<lparr>ev_reason = ''drawdown'', ev_mode = PAPER, ev_tenant = Some ''t1'', ev_close_positions = True\<rparr>"

definition demo_liquidator :: liquidator where
  "demo_liquidator = new_liquidator
     ((new_portfolio PAPER (Dec 800) None None None)\<lparr>positions := [(''BTC/USDT:binance'', demo_long)]\<rparr>)
     (gc_exec killed_controller) (Some ''t1'') (Some killed_controller)"

theorem emergency_close_leaves_grids_witness:
  "\<exists>pf q' c' h. on_kill_switch_event demo_liq_env demo_event demo_liquidator = (Some (pf, False), q') \<and>
     lq_grids q' = Some c' \<and> map_of (gc_grids c') 7 = Some h \<and> g_status h = GRID_CLOSED \<and> net_position_qty h = Dec 9"
proof -
  let ?c = killed_controller
  have h: "ev_close_positions demo_event" "ev_tenant demo_event = lq_tenant demo_liquidator" "lq_grids demo_liquidator = Some ?c"
    "is_active (st (ee_switch (lq_exec demo_liquidator)))" "dict_ok (gc_grids ?c)" "\<forall>(i, g) \<in> set (gc_grids ?c). g_id g = i"
    "\<forall>g \<in> set (active_grids ?c). g_mode g = ee_mode (lq_exec demo_liquidator)"
    by (simp_all add: demo_event_def demo_liquidator_def new_liquidator_def killed_controller_def dict_ok_def demo_grid_def
      active_grids_def dict_values_def demo_engine_def)
  have a: "\<exists>g. active_grids ?c = [g] \<and> g_id g = 7 \<and> last_price g = Some (Dec 25) \<and> net_position_qty g = Dec 9"
    by (simp add: killed_controller_def active_grids_def dict_values_def grid_active_def demo_grid_def)
  have n: "\<not> flat_qty (Dec 9)" by (simp add: flat_qty_def dust_def)
  from emergency_close_leaves_grids [OF h, of demo_liq_env] a n show ?thesis by (auto simp: orphaned_def)
qed

theorem liquidation_cancelled_at_once_witness:
  "\<exists>q'. liquidate_position demo_liq_env ''drawdown'' demo_long demo_liquidator = (False, q') \<and>
     placed (lq_exec q') = [liquidation_order demo_liq_env ''drawdown'' demo_long] \<and> cancels (lq_exec q') = [''X1'']"
proof -
  let ?o = "liquidation_order demo_liq_env ''drawdown'' demo_long" and ?v = "tk_venue (le_tick demo_liq_env) demo_long"
  let ?d = "lq_exec demo_liquidator"
  have o: "omode ?o = PAPER" "reduce_only ?o" "sym_exchange (osymbol ?o) = BINANCE" "otype ?o = MARKET"
    by (simp_all add: liquidation_order_def demo_long_def demo_order_def)
  have d: "ee_mode ?d = PAPER" "ee_gate ?d = None" "ee_exec ?d = demo_executor" "placed ?d = []" "cancels ?d = []"
    by (simp_all add: demo_liquidator_def new_liquidator_def killed_controller_def demo_engine_def)
  obtain b q' where q: "liquidate_position demo_liq_env ''drawdown'' demo_long demo_liquidator = (b, q')" by fastforce
  have h: "hands_over ?o (ee_exec ?d)"
    by (simp add: hands_over_def d demo_executor_def lookup_persisted_def get_order_by_id_def)
  have "v_place ?v ?o = Inr (demo_answer 1 SUBMITTED)" by (simp add: demo_liq_env_def demo_venue_def)
  from handed_answer [where submit = "v_place ?v" and now = "v_now ?v", OF h this] obtain x1 where
    x1: "execute_safely (v_place ?v) (v_now ?v) ?o (ee_exec ?d) = (Some (demo_answer 1 SUBMITTED), x1)" by blast
  define d1 where "d1 = ?d\<lparr>ee_exec := x1, placed := [?o]\<rparr>"
  have s: "safely ?v ?o ?d = (Inr (demo_answer 1 SUBMITTED), d1)" using x1 h by (simp add: safely_def d1_def d)
  have pool: "map_of (v_pool ?v) (BINANCE, PAPER) = Some True" "v_preflight ?v = (\<lambda>ord. Inr True)"
    by (simp_all add: demo_liq_env_def demo_venue_def)
  have up: "adapter_of ?v ?d ?o = Inr True" by (simp add: adapter_of_def d o pool)
  have t: "(0::int) < fill_timeout ?o" by (simp add: fill_timeout_def)
  have poll: "v_poll ?v (nat (0 div 2)) = (True, Inl RuntimeError)" by (simp add: demo_liq_env_def)
  have "\<exists>r e3. execute_internal ?v ?o ?d = (Inr r, e3) \<and> placed e3 = [?o]"
    using s up
    by (simp add: execute_internal_def marked_def py_get_def demo_answer_def blank_result_def Let_def attribute_def monitor_fill_def
      monitor_loop_step(1) [OF t poll] d1_def)
  moreover have gd: "?d\<lparr>ee_gate := None\<rparr> = ?d" using d(2) by simp
  ultimately have "\<exists>r ee. execute_budgeted ?v ?o ?d = (r, ee) \<and> placed ee = [?o]"
    by (auto simp: execute_budgeted_def check_live_verification_allowed_def o d gd)
  then obtain r ee where "execute_budgeted ?v ?o ?d = (r, ee)" "placed ee = [?o]" by blast
  moreover have "execute ?v ?o True ?d = Inr (execute_budgeted ?v ?o ?d)"
    using o d pool by (simp add: execute_def check_live_trading_allowed_def)
  ultimately have pl: "placed (lq_exec q') = [?o]"
    using q by (auto simp: liquidate_position_def Let_def split: if_splits)
  have a: "v_place ?v ?o = Inr (demo_answer 1 SUBMITTED)" "\<not> marked (demo_answer 1 SUBMITTED)"
    "status (demo_answer 1 SUBMITTED) = SUBMITTED" "fst (v_poll ?v 0)"
    by (simp_all add: demo_liq_env_def demo_venue_def demo_answer_def blank_result_def marked_def py_get_def)
  have "exchange_order_id (demo_answer 1 SUBMITTED) = ''X1''" by (simp add: demo_answer_def)
  with liquidation_cancelled_at_once [OF q _ a] q pl d show ?thesis by simp
qed

end
