(* ===== verification/Ccxt_Adapter.thy ===== *)
theory Ccxt_Adapter
  imports Execution_Engine Portfolio_Engine
begin

text \<open>
  \<open>sgr/exchanges/ccxt_base.py\<close> with the errors of \<open>exchanges/base.py\<close>: the adapter between the engine and the library
  \<open>ccxt\<close>, which is outside the repository. A client of the library is the record \<open>ccxt_client\<close> of its calls over a state
  \<open>'x\<close> of the exchange, and its answers and exceptions are data in the documented unified format of the library.
\<close>

section \<open>Errors\<close>

datatype exchange_error =
    GenericError bool
  | RateLimitError
  | AuthenticationError
  | InsufficientFundsError
  | OrderNotFoundError
  | SymbolNotFoundError
  | ConnectionError
  | BannedError time
  | MaintenanceError
  | NotImplementedError
  | NotSupportedError

fun retryable :: "exchange_error \<Rightarrow> bool" where
  "retryable (GenericError b) = b"
| "retryable RateLimitError = True"
| "retryable ConnectionError = True"
| "retryable MaintenanceError = True"
| "retryable _ = False"

type_synonym 'a answer = "exchange_error + 'a"

text \<open>What the other components see of an error.\<close>

fun raised :: "exchange_error \<Rightarrow> py_exc" where
  "raised NotSupportedError = NotSupportedFeature"
| "raised (GenericError b) = ExchangeError (if b then 1 else 0)"
| "raised RateLimitError = ExchangeError 2"
| "raised AuthenticationError = ExchangeError 3"
| "raised InsufficientFundsError = ExchangeError 4"
| "raised OrderNotFoundError = ExchangeError 5"
| "raised SymbolNotFoundError = ExchangeError 6"
| "raised ConnectionError = ExchangeError 7"
| "raised (BannedError t) = ExchangeError 8"
| "raised MaintenanceError = ExchangeError 9"
| "raised NotImplementedError = ExchangeError 10"

definition to_result :: "'a answer \<Rightarrow> 'a result" where
  "to_result a = (case a of Inl e \<Rightarrow> Inl (raised e) | Inr x \<Rightarrow> Inr x)"

text \<open>An exception of the library: the classes the code asks for, and its text in lower case.\<close>

datatype ccxt_class =
  RateLimitExceeded | RequestTimeout | OnMaintenance | NetworkError | InsufficientFunds | OrderNotFound | BadSymbol
| NotSupported

record ccxt_exc =
  ce_classes :: "ccxt_class list"
  ce_text :: string

definition has_prefix :: "string \<Rightarrow> string \<Rightarrow> bool" where
  "has_prefix p s \<longleftrightarrow> take (length p) s = p"

fun contains :: "string \<Rightarrow> string \<Rightarrow> bool" where
  "contains p [] = (p = [])"
| "contains p (c # s) = (has_prefix p (c # s) \<or> contains p s)"

definition is_digit :: "char \<Rightarrow> bool" where
  "is_digit c \<longleftrightarrow> 48 \<le> (of_char c :: nat) \<and> (of_char c :: nat) \<le> 57"

definition number_of :: "string \<Rightarrow> nat" where
  "number_of s = foldl (\<lambda>n c. 10 * n + (of_char c - 48)) 0 s"

text \<open>\<open>re.search(r"banned until (\d+)", text)\<close>\<close>

fun ban_match :: "string \<Rightarrow> nat option" where
  "ban_match [] = None"
| "ban_match (c # s) =
     (let rest = takeWhile is_digit (drop 13 (c # s))
      in if has_prefix ''banned until '' (c # s) \<and> rest \<noteq> [] then Some (number_of rest) else ban_match s)"

definition network_words :: "string list" where
  "network_words = [''timeout'', ''connection'', ''network'', ''503'', ''502'']"

definition map_error :: "ccxt_exc \<Rightarrow> exchange_error" where
  "map_error x =
     (let is = (\<lambda>k. k \<in> set (ce_classes x)) in
      case ban_match (ce_text x) of
        Some ms \<Rightarrow> BannedError (int ms * 1000)
      | None \<Rightarrow>
          if is RateLimitExceeded then RateLimitError
          else if is RequestTimeout then ConnectionError
          else if is OnMaintenance then MaintenanceError
          else if is NetworkError then ConnectionError
          else if is InsufficientFunds then InsufficientFundsError
          else if is OrderNotFound then OrderNotFoundError
          else if is BadSymbol then SymbolNotFoundError
          else if is NotSupported then NotSupportedError
          else if list_ex (\<lambda>w. contains w (ce_text x)) network_words then ConnectionError
          else GenericError False)"

definition mapped :: "ccxt_exc + 'a \<Rightarrow> 'a answer" where
  "mapped r = (case r of Inl x \<Rightarrow> Inl (map_error x) | Inr a \<Rightarrow> Inr a)"

section \<open>Retries\<close>

text \<open>The decorator: at most \<open>n\<close> attempts, and another one only after an error that is worth it. The waits are left out.\<close>

fun retrying :: "nat \<Rightarrow> ('x \<Rightarrow> 'a answer \<times> 'x) \<Rightarrow> 'x \<Rightarrow> 'a answer \<times> 'x" where
  "retrying n f x =
     (case f x of
        (Inr a, x1) \<Rightarrow> (Inr a, x1)
      | (Inl e, x1) \<Rightarrow> (if retryable e \<and> 1 < n then retrying (n - 1) f x1 else (Inl e, x1)))"

declare retrying.simps [simp del]

section \<open>Orders as the library reports them\<close>

text \<open>
  A number that is missing or null is \<open>None\<close>. \<open>ro_client\<close>: the identity the client gave, \<open>Some None\<close> when it is not one
  of this system. \<open>ro_dict\<close> is the whole dictionary.
\<close>

record raw_order =
  ro_id :: string
  ro_symbol :: string
  ro_client :: "nat option option"
  ro_status :: "string option"
  ro_side :: string
  ro_amount :: "dec option"
  ro_filled :: "dec option"
  ro_fee :: "dec option"
  ro_average :: "dec option"
  ro_price :: "dec option"
  ro_placed_at :: "time option"
  ro_traded_at :: "time option"
  ro_dict :: py_dict

definition or_zero :: "dec option \<Rightarrow> dec" where
  "or_zero d = (case d of Some x \<Rightarrow> x | None \<Rightarrow> 0)"

definition nonzero_dec :: "dec option \<Rightarrow> dec option" where
  "nonzero_dec d = (case d of Some x \<Rightarrow> if dval x = 0 then None else Some x | None \<Rightarrow> None)"

definition status_map :: "(string \<times> order_status) list" where
  "status_map = [(''open'', SUBMITTED), (''closed'', FILLED), (''canceled'', CANCELLED), (''cancelled'', CANCELLED),
     (''rejected'', REJECTED), (''expired'', EXPIRED), (''partially_filled'', PARTIALLY_FILLED)]"

definition named_status :: "string option \<Rightarrow> order_status" where
  "named_status s =
     (let t = ascii_lower (case s of Some t \<Rightarrow> if t = [] then ''open'' else t | None \<Rightarrow> ''open'')
      in case map_of status_map t of Some k \<Rightarrow> k | None \<Rightarrow> SUBMITTED)"

definition order_status_of :: "raw_order \<Rightarrow> order_status" where
  "order_status_of raw =
     (let amount = or_zero (ro_amount raw); filled = or_zero (ro_filled raw)
      in if 0 < filled \<and> filled < amount then PARTIALLY_FILLED else named_status (ro_status raw))"

definition parse_order_result :: "trading_mode \<Rightarrow> time \<Rightarrow> raw_order \<Rightarrow> nat \<Rightarrow> symbol \<Rightarrow> order_result" where
  "parse_order_result m now raw i s = \<lparr>request_id = i, exchange_order_id = ro_id raw, rsymbol = s,
     status = order_status_of raw, filled_quantity = or_zero (ro_filled raw),
     average_fill_price = (case nonzero_dec (ro_average raw) of Some p \<Rightarrow> Some p | None \<Rightarrow> nonzero_dec (ro_price raw)),
     fees = or_zero (ro_fee raw), submitted_at = (case ro_placed_at raw of Some t \<Rightarrow> t | None \<Rightarrow> now),
     filled_at = ro_traded_at raw, rmode = m, raw_response = ro_dict raw\<rparr>"

definition map_order_type :: "order_type \<Rightarrow> string" where
  "map_order_type t =
     (case map_of [(MARKET, ''market''), (LIMIT, ''limit''), (STOP_MARKET, ''stop_market''), (STOP_LIMIT, ''stop_limit''),
         (TWAP, ''limit'')] t of
        Some s \<Rightarrow> s | None \<Rightarrow> ''market'')"

text \<open>\<open>_parse_symbol\<close>: everything after the first colon is the settlement currency of a contract.\<close>

fun split_on :: "char \<Rightarrow> string \<Rightarrow> string list" where
  "split_on k [] = [[]]"
| "split_on k (c # s) = (if c = k then [] # split_on k s else (c # hd (split_on k s)) # tl (split_on k s))"

definition parse_symbol :: "exchange_id \<Rightarrow> string \<Rightarrow> symbol answer" where
  "parse_symbol x s =
     (case split_on (CHR ''/'') (hd (split_on (CHR '':'') s)) of
        [b, q] \<Rightarrow> Inr \<lparr>base = b, quote = q, sym_exchange = x,
                      asset = (if CHR '':'' \<in> set s then ASSET_FUTURES else ASSET_SPOT)\<rparr>
      | _ \<Rightarrow> Inl SymbolNotFoundError)"

section \<open>The client of the library and the adapter\<close>

text \<open>\<open>None\<close> is a null in the dictionary; \<open>ct_volume\<close> is \<open>quoteVolume or baseVolume\<close>.\<close>

record ccxt_ticker =
  ct_bid :: "dec option"
  ct_ask :: "dec option"
  ct_last :: "dec option"
  ct_volume :: "dec option"

record ccxt_order =
  co_symbol :: string
  co_type :: string
  co_side :: string
  co_amount :: flt
  co_price :: "flt option"
  co_client :: nat
  co_reduce :: bool

record raw_position =
  rp_symbol :: string
  rp_side :: "string option"
  rp_contracts :: "dec option"
  rp_entry :: "dec option"
  rp_mark :: "dec option"
  rp_leverage :: "dec option"
  rp_unrealized :: "dec option"
  rp_realized :: "dec option"

record raw_balance =
  rb_total :: "(string \<times> dec option) list"
  rb_free :: "(string \<times> dec option) list"
  rb_used :: "(string \<times> dec option) list"

text \<open>
  \<open>cc_has m\<close> is \<open>has.get(m)\<close>. \<open>cc_cancel_all\<close> answers with the length of the list it returns, zero when it is no list.
\<close>

record 'x ccxt_client =
  cc_has :: "string \<Rightarrow> bool option"
  cc_fetch_ticker :: "string \<Rightarrow> 'x \<Rightarrow> (ccxt_exc + ccxt_ticker) \<times> 'x"
  cc_fetch_by_client :: "nat \<Rightarrow> string \<Rightarrow> 'x \<Rightarrow> (ccxt_exc + raw_order option) \<times> 'x"
  cc_create_order :: "ccxt_order \<Rightarrow> 'x \<Rightarrow> (ccxt_exc + raw_order) \<times> 'x"
  cc_fetch_order :: "string \<Rightarrow> string \<Rightarrow> 'x \<Rightarrow> (ccxt_exc + raw_order) \<times> 'x"
  cc_cancel_order :: "string \<Rightarrow> string \<Rightarrow> 'x \<Rightarrow> (ccxt_exc + unit) \<times> 'x"
  cc_fetch_open_orders :: "string option \<Rightarrow> 'x \<Rightarrow> (ccxt_exc + raw_order list) \<times> 'x"
  cc_cancel_all :: "string \<Rightarrow> 'x \<Rightarrow> (ccxt_exc + nat) \<times> 'x"
  cc_fetch_positions :: "'x \<Rightarrow> (ccxt_exc + raw_position list) \<times> 'x"
  cc_fetch_balance :: "'x \<Rightarrow> (ccxt_exc + raw_balance) \<times> 'x"
  cc_set_leverage :: "int \<Rightarrow> string \<Rightarrow> 'x \<Rightarrow> (ccxt_exc + unit) \<times> 'x"
  cc_fetch_status :: "'x \<Rightarrow> (ccxt_exc + string option) \<times> 'x"
  cc_fetch_position_mode :: "'x \<Rightarrow> (ccxt_exc + bool) \<times> 'x"

record adapter =
  ad_exchange :: exchange_id
  ad_mode :: trading_mode
  ad_futures :: bool
  ad_connected :: bool

definition require_connected :: "adapter \<Rightarrow> ('x \<Rightarrow> 'a answer \<times> 'x) \<Rightarrow> 'x \<Rightarrow> 'a answer \<times> 'x" where
  "require_connected ad f x = (if ad_connected ad then f x else (Inl ConnectionError, x))"

definition unless_missing :: "'x ccxt_client \<Rightarrow> string \<Rightarrow> 'a answer \<Rightarrow> ('x \<Rightarrow> 'a answer \<times> 'x) \<Rightarrow> 'x \<Rightarrow> 'a answer \<times> 'x" where
  "unless_missing c k a f x = (if cc_has c k = Some False then (a, x) else f x)"

text \<open>A call of the library whose answer is converted; every exception of either is mapped.\<close>

definition asking :: "('x \<Rightarrow> (ccxt_exc + 'b) \<times> 'x) \<Rightarrow> ('b \<Rightarrow> 'a answer) \<Rightarrow> 'x \<Rightarrow> 'a answer \<times> 'x" where
  "asking f g x = (case f x of (Inl e, x1) \<Rightarrow> (Inl (map_error e), x1) | (Inr b, x1) \<Rightarrow> (g b, x1))"

text \<open>
  A number that is null where the code converts it without a default raises in the conversion, and so does a text that is
  no side or no identity; the texts of these exceptions have none of the words of a network problem.
\<close>

definition bad_value :: "'a answer" where
  "bad_value = Inl (GenericError False)"

section \<open>Market and account\<close>

definition ticker_of :: "ccxt_ticker \<Rightarrow> (dec \<times> dec) answer" where
  "ticker_of t =
     (case (ct_last t, ct_volume t) of
        (Some l, Some v) \<Rightarrow>
          Inr ((case nonzero_dec (ct_bid t) of Some b \<Rightarrow> b | None \<Rightarrow> l), (case nonzero_dec (ct_ask t) of Some a \<Rightarrow> a | None \<Rightarrow> l))
      | _ \<Rightarrow> bad_value)"

definition get_ticker :: "adapter \<Rightarrow> 'x ccxt_client \<Rightarrow> string \<Rightarrow> 'x \<Rightarrow> (dec \<times> dec) answer \<times> 'x" where
  "get_ticker ad c s = retrying 3 (require_connected ad (asking (cc_fetch_ticker c s) ticker_of))"

record balance =
  b_total :: dec
  b_free :: dec
  b_used :: dec
  b_assets :: "(string \<times> dec) list"

definition usdt :: "(string \<times> dec option) list \<Rightarrow> dec" where
  "usdt b = (case map_of b ''USDT'' of Some d \<Rightarrow> or_zero d | None \<Rightarrow> 0)"

definition balance_of :: "raw_balance \<Rightarrow> balance" where
  "balance_of b = \<lparr>b_total = usdt (rb_total b), b_free = usdt (rb_free b), b_used = usdt (rb_used b),
     b_assets = map (\<lambda>(k, d). (k, or_zero d)) (filter (\<lambda>(k, d). 0 < or_zero d) (rb_total b))\<rparr>"

definition get_balance :: "adapter \<Rightarrow> 'x ccxt_client \<Rightarrow> 'x \<Rightarrow> balance answer \<times> 'x" where
  "get_balance ad c = retrying 3 (require_connected ad (asking (cc_fetch_balance c) (\<lambda>b. Inr (balance_of b))))"

text \<open>\<open>pos_id\<close> and \<open>now\<close> are the fresh identity of the position and the time.\<close>

definition position_of :: "adapter \<Rightarrow> nat \<Rightarrow> time \<Rightarrow> raw_position \<Rightarrow> position answer" where
  "position_of ad pos_id now r =
     (case parse_symbol (ad_exchange ad) (rp_symbol r) of
        Inl e \<Rightarrow> Inl e
      | Inr s \<Rightarrow> Inr \<lparr>pid = pos_id, psymbol = s,
          pside = (if ascii_lower (case rp_side r of Some t \<Rightarrow> if t = [] then ''long'' else t | None \<Rightarrow> ''long'') = ''long''
                   then LONG else SHORT),
          pquantity = or_zero (rp_contracts r), entry_price = or_zero (rp_entry r),
          current_price = (case nonzero_dec (rp_mark r) of Some m \<Rightarrow> m | None \<Rightarrow> or_zero (rp_entry r)),
          leverage = (case nonzero_dec (rp_leverage r) of Some l \<Rightarrow> l | None \<Rightarrow> 1),
          unrealized_pnl = or_zero (rp_unrealized r), realized_pnl = or_zero (rp_realized r), opened_at = now,
          strategy_name = ''unknown'', pmode = ad_mode ad, stop_loss_price = None, take_profit_price = None,
          max_holding_until = None, sl_order_id = None, tp_order_id = None, entry_regime = None\<rparr>)"

fun positions_of :: "adapter \<Rightarrow> (raw_position \<Rightarrow> nat) \<Rightarrow> time \<Rightarrow> raw_position list \<Rightarrow> position list answer" where
  "positions_of ad ids now [] = Inr []"
| "positions_of ad ids now (r # rs) =
     (if or_zero (rp_contracts r) \<le> 0 then positions_of ad ids now rs
      else case position_of ad (ids r) now r of
             Inl e \<Rightarrow> Inl e
           | Inr p \<Rightarrow> (case positions_of ad ids now rs of Inl e \<Rightarrow> Inl e | Inr ps \<Rightarrow> Inr (p # ps)))"

definition get_positions :: "adapter \<Rightarrow> 'x ccxt_client \<Rightarrow> (raw_position \<Rightarrow> nat) \<Rightarrow> time \<Rightarrow> 'x \<Rightarrow> position list answer \<times> 'x" where
  "get_positions ad c ids now = retrying 3 (require_connected ad
     (unless_missing c ''fetchPositions'' (Inr []) (asking (cc_fetch_positions c) (positions_of ad ids now))))"

definition get_market_status :: "adapter \<Rightarrow> 'x ccxt_client \<Rightarrow> 'x \<Rightarrow> bool answer \<times> 'x" where
  "get_market_status ad c = require_connected ad (unless_missing c ''fetchStatus'' (Inl NotSupportedError)
     (asking (cc_fetch_status c) (\<lambda>s. Inr (s = Some ''ok''))))"

definition get_position_mode :: "adapter \<Rightarrow> 'x ccxt_client \<Rightarrow> 'x \<Rightarrow> bool answer \<times> 'x" where
  "get_position_mode ad c = require_connected ad (unless_missing c ''fetchPositionMode'' (Inl NotSupportedError)
     (asking (cc_fetch_position_mode c) Inr))"

text \<open>\<open>int(leverage)\<close> cuts off the fraction.\<close>

definition int_of_dec :: "dec \<Rightarrow> int" where
  "int_of_dec d = (if 0 \<le> dval d then \<lfloor>dval d\<rfloor> else - \<lfloor>- dval d\<rfloor>)"

definition set_leverage :: "adapter \<Rightarrow> 'x ccxt_client \<Rightarrow> string \<Rightarrow> dec \<Rightarrow> 'x \<Rightarrow> unit answer \<times> 'x" where
  "set_leverage ad c s l = require_connected ad (unless_missing c ''setLeverage'' (Inl NotSupportedError)
     (asking (cc_set_leverage c (int_of_dec l) s) Inr))"

section \<open>Order submission\<close>

definition side_value :: "side \<Rightarrow> string" where
  "side_value d = (case d of BUY \<Rightarrow> ''buy'' | SELL \<Rightarrow> ''sell'')"

text \<open>The costs of a simulated fill, from the risk limits of the configuration.\<close>

record paper_costs =
  paper_slippage :: flt
  paper_taker_fee :: flt
  paper_maker_fee :: flt

definition fill_price_of :: "paper_costs \<Rightarrow> order_request \<Rightarrow> (dec \<times> dec) option \<Rightarrow> dec answer" where
  "fill_price_of pc ord ticker =
     (let slip = dec_of_float (paper_slippage pc) in
      case ticker of
        Some (bid, ask) \<Rightarrow> Inr (if oside ord = BUY then ask * (1 + slip) else bid * (1 - slip))
      | None \<Rightarrow> (case nonzero_dec (limit_price ord) of Some p \<Rightarrow> Inr p | None \<Rightarrow> Inl ConnectionError))"

definition paper_fee_rate :: "paper_costs \<Rightarrow> order_request \<Rightarrow> dec" where
  "paper_fee_rate pc ord =
     dec_of_float (if py_get (metadata ord) ''grid_fill_type'' PyNone = PyStr ''level_cross'' then paper_maker_fee pc
       else paper_taker_fee pc)"

text \<open>\<open>shown\<close> is \<open>str\<close> of a \<open>Decimal\<close>. The nested entry of the fee is left out of the raw answer.\<close>

definition paper_result :: "(dec \<Rightarrow> string) \<Rightarrow> time \<Rightarrow> paper_costs \<Rightarrow> order_request \<Rightarrow> dec \<Rightarrow> order_result" where
  "paper_result shown now pc ord price = \<lparr>request_id = oid ord, exchange_order_id = ''PAPER-'' @ nat_str (oid ord),
     rsymbol = osymbol ord, status = FILLED, filled_quantity = quantity ord, average_fill_price = Some price,
     fees = quantity ord * price * paper_fee_rate pc ord, submitted_at = now, filled_at = Some now, rmode = PAPER,
     raw_response = [(''id'', PyStr (''PAPER-'' @ nat_str (oid ord))), (''status'', PyStr ''closed''),
       (''side'', PyStr (side_value (oside ord))), (''symbol'', PyStr (symbol_str (osymbol ord))),
       (''amount'', PyStr (shown (quantity ord))), (''filled'', PyStr (shown (quantity ord))),
       (''average'', PyStr (shown price)), (''price'', PyStr (shown price))]\<rparr>"

text \<open>\<open>ask_ticker\<close> is the \<open>get_ticker\<close> of the adapter.\<close>

definition simulate_with ::
  "('x \<Rightarrow> (dec \<times> dec) answer \<times> 'x) \<Rightarrow> (dec \<Rightarrow> string) \<Rightarrow> time \<Rightarrow> paper_costs \<Rightarrow> order_request \<Rightarrow> 'x \<Rightarrow> order_result answer \<times> 'x"
where
  "simulate_with ask_ticker shown now pc ord x =
     (case ask_ticker x of
        (t, x1) \<Rightarrow>
          (case fill_price_of pc ord (case t of Inr q \<Rightarrow> Some q | Inl e \<Rightarrow> None) of
             Inl e \<Rightarrow> (Inl e, x1)
           | Inr p \<Rightarrow> (Inr (paper_result shown now pc ord p), x1)))"

definition simulate_order ::
  "adapter \<Rightarrow> 'x ccxt_client \<Rightarrow> (dec \<Rightarrow> string) \<Rightarrow> time \<Rightarrow> paper_costs \<Rightarrow> order_request \<Rightarrow> 'x \<Rightarrow> order_result answer \<times> 'x"
where
  "simulate_order ad c = (\<lambda>shown now pc ord. simulate_with (get_ticker ad c (ccxt_symbol (osymbol ord))) shown now pc ord)"

text \<open>Every failure of the look-up counts as an order that is not there.\<close>

definition find_existing_order :: "'x ccxt_client \<Rightarrow> nat \<Rightarrow> string \<Rightarrow> 'x \<Rightarrow> raw_order option \<times> 'x" where
  "find_existing_order c i s x =
     (if cc_has c ''fetchOrder'' \<noteq> Some True then (None, x)
      else case cc_fetch_by_client c i s x of
             (Inl e, x1) \<Rightarrow> (None, x1)
           | (Inr r, x1) \<Rightarrow> (r, x1))"

definition ccxt_order_of :: "order_request \<Rightarrow> ccxt_order" where
  "ccxt_order_of ord = \<lparr>co_symbol = ccxt_symbol (osymbol ord), co_type = map_order_type (otype ord),
     co_side = side_value (oside ord), co_amount = float_of (quantity ord),
     co_price = map_option float_of (nonzero_dec (limit_price ord)), co_client = oid ord, co_reduce = reduce_only ord\<rparr>"

definition place_once ::
  "adapter \<Rightarrow> 'x ccxt_client \<Rightarrow> (dec \<Rightarrow> string) \<Rightarrow> time \<Rightarrow> paper_costs \<Rightarrow> order_request \<Rightarrow> 'x \<Rightarrow> order_result answer \<times> 'x"
where
  "place_once ad c shown now pc ord =
     (if omode ord = PAPER then simulate_order ad c shown now pc ord
      else (\<lambda>x. case find_existing_order c (oid ord) (ccxt_symbol (osymbol ord)) x of
             (Some raw, x1) \<Rightarrow> (Inr (parse_order_result (ad_mode ad) now raw (oid ord) (osymbol ord)), x1)
           | (None, x1) \<Rightarrow> asking (cc_create_order c (ccxt_order_of ord))
               (\<lambda>raw. Inr (parse_order_result (ad_mode ad) now raw (oid ord) (osymbol ord))) x1))"

definition place_order ::
  "adapter \<Rightarrow> 'x ccxt_client \<Rightarrow> (dec \<Rightarrow> string) \<Rightarrow> time \<Rightarrow> paper_costs \<Rightarrow> order_request \<Rightarrow> 'x \<Rightarrow> order_result answer \<times> 'x"
where
  "place_order ad c shown now pc ord = retrying 2 (require_connected ad (place_once ad c shown now pc ord))"

section \<open>Orders that were sent\<close>

definition cancel_order_at :: "adapter \<Rightarrow> 'x ccxt_client \<Rightarrow> string \<Rightarrow> string \<Rightarrow> 'x \<Rightarrow> bool answer \<times> 'x" where
  "cancel_order_at ad c i s = retrying 3 (require_connected ad (\<lambda>x.
     case cc_cancel_order c i s x of
       (Inr _, x1) \<Rightarrow> (Inr True, x1)
     | (Inl e, x1) \<Rightarrow> (if map_error e = OrderNotFoundError then Inr False else Inl (map_error e), x1)))"

text \<open>The request that stands in for the one that is not known; \<open>i\<close> is a fresh identity.\<close>

definition reported_order :: "adapter \<Rightarrow> time \<Rightarrow> nat \<Rightarrow> string \<Rightarrow> raw_order \<Rightarrow> order_result answer" where
  "reported_order ad now i s raw =
     (case parse_symbol (ad_exchange ad) s of
        Inl e \<Rightarrow> Inl e
      | Inr y \<Rightarrow> if ro_side raw \<notin> {''buy'', ''sell''} then bad_value
                 else Inr (parse_order_result (ad_mode ad) now raw i y))"

definition get_order :: "adapter \<Rightarrow> 'x ccxt_client \<Rightarrow> time \<Rightarrow> nat \<Rightarrow> string \<Rightarrow> string \<Rightarrow> 'x \<Rightarrow> order_result answer \<times> 'x" where
  "get_order ad c now i k s = retrying 3 (require_connected ad (asking (cc_fetch_order c k s) (\<lambda>raw.
     case ro_client raw of
       None \<Rightarrow> reported_order ad now i s raw
     | Some (Some n) \<Rightarrow> reported_order ad now n s raw
     | Some None \<Rightarrow> (case reported_order ad now i s raw of Inl e \<Rightarrow> Inl e | Inr r \<Rightarrow> bad_value))))"

fun reported_orders :: "adapter \<Rightarrow> time \<Rightarrow> (raw_order \<Rightarrow> nat) \<Rightarrow> raw_order list \<Rightarrow> order_result list answer" where
  "reported_orders ad now ids [] = Inr []"
| "reported_orders ad now ids (r # rs) =
     (case reported_order ad now (ids r) (ro_symbol r) r of
        Inl e \<Rightarrow> Inl e
      | Inr o1 \<Rightarrow> (case reported_orders ad now ids rs of Inl e \<Rightarrow> Inl e | Inr os \<Rightarrow> Inr (o1 # os)))"

definition get_open_orders ::
  "adapter \<Rightarrow> 'x ccxt_client \<Rightarrow> time \<Rightarrow> (raw_order \<Rightarrow> nat) \<Rightarrow> string option \<Rightarrow> 'x \<Rightarrow> order_result list answer \<times> 'x"
where
  "get_open_orders ad c now ids s =
     retrying 3 (require_connected ad (asking (cc_fetch_open_orders c s) (reported_orders ad now ids)))"

text \<open>The loop over the symbols with open orders; the code takes them from a set, in no particular order.\<close>

fun cancel_symbols :: "'x ccxt_client \<Rightarrow> order_result list \<Rightarrow> string list \<Rightarrow> 'x \<Rightarrow> nat \<times> 'x" where
  "cancel_symbols c os [] x = (0, x)"
| "cancel_symbols c os (s # ss) x =
     (case cc_cancel_all c s x of
        (a, x1) \<Rightarrow>
          (case cancel_symbols c os ss x1 of
             (n, x2) \<Rightarrow> ((case a of Inl e \<Rightarrow> n
               | Inr _ \<Rightarrow> length (filter (\<lambda>r. ccxt_symbol (rsymbol r) = s) os) + n), x2)))"

definition symbols_of :: "order_result list \<Rightarrow> string list" where
  "symbols_of os = remdups (map (\<lambda>r. ccxt_symbol (rsymbol r)) os)"

definition exchange_cancel_all ::
  "adapter \<Rightarrow> 'x ccxt_client \<Rightarrow> time \<Rightarrow> (raw_order \<Rightarrow> nat) \<Rightarrow> string option \<Rightarrow> 'x \<Rightarrow> nat answer \<times> 'x"
where
  "exchange_cancel_all ad c now ids which = retrying 3 (require_connected ad (
     case which of
       Some s \<Rightarrow> asking (cc_cancel_all c s) Inr
     | None \<Rightarrow> (\<lambda>x. case get_open_orders ad c now ids None x of
         (Inl e, x1) \<Rightarrow> (Inl e, x1)
       | (Inr os, x1) \<Rightarrow> (case cancel_symbols c os (symbols_of os) x1 of (n, x2) \<Rightarrow> (Inr n, x2)))))"

section \<open>Limits of the symbols\<close>

text \<open>
  The number of decimals of a number; a float has fewer than 400. \<open>by_tick\<close>: the library gives tick sizes instead of
  numbers of decimals.
\<close>

fun places :: "nat \<Rightarrow> rat \<Rightarrow> nat" where
  "places 0 x = 0"
| "places (Suc n) x = (if snd (quotient_of x) = 1 then 0 else Suc (places n (10 * x)))"

definition safe_precision_places :: "bool \<Rightarrow> dec option \<Rightarrow> int option" where
  "safe_precision_places by_tick v = map_option (\<lambda>d. if by_tick then int (places 400 (dval d)) else int_of_dec d) v"

record raw_market =
  rm_amount_precision :: "dec option"
  rm_price_precision :: "dec option"
  rm_min_amount :: "dec option"
  rm_max_amount :: "dec option"
  rm_min_cost :: "dec option"
  rm_min_price :: "dec option"
  rm_max_price :: "dec option"

definition limits_of_market :: "bool \<Rightarrow> raw_market \<Rightarrow> symbol_limits" where
  "limits_of_market by_tick m = \<lparr>amount_precision = safe_precision_places by_tick (rm_amount_precision m),
     price_precision = safe_precision_places by_tick (rm_price_precision m), min_amount = rm_min_amount m,
     max_amount = rm_max_amount m, min_notional = rm_min_cost m, min_price = rm_min_price m, max_price = rm_max_price m\<rparr>"

text \<open>\<open>None\<close>: a market whose entry is not of the documented form, which is left out.\<close>

definition add_market ::
  "bool \<Rightarrow> bool \<Rightarrow> string \<times> raw_market option \<Rightarrow> (string, symbol_limits) dict \<Rightarrow> (string, symbol_limits) dict"
where
  "add_market futures by_tick e d =
     (case e of
        (s, None) \<Rightarrow> d
      | (s, Some m) \<Rightarrow>
          if CHR ''/'' \<notin> set s then d
          else let l = limits_of_market by_tick m; d1 = AList.update s l d; b = hd (split_on (CHR '':'') s)
               in if b \<noteq> s \<and> futures then AList.update b l d1 else d1)"

definition extract_symbol_limits :: "bool \<Rightarrow> bool \<Rightarrow> (string \<times> raw_market option) list \<Rightarrow> (string, symbol_limits) dict" where
  "extract_symbol_limits futures by_tick ms = fold (add_market futures by_tick) ms []"

section \<open>Facts\<close>

lemma retrying_inv:
  assumes "\<And>y. P y \<Longrightarrow> P (snd (f y))" and "P x"
  shows "P (snd (retrying n f x))"
  using assms
proof (induction n f x rule: retrying.induct)
  case (1 n f x)
  obtain a x1 where f: "f x = (a, x1)" by fastforce
  have "P x1" using 1(2) [OF 1(3)] by (simp add: f)
  with 1(1,2) f show ?case by (subst retrying.simps) (auto split: sum.splits)
qed

lemma retrying_done: "f x = (Inr a, y) \<Longrightarrow> retrying n f x = (Inr a, y)"
  by (subst retrying.simps) simp

lemma retrying_final: "f x = (Inl e, y) \<Longrightarrow> \<not> retryable e \<Longrightarrow> retrying n f x = (Inl e, y)"
  by (subst retrying.simps) simp

lemma retrying_result:
  "retrying n f x = (Inr a, y) \<Longrightarrow> \<exists>z. f z = (Inr a, y)"
proof (induction n f x rule: retrying.induct)
  case (1 n f x)
  then show ?case by (subst (asm) (2) retrying.simps) (auto split: sum.splits prod.splits if_splits)
qed

lemma asking_state: "snd (asking f g x) = snd (f x)"
  by (simp add: asking_def split: prod.split sum.split)

lemma require_connected_inv: "(\<And>y. P y \<Longrightarrow> P (snd (f y))) \<Longrightarrow> P x \<Longrightarrow> P (snd (require_connected ad f x))"
  by (simp add: require_connected_def)

lemma get_ticker_inv:
  assumes "\<And>s y. P y \<Longrightarrow> P (snd (cc_fetch_ticker c s y))" and "P x"
  shows "P (snd (get_ticker ad c s x))"
  unfolding get_ticker_def
  by (rule retrying_inv [where P = P, OF _ assms(2)])
     (rule require_connected_inv [where P = P], simp_all add: asking_state assms(1))

lemma simulate_order_state: "snd (simulate_order ad c shown now pc ord x) = snd (get_ticker ad c (ccxt_symbol (osymbol ord)) x)"
  by (simp add: simulate_order_def simulate_with_def split: prod.split sum.split)

lemma place_once_inv:
  assumes tick: "\<And>s y. P y \<Longrightarrow> P (snd (cc_fetch_ticker c s y))"
    and find: "\<And>y. P y \<Longrightarrow> omode ord \<noteq> PAPER \<Longrightarrow> P (snd (find_existing_order c (oid ord) (ccxt_symbol (osymbol ord)) y))"
    and create: "\<And>y z. P y \<Longrightarrow> omode ord \<noteq> PAPER \<Longrightarrow>
      find_existing_order c (oid ord) (ccxt_symbol (osymbol ord)) y = (None, z) \<Longrightarrow> P (snd (cc_create_order c (ccxt_order_of ord) z))"
    and "P x"
  shows "P (snd (place_once ad c shown now pc ord x))"
proof (cases "omode ord = PAPER")
  case True
  then show ?thesis using get_ticker_inv [OF tick assms(4)] by (simp add: place_once_def simulate_order_state)
next
  case False
  obtain r z where f: "find_existing_order c (oid ord) (ccxt_symbol (osymbol ord)) x = (r, z)" by fastforce
  show ?thesis
  proof (cases r)
    case None
    with f False create [OF assms(4) False, of z] show ?thesis by (simp add: place_once_def asking_state)
  next
    case (Some raw)
    with f False find [OF assms(4) False] show ?thesis by (simp add: place_once_def)
  qed
qed

text \<open>The name of an order at the exchange is the identity of the request, and a state of the exchange says which it has taken.\<close>

definition truthful_lookup :: "'x ccxt_client \<Rightarrow> ('x \<Rightarrow> nat list) \<Rightarrow> bool" where
  "truthful_lookup c taken \<longleftrightarrow> cc_has c ''fetchOrder'' = Some True \<and>
     (\<forall>i s x. taken (snd (cc_fetch_by_client c i s x)) = taken x \<and>
        (i \<in> set (taken x) \<longrightarrow> (\<exists>raw. fst (cc_fetch_by_client c i s x) = Inr (Some raw))))"

definition takes_orders :: "'x ccxt_client \<Rightarrow> ('x \<Rightarrow> nat list) \<Rightarrow> bool" where
  "takes_orders c taken \<longleftrightarrow>
     (\<forall>a x. taken (snd (cc_create_order c a x)) = taken x \<or> taken (snd (cc_create_order c a x)) = taken x @ [co_client a]) \<and>
     (\<forall>s x. taken (snd (cc_fetch_ticker c s x)) = taken x)"

text \<open>
  C12. The exchange never holds two orders for one request. Requests may be handed to the adapter repeatedly and in any
  order, an answer of the exchange may be lost after it has taken the order, and the adapter repeats a call that failed:
  as long as the look-up by the identity of the request works and tells the truth, the identities the exchange has
  taken stay distinct.
\<close>

theorem one_order_per_request:
  assumes "truthful_lookup c taken" and "takes_orders c taken" and "distinct (taken x)"
  shows "distinct (taken (fold (\<lambda>ord y. snd (place_order ad c shown now pc ord y)) ords x))"
proof -
  let ?P = "\<lambda>y. distinct (taken y)"
  have once: "?P (snd (place_once ad c shown now pc ord y))" if "?P y" for ord y
  proof (rule place_once_inv [where P = ?P, OF _ _ _ that])
    show "?P (snd (cc_fetch_ticker c s y))" if "?P y" for s y using that assms(2) by (simp add: takes_orders_def)
    show "?P (snd (find_existing_order c (oid ord) (ccxt_symbol (osymbol ord)) y))" if "?P y" for y
      using that assms(1) by (auto simp: find_existing_order_def truthful_lookup_def split: prod.split sum.split)
         (metis snd_conv)+
    show "?P (snd (cc_create_order c (ccxt_order_of ord) z))"
      if p: "?P y" and f: "find_existing_order c (oid ord) (ccxt_symbol (osymbol ord)) y = (None, z)" for y z
    proof -
      from assms(1) have has: "cc_has c ''fetchOrder'' = Some True"
        and l: "taken (snd (cc_fetch_by_client c (oid ord) (ccxt_symbol (osymbol ord)) y)) = taken y"
          "oid ord \<in> set (taken y) \<Longrightarrow> \<exists>raw. fst (cc_fetch_by_client c (oid ord) (ccxt_symbol (osymbol ord)) y) = Inr (Some raw)"
        unfolding truthful_lookup_def by blast+
      obtain a z1 where q: "cc_fetch_by_client c (oid ord) (ccxt_symbol (osymbol ord)) y = (a, z1)" by fastforce
      from f has q have "z1 = z" "a \<noteq> Inr (Some raw)" for raw
        by (auto simp: find_existing_order_def split: sum.splits)
      with l q have z: "taken z = taken y" "oid ord \<notin> set (taken y)" by auto
      have "co_client (ccxt_order_of ord) = oid ord" by (simp add: ccxt_order_of_def)
      with assms(2) have "taken (snd (cc_create_order c (ccxt_order_of ord) z)) = taken z \<or>
          taken (snd (cc_create_order c (ccxt_order_of ord) z)) = taken z @ [oid ord]"
        unfolding takes_orders_def by metis
      with z p show ?thesis by auto
    qed
  qed
  have "?P (snd (place_order ad c shown now pc ord y))" if "?P y" for ord y
    unfolding place_order_def
    by (rule retrying_inv [where P = ?P, OF _ that]) (rule require_connected_inv [where P = ?P], use once in auto)
  then show ?thesis using assms(3) by (induction ords arbitrary: x) auto
qed

section \<open>Simulated fills\<close>

lemma infer_side_paper: "infer_side (paper_result shown now pc ord p) = oside ord"
  by (cases "oside ord") (simp_all add: infer_side_def paper_result_def py_get_def side_value_def ascii_lower_def)

text \<open>
  C33. In paper mode, with a connected adapter that gets a ticker for the symbol (bid, ask and slippage non-negative numbers
  of their formats), an order never reaches the exchange, which is only asked for this ticker; it is filled at once and
  completely, for the side of the order, at a price that is never better than the market: a purchase pays at least
  the ask, a sale gets at most the bid, not the mid price of the documentation. The fee is that of a resting order exactly
  for the crossings of a grid level, and the portfolio books the side of the order.
\<close>

theorem paper_fill_is_adverse:
  assumes "omode ord = PAPER" and "ad_connected ad"
    and "get_ticker ad c (ccxt_symbol (osymbol ord)) x = (Inr (bid, ask), y)"
    and "is_dec bid" "0 \<le> dval bid" "is_dec ask" "0 \<le> dval ask"
    and "is_float (paper_slippage pc)" "0 \<le> fval (paper_slippage pc)"
  shows "\<exists>r p. place_order ad c shown now pc ord x = (Inr r, y) \<and> status r = FILLED \<and>
    filled_quantity r = quantity ord \<and> request_id r = oid ord \<and> average_fill_price r = Some p \<and>
    (if oside ord = BUY then ask \<le> p else p \<le> bid) \<and> infer_side r = oside ord \<and>
    fees r = quantity ord * p * dec_of_float (if py_get (metadata ord) ''grid_fill_type'' PyNone = PyStr ''level_cross''
      then paper_maker_fee pc else paper_taker_fee pc)"
proof -
  let ?s = "dec_of_float (paper_slippage pc)"
  define p where "p = (if oside ord = BUY then ask * (1 + ?s) else bid * (1 - ?s))"
  let ?r = "paper_result shown now pc ord p"
  have s: "0 \<le> dval ?s" using dec_of_float_nonneg [OF assms(8,9)] .
  have "dval 1 \<le> dval (1 + ?s)" "dval (1 - ?s) \<le> dval 1"
    using dec_add_ge [OF is_dec_1 s] dec_diff_le [OF is_dec_1 s] by simp_all
  then have one: "1 \<le> dval (1 + ?s)" "dval (1 - ?s) \<le> 1" by (simp_all only: dval_simps)
  have p: "if oside ord = BUY then ask \<le> p else p \<le> bid"
    using dec_mult_ge [OF assms(6,7) one(1)] dec_mult_le [OF assms(4,5) one(2)]
    unfolding p_def less_eq_dec_def by simp
  have "place_once ad c shown now pc ord x = (Inr ?r, y)"
    using assms(1,3) by (simp add: place_once_def simulate_order_def simulate_with_def fill_price_of_def p_def Let_def)
  then have "place_order ad c shown now pc ord x = (Inr ?r, y)"
    unfolding place_order_def by (intro retrying_done) (simp add: require_connected_def assms(2))
  moreover have "status ?r = FILLED" "filled_quantity ?r = quantity ord" "request_id ?r = oid ord" "average_fill_price ?r = Some p"
    "fees ?r = quantity ord * p * paper_fee_rate pc ord" by (simp_all add: paper_result_def)
  ultimately show ?thesis using p infer_side_paper [of shown now pc ord p]
    by (intro exI [of _ ?r] exI [of _ p]) (simp only: paper_fee_rate_def simp_thms)
qed

section \<open>Orders that the exchange has ended\<close>

lemma partial_status: "0 < or_zero (ro_filled raw) \<Longrightarrow> or_zero (ro_filled raw) < or_zero (ro_amount raw) \<Longrightarrow>
  status (parse_order_result m now raw i s) = PARTIALLY_FILLED"
  by (simp add: parse_order_result_def order_status_of_def)

text \<open>
  C36. An order that the exchange has cancelled, rejected or let expire after a partial fill is reported as partially
  filled, whatever its status says. The monitoring of the engine then goes on polling it to the end of its timeout, and
  cancels it once more.
\<close>

theorem ended_partial_fill_looks_open:
  assumes "0 < or_zero (ro_filled raw)" and "or_zero (ro_filled raw) < or_zero (ro_amount raw)"
    and "\<And>n. v_poll v n = (False, Inr (parse_order_result m now raw i s))"
    and "\<not> ended (status r)" and "adapter_of v e ord = Inr up"
  shows "\<exists>q e'. monitor_fill v ord r (fill_timeout ord) e = (Inr q, e') \<and> status q = PARTIALLY_FILLED \<and>
    cancels e' = cancels e @ [ro_id raw]"
proof -
  let ?q = "parse_order_result m now raw i s"
  have q: "status ?q = PARTIALLY_FILLED" using partial_status [OF assms(1,2)] .
  then have n: "\<not> ended (status ?q)" by (simp add: ended_def)
  have t: "0 < fill_timeout ord" by (simp add: fill_timeout_def)
  from monitor_loop_partial [OF assms(3) n assms(4) t, of ord e] obtain e1 where
    l: "monitor_loop v ord (fill_timeout ord) 0 r e = (Left (attribute ord ?q), e1)"
    and c: "cancels e1 = cancels e" "ee_mode e1 = ee_mode e" by blast
  from assms(5) c have a: "adapter_of v e1 ord = Inr up" by (simp add: adapter_of_def)
  have "exchange_order_id ?q = ro_id raw" by (simp add: parse_order_result_def)
  with l c a q show ?thesis
    by (simp add: monitor_fill_def cancel_order_def persist_order_status_def attribute_def ended_def)
qed

text \<open>A conditional order that takes profit is sent as an order at the market.\<close>

lemma take_profit_sent_at_market: "otype ord = TAKE_PROFIT_MARKET \<Longrightarrow> co_type (ccxt_order_of ord) = co_type (ccxt_order_of (ord\<lparr>otype := MARKET\<rparr>))"
  by (simp add: ccxt_order_of_def map_order_type_def)

section \<open>Positions\<close>

lemma split_on_hd: "k \<notin> set (hd (split_on k s))"
  by (induction s) auto

lemma split_on_nonempty [simp]: "split_on k s \<noteq> []"
  by (induction s) auto

lemma parse_symbol_asset: "parse_symbol x s = Inr y \<Longrightarrow> asset y = (if CHR '':'' \<in> set s then ASSET_FUTURES else ASSET_SPOT) \<and> sym_exchange y = x"
  by (auto simp: parse_symbol_def split: list.splits)

lemma positions_of_contracts:
  assumes "positions_of ad ids now rs = Inr ps" and "\<forall>r \<in> set rs. CHR '':'' \<in> set (rp_symbol r)" and "p \<in> set ps"
  shows "asset (psymbol p) = ASSET_FUTURES \<and> 0 < pquantity p \<and> pmode p = ad_mode ad"
  using assms
proof (induction rs arbitrary: ps)
  case (Cons r rs)
  then show ?case
    by (auto simp: position_of_def not_le split: if_splits sum.splits dest!: parse_symbol_asset simp del: dec_order)
qed simp

lemma get_positions_contracts:
  assumes "get_positions ad c ids now x = (Inr ps, y)"
    and "\<forall>z rs. fst (cc_fetch_positions c z) = Inr rs \<longrightarrow> (\<forall>r \<in> set rs. CHR '':'' \<in> set (rp_symbol r))"
    and "p \<in> set ps"
  shows "asset (psymbol p) = ASSET_FUTURES \<and> 0 < pquantity p \<and> pmode p = ad_mode ad"
proof -
  from retrying_result [OF assms(1) [unfolded get_positions_def]] obtain z where
    z: "require_connected ad (unless_missing c ''fetchPositions'' (Inr []) (asking (cc_fetch_positions c) (positions_of ad ids now))) z
      = (Inr ps, y)" ..
  have "ps \<noteq> []" using assms(3) by auto
  with z have "asking (cc_fetch_positions c) (positions_of ad ids now) z = (Inr ps, y)"
    by (auto simp: require_connected_def unless_missing_def split: if_splits)
  then obtain rs where rs: "fst (cc_fetch_positions c z) = Inr rs" "positions_of ad ids now rs = Inr ps"
    by (auto simp: asking_def split: prod.splits sum.splits)
  have "\<forall>r \<in> set rs. CHR '':'' \<in> set (rp_symbol r)" using assms(2) rs(1) by blast
  with positions_of_contracts [OF rs(2) _ assms(3)] show ?thesis by blast
qed

section \<open>Cancelling everything\<close>

lemma cancel_symbols_count:
  "fst (cancel_symbols c os ss x) \<le> (\<Sum>s \<leftarrow> ss. length (filter (\<lambda>r. ccxt_symbol (rsymbol r) = s) os))"
proof (induction ss arbitrary: x)
  case (Cons s ss)
  obtain a x1 where a: "cc_cancel_all c s x = (a, x1)" by fastforce
  obtain n x2 where n: "cancel_symbols c os ss x1 = (n, x2)" by fastforce
  from Cons [of x1] a n show ?case by (simp split: sum.split)
qed simp

lemma cancel_symbols_all_fail:
  assumes "\<And>s y. \<exists>e. fst (cc_cancel_all c s y) = Inl e"
  shows "fst (cancel_symbols c os ss x) = 0"
proof (induction ss arbitrary: x)
  case (Cons s ss)
  obtain a x1 where a: "cc_cancel_all c s x = (a, x1)" by fastforce
  with assms [of s x] obtain e where "a = Inl e" by auto
  with a Cons [of x1] show ?case by (simp split: prod.split)
qed simp

text \<open>
  C24. The emergency cancel of all orders does not tell a failure. When the open orders can be read but not one of
  them can be cancelled, the call returns zero like the call on an account without orders, and raises nothing.
\<close>

theorem failed_emergency_cancel_is_silent:
  assumes "ad_connected ad" and "get_open_orders ad c now ids None x = (Inr os, x1)"
    and "\<And>s y. \<exists>e. fst (cc_cancel_all c s y) = Inl e"
  shows "fst (exchange_cancel_all ad c now ids None x) = Inr 0"
proof -
  obtain n x2 where n: "cancel_symbols c os (symbols_of os) x1 = (n, x2)" by fastforce
  with cancel_symbols_all_fail [OF assms(3), of os "symbols_of os" x1] have "n = 0" by simp
  with n assms(1,2) show ?thesis
    unfolding exchange_cancel_all_def by (subst retrying_done) (simp_all add: require_connected_def)
qed

section \<open>Limits\<close>

text \<open>
  The digits of a tick are enough: every multiple of a tick with at most \<open>n\<close> decimals is a multiple of the power of ten
  that its places name. The converse fails for a tick such as a half: a tenth is a multiple of the power and not of it.
\<close>

lemma denominator_one: "snd (quotient_of x) = 1 \<longleftrightarrow> x \<in> \<int>"
proof
  assume d: "snd (quotient_of x) = 1"
  obtain a b where q: "quotient_of x = (a, b)" by fastforce
  with d have "x = of_int a" using quotient_of_div [OF q] by simp
  then show "x \<in> \<int>" by simp
qed (auto elim!: Ints_cases)

lemma places_least:
  assumes "x * 10 ^ n \<in> \<int>"
  shows "x * 10 ^ places n x \<in> \<int> \<and> (\<forall>k < places n x. x * 10 ^ k \<notin> \<int>)"
  using assms
proof (induction n arbitrary: x)
  case (Suc n)
  show ?case
  proof (cases "x \<in> \<int>")
    case False
    have "10 * x * 10 ^ n \<in> \<int>" using Suc.prems by (simp add: mult_ac)
    from Suc.IH [OF this] have IH: "10 * x * 10 ^ places n (10 * x) \<in> \<int>" "\<forall>k < places n (10 * x). 10 * x * 10 ^ k \<notin> \<int>"
      by blast+
    have "x * 10 ^ k \<notin> \<int>" if "k < Suc (places n (10 * x))" for k
      using that IH(2) False by (cases k) (auto simp: mult_ac)
    with IH(1) False show ?thesis by (simp add: denominator_one mult_ac)
  qed (simp add: denominator_one)
qed simp

text \<open>Which market decides the limits of a symbol: the last one in the order of the library that is filed under it.\<close>

definition filed_under :: "bool \<Rightarrow> string \<Rightarrow> string \<times> raw_market option \<Rightarrow> bool" where
  "filed_under futures k e \<longleftrightarrow> snd e \<noteq> None \<and> CHR ''/'' \<in> set (fst e) \<and>
     (fst e = k \<or> futures \<and> hd (split_on (CHR '':'') (fst e)) = k)"

lemma add_market_lookup:
  "map_of (add_market futures by_tick e d) k =
     (if filed_under futures k e then Some (limits_of_market by_tick (the (snd e))) else map_of d k)"
  by (cases e) (auto simp: add_market_def filed_under_def Let_def split: option.split)

lemma fold_lookup:
  "map_of (fold (add_market futures by_tick) ms d) k =
     (case find (filed_under futures k) (rev ms) of
        Some e \<Rightarrow> Some (limits_of_market by_tick (the (snd e))) | None \<Rightarrow> map_of d k)"
proof (induction ms rule: rev_induct)
  case (snoc e ms)
  then show ?case by (simp add: add_market_lookup)
qed simp

text \<open>
  The limits of a symbol are those of the last market in the list of the library that has its name, or, for an adapter
  of futures, its name before the settlement currency. A perpetual contract therefore gets the limits of another
  contract on the same pair, or of the spot market, when that one comes later.
\<close>

theorem limits_come_from_last_market:
  "map_of (extract_symbol_limits futures by_tick ms) k =
     map_option (\<lambda>e. limits_of_market by_tick (the (snd e))) (find (filed_under futures k) (rev ms))"
  by (simp add: extract_symbol_limits_def fold_lookup split: option.split)

section \<open>Examples\<close>

definition timeout_exc :: ccxt_exc where
  "timeout_exc = \<lparr>ce_classes = [RequestTimeout, NetworkError], ce_text = ''binance timed out''\<rparr>"

definition blank_raw :: raw_order where
  "blank_raw = \<lparr>ro_id = ''77'', ro_symbol = ''BTC/USDT:USDT'', ro_client = None, ro_status = Some ''canceled'', ro_side = ''buy'',
     ro_amount = Some (Dec 2), ro_filled = Some (Dec 1), ro_fee = None, ro_average = None, ro_price = None,
     ro_placed_at = None, ro_traded_at = None, ro_dict = []\<rparr>"

text \<open>
  An exchange that takes every order and loses its answer; \<open>works\<close>: its look-up answers. The state is the list of the
  identities that it has taken.
\<close>

definition lossy_client :: "bool \<Rightarrow> nat list ccxt_client" where
  "lossy_client works = \<lparr>cc_has = (\<lambda>m. Some True),
     cc_fetch_ticker = (\<lambda>s x. (Inr \<lparr>ct_bid = Some (Dec 20), ct_ask = Some (Dec 21), ct_last = Some (Dec 20), ct_volume = Some (Dec 5)\<rparr>, x)),
     cc_fetch_by_client = (\<lambda>i s x. (if works then Inr (if i \<in> set x then Some blank_raw else None) else Inl timeout_exc, x)),
     cc_create_order = (\<lambda>a x. (Inl timeout_exc, x @ [co_client a])),
     cc_fetch_order = (\<lambda>i s x. (Inr blank_raw, x)), cc_cancel_order = (\<lambda>i s x. (Inl timeout_exc, x)),
     cc_fetch_open_orders = (\<lambda>s x. (Inr [blank_raw], x)), cc_cancel_all = (\<lambda>s x. (Inl timeout_exc, x)),
     cc_fetch_positions = (\<lambda>x. (Inr [], x)), cc_fetch_balance = (\<lambda>x. (Inl timeout_exc, x)),
     cc_set_leverage = (\<lambda>l s x. (Inr (), x)), cc_fetch_status = (\<lambda>x. (Inr (Some ''ok''), x)),
     cc_fetch_position_mode = (\<lambda>x. (Inr False, x))\<rparr>"

definition demo_adapter :: adapter where
  "demo_adapter = \<lparr>ad_exchange = BINANCE, ad_mode = LIVE, ad_futures = True, ad_connected = True\<rparr>"

definition demo_costs :: paper_costs where
  "demo_costs = \<lparr>paper_slippage = Flt (1/2), paper_taker_fee = Flt 0, paper_maker_fee = Flt 0\<rparr>"

lemma timeout_mapped [simp]: "map_error timeout_exc = ConnectionError"
  by (simp add: map_error_def timeout_exc_def Let_def has_prefix_def)

text \<open>With a look-up that does not answer, one call with its repetition sends the same order twice.\<close>

theorem lost_answer_sends_twice:
  "place_order demo_adapter (lossy_client False) (\<lambda>d. []) 3 demo_costs (demo_order LIVE) [] = (Inl ConnectionError, [1, 1])"
proof -
  have "place_once demo_adapter (lossy_client False) (\<lambda>d. []) 3 demo_costs (demo_order LIVE) x = (Inl ConnectionError, x @ [1])" for x
    by (simp add: place_once_def demo_order_def find_existing_order_def lossy_client_def asking_def ccxt_order_of_def)
  then show ?thesis
    by (simp add: place_order_def retrying.simps [of 2] retrying.simps [of 1] retrying.simps [of "Suc 0"] require_connected_def demo_adapter_def)
qed

theorem one_order_per_request_witness:
  "distinct (fold (\<lambda>ord y. snd (place_order demo_adapter (lossy_client True) (\<lambda>d. []) 3 demo_costs ord y))
     [demo_order LIVE, demo_order LIVE] [])"
proof -
  have "truthful_lookup (lossy_client True) (\<lambda>x. x)" "takes_orders (lossy_client True) (\<lambda>x. x)"
    by (simp_all add: truthful_lookup_def takes_orders_def lossy_client_def)
  from one_order_per_request [OF this, of "[]" demo_adapter "\<lambda>d. []" 3 demo_costs "[demo_order LIVE, demo_order LIVE]"]
  show ?thesis by simp
qed

theorem paper_fill_is_adverse_witness:
  "\<exists>r p. place_order demo_adapter (lossy_client True) (\<lambda>d. []) 3 demo_costs (demo_order PAPER) [] = (Inr r, []) \<and>
     average_fill_price r = Some p \<and> Dec 21 \<le> p"
proof -
  have t: "get_ticker demo_adapter (lossy_client True) (ccxt_symbol (osymbol (demo_order PAPER))) [] = (Inr (Dec 20, Dec 21), [])"
    unfolding get_ticker_def
    by (rule retrying_done) (simp add: require_connected_def demo_adapter_def asking_def lossy_client_def ticker_of_def nonzero_dec_def)
  have d: "omode (demo_order PAPER) = PAPER" "oside (demo_order PAPER) = BUY" "ad_connected demo_adapter"
    by (simp_all add: demo_order_def demo_adapter_def)
  have n: "is_dec (Dec 20)" "is_dec (Dec 21)" "is_float (paper_slippage demo_costs)" "0 \<le> fval (paper_slippage demo_costs)"
    using rnd_dec_int [of 20] rnd_dec_int [of 21] by (simp_all add: is_dec_def demo_costs_def is_float_def)
  from paper_fill_is_adverse [OF d(1,3) t n(1) _ n(2) _ n(3,4), of "\<lambda>d. []" 3] d(2) show ?thesis
    by (auto simp del: dec_order)
qed

theorem ended_partial_fill_looks_open_witness:
  "\<exists>q e'. monitor_fill ((demo_venue 1)\<lparr>v_poll := (\<lambda>n. (False, Inr (parse_order_result PAPER 3 blank_raw 1 (osymbol (demo_order PAPER)))))\<rparr>)
     (demo_order PAPER) (demo_answer 1 SUBMITTED) (fill_timeout (demo_order PAPER)) demo_engine = (Inr q, e') \<and>
     status q = PARTIALLY_FILLED \<and> cancels e' = [''77'']"
  using ended_partial_fill_looks_open [of blank_raw
      "(demo_venue 1)\<lparr>v_poll := (\<lambda>n. (False, Inr (parse_order_result PAPER 3 blank_raw 1 (osymbol (demo_order PAPER)))))\<rparr>"
      PAPER 3 1 "osymbol (demo_order PAPER)" "demo_answer 1 SUBMITTED" demo_engine "demo_order PAPER" True]
  by (auto simp: blank_raw_def or_zero_def demo_defs ended_def adapter_of_def)

theorem failed_emergency_cancel_is_silent_witness:
  "\<exists>os. fst (get_open_orders demo_adapter (lossy_client True) 3 (\<lambda>r. 5) None []) = Inr os \<and> length os = 1 \<and>
     fst (exchange_cancel_all demo_adapter (lossy_client True) 3 (\<lambda>r. 5) None []) = Inr 0"
proof -
  have "parse_symbol BINANCE ''BTC/USDT:USDT'' =
      Inr \<lparr>base = ''BTC'', quote = ''USDT'', sym_exchange = BINANCE, asset = ASSET_FUTURES\<rparr>"
    by (simp add: parse_symbol_def)
  then have "\<exists>o1. get_open_orders demo_adapter (lossy_client True) 3 (\<lambda>r. 5) None [] = (Inr [o1], [])"
    unfolding get_open_orders_def
    by (intro exI retrying_done)
       (simp add: require_connected_def demo_adapter_def asking_def lossy_client_def reported_order_def blank_raw_def)
  then obtain o1 where g: "get_open_orders demo_adapter (lossy_client True) 3 (\<lambda>r. 5) None [] = (Inr [o1], [])" ..
  have "\<exists>e. fst (cc_cancel_all (lossy_client True) s y) = Inl e" for s y by (simp add: lossy_client_def)
  from failed_emergency_cancel_is_silent [OF _ g this] g show ?thesis by (simp add: demo_adapter_def)
qed

end
