(* ===== verification/Preflight.thy ===== *)
theory Preflight
  imports Position_Liquidator Ccxt_Adapter
begin

text \<open>
  \<open>sgr/execution/preflight.py\<close>: the last check of an order before it is sent, with one result per check, and what it
  means for the orders that bypass the kill switch. What the adapter answers to each check is the record \<open>preflight_view\<close>;
  the texts of the details are left out, the names of the checks are kept.
\<close>

section \<open>Results\<close>

record check_result =
  check_name :: string
  passed :: bool
  supported :: bool

definition check :: "string \<Rightarrow> bool \<Rightarrow> check_result" where
  "check n b = \<lparr>check_name = n, passed = b, supported = True\<rparr>"

definition unsupported :: "string \<Rightarrow> check_result" where
  "unsupported n = \<lparr>check_name = n, passed = False, supported = False\<rparr>"

definition order_eligible :: "check_result list \<Rightarrow> bool" where
  "order_eligible cs \<longleftrightarrow> (\<forall>c \<in> set (filter supported cs). passed c)"

definition failed_checks :: "check_result list \<Rightarrow> check_result list" where
  "failed_checks cs = filter (\<lambda>c. supported c \<and> \<not> passed c) cs"

definition not_supported_checks :: "string list" where
  "not_supported_checks = [''api_permissions'', ''rate_limit_budget'']"

section \<open>The validator and what it sees\<close>

record preflight_validator =
  pv_pool :: exchange_pool
  pv_mode :: trading_mode
  pv_switch :: kill_switch

definition new_validator :: "exchange_pool \<Rightarrow> trading_mode \<Rightarrow> kill_switch \<Rightarrow> preflight_validator" where
  "new_validator xp m k = \<lparr>pv_pool = xp, pv_mode = m, pv_switch = k\<rparr>"

text \<open>
  The exchange information and the positions are fetched once by every check that reads them. \<open>vw_online\<close> is the
  answer of \<open>get_market_status\<close>, \<open>vw_hedged\<close> that of \<open>get_position_mode\<close>, \<open>vw_free\<close> the free part of the balance. The two
  limits come from the configuration.
\<close>

record preflight_view =
  vw_limits :: "(string, symbol_limits) dict result"
  vw_ping :: "unit result"
  vw_online :: "bool result"
  vw_symbols :: "string list result"
  vw_free :: "dec result"
  vw_positions :: "position list result"
  vw_hedged :: "bool result"
  vw_reducible :: "position list result"
  vw_max_leverage :: dec
  vw_max_notional :: "dec option"

section \<open>The checks\<close>

text \<open>Every check turns an \<open>ExchangeError\<close> into a failed result; other exceptions leave the validation.\<close>

definition or_failed :: "string \<Rightarrow> 'a result \<Rightarrow> ('a \<Rightarrow> check_result) \<Rightarrow> check_result result" where
  "or_failed n r f =
     (case r of Inr a \<Rightarrow> Inr (f a) | Inl x \<Rightarrow> if is_exchange_error x then Inr (check n False) else Inl x)"

definition or_unsupported :: "string \<Rightarrow> 'a result \<Rightarrow> ('a \<Rightarrow> check_result) \<Rightarrow> check_result result" where
  "or_unsupported n r f =
     (case r of Inl NotSupportedFeature \<Rightarrow> Inr (unsupported n) | _ \<Rightarrow> or_failed n r f)"

definition check_order_quantity_positive :: "order_request \<Rightarrow> check_result" where
  "check_order_quantity_positive ord = check ''order_quantity_positive'' (\<not> quantity ord \<le> 0)"

definition check_reduce_only_consistency_static :: "order_request \<Rightarrow> check_result" where
  "check_reduce_only_consistency_static ord = check ''reduce_only_flag_present'' True"

definition check_kill_switch_inactive :: "preflight_validator \<Rightarrow> check_result" where
  "check_kill_switch_inactive p = check ''kill_switch_inactive'' (\<not> is_active (st (pv_switch p)))"

definition check_connection_and_clock :: "preflight_view \<Rightarrow> check_result result" where
  "check_connection_and_clock w =
     or_failed ''connection_and_clock'' (vw_ping w) (\<lambda>_. check ''connection_and_clock'' True)"

definition check_market_status :: "preflight_view \<Rightarrow> check_result result" where
  "check_market_status w = or_unsupported ''market_status'' (vw_online w) (check ''market_status'')"

definition check_symbol_availability :: "preflight_view \<Rightarrow> order_request \<Rightarrow> check_result result" where
  "check_symbol_availability w ord =
     or_failed ''symbol_availability'' (vw_symbols w)
       (\<lambda>ss. check ''symbol_availability'' (ccxt_symbol (osymbol ord) \<in> set ss))"

definition limit_violated :: "symbol_limits \<Rightarrow> order_request \<Rightarrow> bool" where
  "limit_violated l ord \<longleftrightarrow> below (quantity ord) (min_amount l) \<or> above (quantity ord) (max_amount l) \<or>
     (case limit_price ord of None \<Rightarrow> False | Some p \<Rightarrow> below (quantity ord * p) (min_notional l))"

definition check_symbol_precision_and_limits :: "preflight_view \<Rightarrow> order_request \<Rightarrow> check_result result" where
  "check_symbol_precision_and_limits w ord =
     (let n = ''symbol_precision_and_limits'' in
      or_failed n (vw_limits w) (\<lambda>ls.
        case map_of ls (ccxt_symbol (osymbol ord)) of
          None \<Rightarrow> unsupported n
        | Some l \<Rightarrow>
            if limit_violated l ord then check n False
            else if min_amount l = None \<and> max_amount l = None \<and> min_notional l = None then unsupported n
            else check n True))"

definition check_balance_and_capital :: "preflight_view \<Rightarrow> order_request \<Rightarrow> check_result result" where
  "check_balance_and_capital w ord =
     (let n = ''balance_and_available_capital'' in
      or_failed n (vw_free w) (\<lambda>free.
        case limit_price ord of
          Some p \<Rightarrow> check n (\<not> free < quantity ord * p)
        | None \<Rightarrow> check n (\<not> free \<le> 0)))"

definition position_on :: "order_request \<Rightarrow> position list \<Rightarrow> position option" where
  "position_on ord ps = find (\<lambda>p. psymbol p = osymbol ord) ps"

definition check_leverage :: "preflight_view \<Rightarrow> order_request \<Rightarrow> check_result result" where
  "check_leverage w ord =
     or_failed ''leverage_within_limit'' (vw_positions w) (\<lambda>ps.
       case position_on ord ps of
         None \<Rightarrow> check ''leverage_within_limit'' True
       | Some p \<Rightarrow> check ''leverage_within_limit'' (\<not> vw_max_leverage w < leverage p))"

definition check_position_mode_consistency :: "preflight_view \<Rightarrow> order_request \<Rightarrow> check_result result" where
  "check_position_mode_consistency w ord =
     (let n = ''position_mode_consistency'' in
      if \<not> reduce_only ord then Inr (check n True)
      else or_unsupported n (vw_hedged w) (\<lambda>_. check n True))"

definition check_reduce_only_against_position :: "preflight_view \<Rightarrow> order_request \<Rightarrow> check_result result" where
  "check_reduce_only_against_position w ord =
     (let n = ''reduce_only_position_safety'' in
      if \<not> reduce_only ord then Inr (check n True)
      else or_failed n (vw_reducible w) (\<lambda>ps.
        case position_on ord ps of
          None \<Rightarrow> check n False
        | Some p \<Rightarrow> if pquantity p \<le> 0 then check n False else check n (\<not> pquantity p < quantity ord)))"

definition check_max_order_notional :: "preflight_view \<Rightarrow> order_request \<Rightarrow> check_result" where
  "check_max_order_notional w ord =
     check ''max_order_notional_double_check''
       (case vw_max_notional w of
          None \<Rightarrow> True
        | Some m \<Rightarrow> (case limit_price ord of None \<Rightarrow> True | Some p \<Rightarrow> \<not> m < quantity ord * p))"

section \<open>The validation\<close>

text \<open>Checks run one after the other; the first exception ends the validation.\<close>

fun run_checks :: "check_result result list \<Rightarrow> check_result list result" where
  "run_checks [] = Inr []"
| "run_checks (c # cs) = bind_result c (\<lambda>r. bind_result (run_checks cs) (\<lambda>rs. Inr (r # rs)))"

definition live_checks :: "preflight_validator \<Rightarrow> preflight_view \<Rightarrow> order_request \<Rightarrow> check_result result list" where
  "live_checks p w ord =
     [Inr (check_kill_switch_inactive p), check_connection_and_clock w, check_market_status w,
      check_symbol_availability w ord, check_balance_and_capital w ord, check_leverage w ord,
      check_position_mode_consistency w ord, check_reduce_only_against_position w ord,
      Inr (check_max_order_notional w ord)]"

definition validate :: "preflight_validator \<Rightarrow> preflight_view \<Rightarrow> order_request \<Rightarrow> check_result list result" where
  "validate p w ord =
     (let static = [check_order_quantity_positive ord, check_reduce_only_consistency_static ord]
            @ map unsupported not_supported_checks
      in case map_of (pv_pool p) (sym_exchange (osymbol ord), pv_mode p) of
           None \<Rightarrow> Inr (if pv_mode p = LIVE then static @ [check ''exchange_credentials_and_connection'' False] else static)
         | Some _ \<Rightarrow>
             bind_result (check_symbol_precision_and_limits w ord) (\<lambda>c.
               if pv_mode p \<noteq> LIVE then Inr (static @ [c])
               else bind_result (run_checks (live_checks p w ord)) (\<lambda>cs. Inr (static @ c # cs))))"

text \<open>What \<open>ExecutionEngine.execute\<close> asks for.\<close>

definition preflight :: "preflight_validator \<Rightarrow> preflight_view \<Rightarrow> order_request \<Rightarrow> bool result" where
  "preflight p w ord = bind_result (validate p w ord) (\<lambda>cs. Inr (order_eligible cs))"

section \<open>Facts\<close>

definition good :: "check_result \<Rightarrow> bool" where
  "good c \<longleftrightarrow> (supported c \<longrightarrow> passed c)"

lemma good_simps [simp]: "good (check n b) = b" "good (unsupported n)"
  by (simp_all add: good_def check_def unsupported_def)

lemma eligible_good: "order_eligible cs \<longleftrightarrow> list_all good cs"
  by (auto simp: order_eligible_def good_def list_all_iff)

lemma failures_empty: "failed_checks cs = [] \<longleftrightarrow> order_eligible cs"
  by (auto simp: failed_checks_def order_eligible_def filter_empty_conv)

text \<open>An outcome counts when the check returns and does not fail.\<close>

definition fine :: "check_result result \<Rightarrow> bool" where
  "fine r \<longleftrightarrow> (case r of Inr c \<Rightarrow> good c | Inl x \<Rightarrow> False)"

lemma fine_Inr [simp]: "fine (Inr c) = good c" "\<not> fine (Inl x)" by (simp_all add: fine_def)

lemma fine_or_failed [simp]: "fine (or_failed n r f) \<longleftrightarrow> (\<exists>a. r = Inr a \<and> good (f a))"
  by (cases r) (simp_all add: or_failed_def)

lemma fine_or_unsupported [simp]:
  "fine (or_unsupported n r f) \<longleftrightarrow> r = Inl NotSupportedFeature \<or> (\<exists>a. r = Inr a \<and> good (f a))"
  by (cases r) (auto simp: or_unsupported_def or_failed_def split: py_exc.splits)

lemma run_checks_fine: "(\<exists>cs. run_checks rs = Inr cs \<and> list_all good cs) \<longleftrightarrow> list_all fine rs"
proof (induction rs)
  case (Cons r rs)
  show ?case
  proof (cases r)
    case (Inr c)
    with Cons show ?thesis by (cases "run_checks rs") auto
  qed simp
qed simp

lemma preflight_true: "preflight p w ord = Inr True \<longleftrightarrow> (\<exists>cs. validate p w ord = Inr cs \<and> list_all good cs)"
  by (auto simp: preflight_def bind_result_Inr eligible_good)

lemma static_good:
  "list_all good ([check_order_quantity_positive ord, check_reduce_only_consistency_static ord] @ map unsupported not_supported_checks)
     \<longleftrightarrow> 0 < quantity ord"
  by (simp add: check_order_quantity_positive_def check_reduce_only_consistency_static_def not_supported_checks_def not_le)

lemma fine_iff: "fine r \<longleftrightarrow> (\<exists>c. r = Inr c \<and> good c)"
  by (cases r) simp_all

lemma preflight_live:
  assumes "pv_mode p = LIVE"
  shows "preflight p w ord = Inr True \<longleftrightarrow> 0 < quantity ord \<and>
     map_of (pv_pool p) (sym_exchange (osymbol ord), LIVE) \<noteq> None \<and>
     fine (check_symbol_precision_and_limits w ord) \<and> list_all fine (live_checks p w ord)"
  using assms static_good [of ord] run_checks_fine [of "live_checks p w ord"]
  by (cases "check_symbol_precision_and_limits w ord"; cases "run_checks (live_checks p w ord)")
     (auto simp: preflight_true validate_def Let_def split: option.splits)

lemma preflight_paper:
  assumes "pv_mode p = PAPER"
  shows "preflight p w ord = Inr True \<longleftrightarrow> 0 < quantity ord \<and>
     (map_of (pv_pool p) (sym_exchange (osymbol ord), PAPER) = None \<or> fine (check_symbol_precision_and_limits w ord))"
  using assms static_good [of ord]
  by (auto simp: preflight_true validate_def Let_def bind_result_Inr fine_def split: option.splits sum.splits)

section \<open>What an order that may be sent satisfies\<close>

definition affordable :: "dec \<Rightarrow> order_request \<Rightarrow> bool" where
  "affordable free ord \<longleftrightarrow> (case limit_price ord of Some p \<Rightarrow> quantity ord * p \<le> free | None \<Rightarrow> 0 < free)"

definition reducible :: "position list \<Rightarrow> order_request \<Rightarrow> bool" where
  "reducible ps ord \<longleftrightarrow> (\<exists>p. position_on ord ps = Some p \<and> 0 < pquantity p \<and> quantity ord \<le> pquantity p)"

lemma fine_kill_switch [simp]: "good (check_kill_switch_inactive p) \<longleftrightarrow> \<not> is_active (st (pv_switch p))"
  by (simp add: check_kill_switch_inactive_def)

lemma fine_connection [simp]: "fine (check_connection_and_clock w) \<longleftrightarrow> vw_ping w = Inr ()"
  by (simp add: check_connection_and_clock_def)

lemma fine_status [simp]: "fine (check_market_status w) \<longleftrightarrow> vw_online w = Inl NotSupportedFeature \<or> vw_online w = Inr True"
  by (auto simp: check_market_status_def)

lemma fine_symbol [simp]:
  "fine (check_symbol_availability w ord) \<longleftrightarrow> (\<exists>ss. vw_symbols w = Inr ss \<and> ccxt_symbol (osymbol ord) \<in> set ss)"
  by (simp add: check_symbol_availability_def)

lemma fine_balance [simp]:
  "fine (check_balance_and_capital w ord) \<longleftrightarrow> (\<exists>free. vw_free w = Inr free \<and> affordable free ord)"
  by (auto simp: check_balance_and_capital_def affordable_def Let_def split: option.splits)

lemma fine_leverage [simp]:
  "fine (check_leverage w ord) \<longleftrightarrow> (\<exists>ps. vw_positions w = Inr ps \<and>
     (\<forall>p. position_on ord ps = Some p \<longrightarrow> leverage p \<le> vw_max_leverage w))"
  by (auto simp: check_leverage_def split: option.splits)

lemma fine_position_mode [simp]:
  "fine (check_position_mode_consistency w ord) \<longleftrightarrow>
     (reduce_only ord \<longrightarrow> vw_hedged w = Inl NotSupportedFeature \<or> (\<exists>b. vw_hedged w = Inr b))"
  by (auto simp: check_position_mode_consistency_def Let_def)

lemma fine_reduce_only [simp]:
  "fine (check_reduce_only_against_position w ord) \<longleftrightarrow>
     (reduce_only ord \<longrightarrow> (\<exists>ps. vw_reducible w = Inr ps \<and> reducible ps ord))"
  by (auto simp: check_reduce_only_against_position_def reducible_def Let_def split: option.splits)

lemma fine_notional [simp]:
  "good (check_max_order_notional w ord) \<longleftrightarrow>
     (\<forall>m p. vw_max_notional w = Some m \<longrightarrow> limit_price ord = Some p \<longrightarrow> quantity ord * p \<le> m)"
  by (auto simp: check_max_order_notional_def split: option.splits)

lemma fine_limits [simp]:
  "fine (check_symbol_precision_and_limits w ord) \<longleftrightarrow> (\<exists>ls. vw_limits w = Inr ls \<and>
     (\<forall>l. map_of ls (ccxt_symbol (osymbol ord)) = Some l \<longrightarrow> \<not> limit_violated l ord))"
proof -
  have eq: "good (case map_of ls k of None \<Rightarrow> unsupported n | Some l \<Rightarrow>
      if limit_violated l ord then check n False
      else if min_amount l = None \<and> max_amount l = None \<and> min_notional l = None then unsupported n else check n True)
    \<longleftrightarrow> (\<forall>l. map_of ls k = Some l \<longrightarrow> \<not> limit_violated l ord)" for ls and k :: string and n
    by (cases "map_of ls k") simp_all
  show ?thesis unfolding check_symbol_precision_and_limits_def Let_def fine_or_failed eq ..
qed

lemma limit_side: "limit_violated l (ord\<lparr>oside := s\<rparr>) = limit_violated l ord"
  by (simp add: limit_violated_def cong: option.case_cong)

lemma position_side: "position_on (ord\<lparr>oside := s\<rparr>) = position_on ord"
  by (rule ext) (simp add: position_on_def)

lemma limits_side: "check_symbol_precision_and_limits w (ord\<lparr>oside := s\<rparr>) = check_symbol_precision_and_limits w ord"
  by (simp add: check_symbol_precision_and_limits_def limit_side Let_def cong: option.case_cong if_cong)

lemma live_checks_side: "live_checks p w (ord\<lparr>oside := s\<rparr>) = live_checks p w ord"
  by (simp add: live_checks_def check_symbol_availability_def check_balance_and_capital_def check_leverage_def
    check_position_mode_consistency_def check_reduce_only_against_position_def check_max_order_notional_def position_side Let_def
    cong: option.case_cong if_cong)

lemma preflight_side: "preflight p w (ord\<lparr>oside := s\<rparr>) = preflight p w ord"
proof -
  have "check_order_quantity_positive (ord\<lparr>oside := s\<rparr>) = check_order_quantity_positive ord"
    "check_reduce_only_consistency_static (ord\<lparr>oside := s\<rparr>) = check_reduce_only_consistency_static ord"
    by (simp_all add: check_order_quantity_positive_def check_reduce_only_consistency_static_def)
  then show ?thesis
    unfolding preflight_def validate_def by (simp add: limits_side live_checks_side Let_def cong: option.case_cong if_cong)
qed

text \<open>
  C14. In live mode the validation lets an order pass exactly when its quantity is positive, an adapter exists, the kill
  switch is off, the exchange answers, is not known to be offline and lists the symbol, the amounts respect the limits
  the exchange names, the free balance covers the order (or is positive, for a market order), the leverage of the
  position on the symbol is within the limit, a known notional is within its cap, and a reducing order finds a position
  at least as large. An answer that is an error refuses the order in every check but two: an exchange that does not
  support the query of its status, or of its position mode, passes these. The side of the order plays no part,
  also not for a reducing order, although the documentation of the position mode check says it is compared.
\<close>

theorem live_preflight_exact:
  assumes "pv_mode p = LIVE"
  shows "(preflight p w ord = Inr True \<longleftrightarrow>
    0 < quantity ord \<and> map_of (pv_pool p) (sym_exchange (osymbol ord), LIVE) \<noteq> None \<and>
    \<not> is_active (st (pv_switch p)) \<and> vw_ping w = Inr () \<and>
    (vw_online w = Inl NotSupportedFeature \<or> vw_online w = Inr True) \<and>
    (\<exists>ss. vw_symbols w = Inr ss \<and> ccxt_symbol (osymbol ord) \<in> set ss) \<and>
    (\<exists>ls. vw_limits w = Inr ls \<and> (\<forall>l. map_of ls (ccxt_symbol (osymbol ord)) = Some l \<longrightarrow> \<not> limit_violated l ord)) \<and>
    (\<exists>free. vw_free w = Inr free \<and> affordable free ord) \<and>
    (\<exists>ps. vw_positions w = Inr ps \<and> (\<forall>p. position_on ord ps = Some p \<longrightarrow> leverage p \<le> vw_max_leverage w)) \<and>
    (\<forall>m p. vw_max_notional w = Some m \<longrightarrow> limit_price ord = Some p \<longrightarrow> quantity ord * p \<le> m) \<and>
    (reduce_only ord \<longrightarrow> (vw_hedged w = Inl NotSupportedFeature \<or> (\<exists>b. vw_hedged w = Inr b)) \<and>
       (\<exists>ps. vw_reducible w = Inr ps \<and> reducible ps ord))) \<and>
    preflight p w (ord\<lparr>oside := s\<rparr>) = preflight p w ord"
  using preflight_side by (simp add: preflight_live [OF assms] live_checks_def) blast

section \<open>Exits\<close>

lemma preflight_switch: "pv_mode p = LIVE \<Longrightarrow> is_active (st (pv_switch p)) \<Longrightarrow> preflight p w ord \<noteq> Inr True"
  by (simp add: preflight_live live_checks_def)

text \<open>
  The engine builds its validator with its own pool, mode and kill switch, so what the validation answers is fixed by
  the engine and the view of the moment.
\<close>

definition validated_by :: "exec_engine \<Rightarrow> preflight_view \<Rightarrow> venue \<Rightarrow> bool" where
  "validated_by e w v \<longleftrightarrow> v_preflight v = preflight (new_validator (v_pool v) (ee_mode e) (ee_switch e)) w"

lemma switch_defeats_bypass:
  assumes "ee_mode e = LIVE" and "is_active (st (ee_switch e))" and "validated_by e w v"
    and "execute v ord b e = Inr (r, e')"
  shows "e' = e \<and> status r = REJECTED"
proof -
  have "v_preflight v ord \<noteq> Inr True"
    using preflight_switch assms(1-3) by (simp add: validated_by_def new_validator_def)
  with assms(4) show ?thesis
    by (auto simp: execute_def bind_result_Inr rejected_result_def split: if_splits)
qed

text \<open>
  C8. In live mode the emergency close closes nothing. While the kill switch is active every exit of the liquidator and
  of the watchdog is refused by the validation of the engine, although both pass the flag that bypasses the switch: the
  positions, the portfolio and the engine stay as they are, no order is handed over, and the liquidator reports
  that it is not flat unless there was nothing to close.
\<close>

theorem live_switch_stops_every_exit:
  assumes "ee_mode (lq_exec q) = LIVE" and "is_active (st (ee_switch (lq_exec q)))"
    and "\<forall>p. validated_by (lq_exec q) (w p) (tk_venue (le_tick e) p)"
  shows "liquidate_positions e why ps q = (ps = [], q) \<and>
    (wd_exec g = lq_exec q \<longrightarrow> check_positions_once l (le_tick e) g = g)"
proof
  have no: "d = lq_exec q \<and> status r = REJECTED" if "execute (tk_venue (le_tick e) p) ord True (lq_exec q) = Inr (r, d)" for p ord r d
    using switch_defeats_bypass [OF assms(1,2) _ that] assms(3) by blast
  have one: "liquidate_position e why p q = (False, q)" for p
    using no by (auto simp: liquidate_position_def Let_def split: sum.splits)
  show "liquidate_positions e why ps q = (ps = [], q)"
    by (induction ps) (simp_all add: one)
  show "wd_exec g = lq_exec q \<longrightarrow> check_positions_once l (le_tick e) g = g"
  proof
    assume g: "wd_exec g = lq_exec q"
    have "close_position (le_tick e) p x g = g" for p x
      using no g by (auto simp: close_position_def split: sum.splits)
    then have "check_one_position (le_tick e) p g = g" for p
      by (simp add: check_one_position_def split: option.splits)
    then have "fold (check_one_position (le_tick e)) ps g = g" for ps by (induction ps) simp_all
    then show "check_positions_once l (le_tick e) g = g"
      by (simp add: check_positions_once_def split: option.splits)
  qed
qed

text \<open>
  In live mode an order that reduces a position is checked like one that opens it: without free balance, or with a
  position whose leverage is above the limit, the validation refuses the order that would close the position.
\<close>

theorem reduction_needs_margin:
  assumes "pv_mode p = LIVE"
    and "(\<exists>f. vw_free w = Inr f \<and> \<not> affordable f ord) \<or>
      (\<exists>ps x. vw_positions w = Inr ps \<and> position_on ord ps = Some x \<and> vw_max_leverage w < leverage x)"
  shows "preflight p w ord \<noteq> Inr True"
  using assms(2) by (auto simp: preflight_live [OF assms(1)] live_checks_def)

text \<open>
  C9. After a restart a position in futures cannot be closed in live mode. The table of positions does not keep the asset
  class, so the exit of a restored position names a spot symbol; the exchange reports its contracts as futures; and the
  validation compares whole symbols, so it finds no position that the exit could reduce and refuses it, for the
  liquidator and for the watchdog.
\<close>

theorem restored_position_cannot_be_closed:
  assumes "pv_mode p = LIVE" and "vw_reducible w = to_result (fst (get_positions ad c ids now y))"
    and "\<forall>z rs. fst (cc_fetch_positions c z) = Inr rs \<longrightarrow> (\<forall>r \<in> set rs. CHR '':'' \<in> set (rp_symbol r))"
  shows "preflight p w (liquidation_order e why (stored col x)) \<noteq> Inr True \<and>
    preflight p w (exit_order t (stored col x) xr) \<noteq> Inr True"
proof -
  have none: "\<not> (\<exists>ps. vw_reducible w = Inr ps \<and> reducible ps ord)" if "osymbol ord = psymbol (stored col x)" for ord
  proof
    assume "\<exists>ps. vw_reducible w = Inr ps \<and> reducible ps ord"
    then obtain ps z where ps: "vw_reducible w = Inr ps" "find (\<lambda>p. psymbol p = osymbol ord) ps = Some z"
      by (auto simp: reducible_def position_on_def)
    from ps(1) assms(2) obtain y1 where "get_positions ad c ids now y = (Inr ps, y1)"
      by (cases "get_positions ad c ids now y") (auto simp: to_result_def split: sum.splits)
    moreover from ps(2) have z: "z \<in> set ps" "psymbol z = osymbol ord" by (auto simp: find_Some_iff)
    ultimately have "asset (psymbol z) = ASSET_FUTURES" using get_positions_contracts [OF _ assms(3)] by blast
    with that z(2) show False by (simp add: stored_def)
  qed
  show ?thesis
    using none by (simp add: preflight_live [OF assms(1)] live_checks_def liquidation_order_def exit_order_def)
qed

section \<open>Examples\<close>

text \<open>A healthy exchange, and an account with one long position and enough margin.\<close>

definition demo_view :: preflight_view where
  "demo_view = \<lparr>vw_limits = Inr [], vw_ping = Inr (), vw_online = Inr True, vw_symbols = Inr [''BTC/USDT''],
     vw_free = Inr (Dec 50), vw_positions = Inr [demo_long], vw_hedged = Inr False, vw_reducible = Inr [demo_long],
     vw_max_leverage = Dec 3, vw_max_notional = Some (Dec 1000)\<rparr>"

definition live_pool :: exchange_pool where
  "live_pool = [((BINANCE, LIVE), True)]"

definition killed_switch :: kill_switch where
  "killed_switch = (new_kill_switch LIVE (Some ''t1''))\<lparr>st := (ks_init LIVE)\<lparr>is_active := True\<rparr>\<rparr>"

definition live_exit :: order_request where
  "live_exit = liquidation_order demo_liq_env ''drawdown'' (demo_long\<lparr>pmode := LIVE\<rparr>)"

lemma live_exit_fields:
  "quantity live_exit = Dec 2" "limit_price live_exit = None" "reduce_only live_exit" "osymbol live_exit = psymbol demo_long"
  "sym_exchange (psymbol demo_long) = BINANCE" "ccxt_symbol (psymbol demo_long) = ''BTC/USDT''" "pquantity demo_long = Dec 2"
  "leverage demo_long = 1"
  by (simp_all add: live_exit_def liquidation_order_def demo_long_def demo_order_def ccxt_symbol_def)

theorem live_preflight_exact_witness:
  "preflight (new_validator live_pool LIVE (new_kill_switch LIVE (Some ''t1''))) demo_view live_exit = Inr True \<and>
   preflight (new_validator live_pool LIVE killed_switch) demo_view live_exit \<noteq> Inr True"
proof -
  have r: "reducible [demo_long] live_exit"
    by (simp add: reducible_def position_on_def live_exit_fields)
  have l: "leverage demo_long \<le> Dec 3" by (simp add: live_exit_fields)
  have m: "pv_mode (new_validator live_pool LIVE k) = LIVE" for k by (simp add: new_validator_def)
  have b: "\<exists>b. \<not> b" by (rule exI [of _ False]) simp
  note exact = live_preflight_exact [OF m, THEN conjunct1]
  show ?thesis
    unfolding exact
    using r l b by (simp add: live_exit_fields demo_view_def new_validator_def live_pool_def affordable_def position_on_def
        new_kill_switch_def ks_init_def killed_switch_def)
qed

definition killed_live_liquidator :: liquidator where
  "killed_live_liquidator = new_liquidator
     ((new_portfolio LIVE (Dec 800) None None None)\<lparr>positions := [(''BTC/USDT:binance'', demo_long\<lparr>pmode := LIVE\<rparr>)]\<rparr>)
     (demo_engine\<lparr>ee_mode := LIVE, ee_switch := killed_switch\<rparr>) (Some ''t1'') None"

definition live_liq_env :: liq_env where
  "live_liq_env = demo_liq_env\<lparr>le_tick := (le_tick demo_liq_env)\<lparr>tk_venue := (\<lambda>p. (demo_venue 1)
     \<lparr>v_pool := live_pool, v_preflight := preflight (new_validator live_pool LIVE killed_switch) demo_view\<rparr>)\<rparr>\<rparr>"

theorem live_switch_stops_every_exit_witness:
  "liquidate_positions live_liq_env ''drawdown'' (dict_values (positions (lq_portfolio killed_live_liquidator)))
     killed_live_liquidator = (False, killed_live_liquidator) \<and>
   check_positions_once demo_limits (le_tick live_liq_env) (demo_watchdog\<lparr>wd_exec := lq_exec killed_live_liquidator\<rparr>)
     = demo_watchdog\<lparr>wd_exec := lq_exec killed_live_liquidator\<rparr>"
proof -
  let ?q = killed_live_liquidator
  have a: "ee_mode (lq_exec ?q) = LIVE" "is_active (st (ee_switch (lq_exec ?q)))"
    by (simp_all add: killed_live_liquidator_def new_liquidator_def killed_switch_def)
  have v: "\<forall>p. validated_by (lq_exec ?q) demo_view (tk_venue (le_tick live_liq_env) p)"
    by (simp add: validated_by_def live_liq_env_def killed_live_liquidator_def new_liquidator_def)
  have p: "dict_values (positions (lq_portfolio ?q)) = [demo_long\<lparr>pmode := LIVE\<rparr>]"
    by (simp add: killed_live_liquidator_def new_liquidator_def dict_values_def)
  let ?g = "demo_watchdog\<lparr>wd_exec := lq_exec ?q\<rparr>"
  have g: "wd_exec ?g = lq_exec ?q" by simp
  from live_switch_stops_every_exit [OF a v, of "''drawdown''" "[demo_long\<lparr>pmode := LIVE\<rparr>]" ?g demo_limits] g p
  show ?thesis by simp
qed

theorem reduction_needs_margin_witness:
  "preflight (new_validator live_pool LIVE (new_kill_switch LIVE None)) (demo_view\<lparr>vw_free := Inr (Dec 0)\<rparr>) live_exit \<noteq> Inr True"
proof -
  have m: "pv_mode (new_validator live_pool LIVE (new_kill_switch LIVE None)) = LIVE" by (simp add: new_validator_def)
  have "\<not> affordable (Dec 0) live_exit" by (simp add: affordable_def live_exit_fields)
  with reduction_needs_margin [OF m, of "demo_view\<lparr>vw_free := Inr (Dec 0)\<rparr>" live_exit] show ?thesis by simp
qed

text \<open>An exchange that reports one long contract, as \<open>demo_long\<close> says.\<close>

definition contract_client :: "nat list ccxt_client" where
  "contract_client = (lossy_client True)\<lparr>cc_fetch_positions := (\<lambda>x. (Inr [\<lparr>rp_symbol = ''BTC/USDT:USDT'', rp_side = Some ''long'',
     rp_contracts = Some (Dec 2), rp_entry = Some (Dec 100), rp_mark = Some (Dec 90), rp_leverage = None, rp_unrealized = None,
     rp_realized = None\<rparr>], x))\<rparr>"

definition contract_view :: preflight_view where
  "contract_view = demo_view\<lparr>vw_reducible := to_result (fst (get_positions demo_adapter contract_client (\<lambda>r. 4) 50 []))\<rparr>"

lemma contract_positions:
  "\<exists>q. get_positions demo_adapter contract_client (\<lambda>r. 4) 50 [] = (Inr [q], []) \<and> psymbol q = psymbol demo_long \<and>
     pquantity q = Dec 2"
proof -
  have s: "parse_symbol BINANCE ''BTC/USDT:USDT'' = Inr (psymbol demo_long)"
    by (simp add: parse_symbol_def demo_long_def demo_order_def)
  have "\<exists>q. require_connected demo_adapter (unless_missing contract_client ''fetchPositions'' (Inr [])
      (asking (cc_fetch_positions contract_client) (positions_of demo_adapter (\<lambda>r. 4) 50))) [] = (Inr [q], []) \<and>
      psymbol q = psymbol demo_long \<and> pquantity q = Dec 2"
    by (simp add: require_connected_def demo_adapter_def unless_missing_def contract_client_def lossy_client_def asking_def
        or_zero_def position_of_def s)
  then obtain q where q: "require_connected demo_adapter (unless_missing contract_client ''fetchPositions'' (Inr [])
      (asking (cc_fetch_positions contract_client) (positions_of demo_adapter (\<lambda>r. 4) 50))) [] = (Inr [q], [])"
    "psymbol q = psymbol demo_long" "pquantity q = Dec 2" by blast
  have "get_positions demo_adapter contract_client (\<lambda>r. 4) 50 [] = (Inr [q], [])"
    unfolding get_positions_def by (rule retrying_done) (rule q(1))
  with q(2,3) show ?thesis by auto
qed

theorem restored_position_cannot_be_closed_witness:
  "preflight (new_validator live_pool LIVE (new_kill_switch LIVE None)) contract_view
     (liquidation_order demo_liq_env ''drawdown'' demo_long) = Inr True \<and>
   preflight (new_validator live_pool LIVE (new_kill_switch LIVE None)) contract_view
     (liquidation_order demo_liq_env ''drawdown'' (stored (\<lambda>n d. d) demo_long)) \<noteq> Inr True"
proof
  have m: "pv_mode (new_validator live_pool LIVE (new_kill_switch LIVE None)) = LIVE" by (simp add: new_validator_def)
  have f: "liquidation_order demo_liq_env ''drawdown'' demo_long = live_exit\<lparr>omode := PAPER\<rparr>"
    by (simp add: live_exit_def liquidation_order_def demo_long_def demo_liq_env_def demo_watch_tick_def close_side_def)
  have b: "\<exists>b. \<not> b" by (rule exI [of _ False]) simp
  from contract_positions obtain q where q: "vw_reducible contract_view = Inr [q]" "psymbol q = psymbol demo_long" "pquantity q = Dec 2"
    by (auto simp: contract_view_def to_result_def)
  then have "reducible [q] (live_exit\<lparr>omode := PAPER\<rparr>)"
    by (simp add: reducible_def position_on_def live_exit_fields)
  then show "preflight (new_validator live_pool LIVE (new_kill_switch LIVE None)) contract_view
      (liquidation_order demo_liq_env ''drawdown'' demo_long) = Inr True"
    using b q(1) unfolding preflight_live [OF m] f
    by (simp add: live_checks_def live_exit_fields new_validator_def live_pool_def affordable_def position_on_def
        new_kill_switch_def ks_init_def contract_view_def demo_view_def)
next
  have m: "pv_mode (new_validator live_pool LIVE (new_kill_switch LIVE None)) = LIVE" by (simp add: new_validator_def)
  have v: "vw_reducible contract_view = to_result (fst (get_positions demo_adapter contract_client (\<lambda>r. 4) 50 []))"
    by (simp add: contract_view_def)
  have "\<forall>z rs. fst (cc_fetch_positions contract_client z) = Inr rs \<longrightarrow> (\<forall>r \<in> set rs. CHR '':'' \<in> set (rp_symbol r))"
    by (auto simp: contract_client_def)
  from restored_position_cannot_be_closed [OF m v this, of demo_liq_env "''drawdown''" "\<lambda>n d. d" demo_long]
  show "preflight (new_validator live_pool LIVE (new_kill_switch LIVE None)) contract_view
      (liquidation_order demo_liq_env ''drawdown'' (stored (\<lambda>n d. d) demo_long)) \<noteq> Inr True" by blast
qed

end
