(* ===== verification/Pionex_Adapter.thy ===== *)
theory Pionex_Adapter
  imports Ccxt_Adapter
begin

text \<open>
  \<open>sgr/exchanges/pionex.py\<close>: the adapter of Pionex. With a library that knows the exchange it is the adapter of
  \<open>Ccxt_Adapter\<close>; without, it talks to the exchange through \<open>PionexClient\<close>, whose calls over a state \<open>'x\<close> are the record
  \<open>pionex_client\<close>. Orders in live mode exist for futures only.
\<close>

section \<open>Symbols\<close>

definition perp_suffix :: string where
  "perp_suffix = ''_PERP''"

definition has_suffix :: "string \<Rightarrow> string \<Rightarrow> bool" where
  "has_suffix p s \<longleftrightarrow> length p \<le> length s \<and> drop (length s - length p) s = p"

definition to_pionex_symbol :: "string \<Rightarrow> bool \<Rightarrow> string" where
  "to_pionex_symbol s futures =
     (let b = map (\<lambda>c. if c = CHR ''/'' then CHR ''_'' else c) (hd (split_on (CHR '':'') s))
      in if futures \<and> \<not> has_suffix perp_suffix b then b @ perp_suffix else b)"

definition from_pionex_symbol :: "string \<Rightarrow> exchange_id \<Rightarrow> asset_class \<Rightarrow> symbol" where
  "from_pionex_symbol s x a =
     (let t = (if has_suffix perp_suffix s then take (length s - length perp_suffix) s else s)
      in \<lparr>base = takeWhile (\<lambda>c. c \<noteq> CHR ''_'') t, quote = tl (dropWhile (\<lambda>c. c \<noteq> CHR ''_'') t), sym_exchange = x, asset = a\<rparr>)"

section \<open>Errors\<close>

text \<open>What the client raises: a failed authentication, a status of HTTP, an error code of the exchange, or something else.\<close>

datatype pionex_exc = PionexAuthentication | PionexHTTP int | PionexAPI "string option" | OtherException

definition auth_error_codes :: "string list" where
  "auth_error_codes = [''APIKEY_LOST'', ''SIGNATURE_LOST'', ''IP_NOT_WHITELISTED'', ''INVALID_APIKEY'', ''INVALIE_APIKEY'',
     ''INVALID_SIGNATURE'', ''APIKEY_EXPIRED'', ''INVALID_TIMESTAMP'', ''PERMISSION_DENIED'']"

fun map_pionex_error :: "pionex_exc \<Rightarrow> exchange_error" where
  "map_pionex_error PionexAuthentication = AuthenticationError"
| "map_pionex_error (PionexHTTP n) =
     (if n = 429 then RateLimitError
      else if n = 401 then AuthenticationError
      else if n = 0 \<or> 500 \<le> n then ConnectionError
      else GenericError False)"
| "map_pionex_error (PionexAPI c) =
     (let code = (case c of Some t \<Rightarrow> t | None \<Rightarrow> [])
      in if code \<in> set auth_error_codes then AuthenticationError
         else if code \<in> {''TRADE_ORDER_NOT_EXIST'', ''TRADE_ORDER_NOT_FOUND''} then OrderNotFoundError
         else if code \<in> {''TRADE_INVALID_SYMBOL'', ''TRADE_INVAILD_SYMBOL''} then SymbolNotFoundError
         else if contains ''RATE'' code \<or> contains ''LIMIT'' code then RateLimitError
         else GenericError False)"
| "map_pionex_error OtherException = ConnectionError"

section \<open>The client\<close>

record native_order =
  no_id :: string
  no_symbol :: string
  no_status :: string
  no_size :: "dec option"
  no_filled :: "dec option"
  no_amount :: "dec option"
  no_price :: "dec option"
  no_fee :: "dec option"
  no_created :: time
  no_updated :: time
  no_dict :: py_dict

record native_position =
  np_symbol :: string
  np_side :: string
  np_net_size :: "dec option"
  np_entry :: "dec option"
  np_mark :: "dec option"
  np_leverage :: "dec option"
  np_unrealized :: "dec option"
  np_created :: time

record native_request =
  nr_symbol :: string
  nr_side :: string
  nr_type :: string
  nr_size :: dec
  nr_price :: "dec option"
  nr_reduce :: bool
  nr_client :: nat

text \<open>
  The ticker is the last price, and the best bid and ask of the book as far as they are given; a number that cannot be
  read is \<open>None\<close>.
\<close>

record 'x pionex_client =
  pc_symbols :: "'x \<Rightarrow> (pionex_exc + unit) \<times> 'x"
  pc_ticker :: "string \<Rightarrow> 'x \<Rightarrow> (pionex_exc + (dec option \<times> dec option \<times> dec option)) \<times> 'x"
  pc_by_client :: "string \<Rightarrow> nat \<Rightarrow> 'x \<Rightarrow> (pionex_exc + native_order) \<times> 'x"
  pc_create :: "native_request \<Rightarrow> 'x \<Rightarrow> (pionex_exc + nat) \<times> 'x"
  pc_order :: "string \<Rightarrow> nat \<Rightarrow> 'x \<Rightarrow> (pionex_exc + native_order) \<times> 'x"
  pc_spot_order :: "nat \<Rightarrow> 'x \<Rightarrow> (pionex_exc + native_order) \<times> 'x"
  pc_cancel :: "string \<Rightarrow> nat \<Rightarrow> 'x \<Rightarrow> (pionex_exc + unit) \<times> 'x"
  pc_cancel_all :: "string \<Rightarrow> 'x \<Rightarrow> (pionex_exc + unit) \<times> 'x"
  pc_open_orders :: "string option \<Rightarrow> 'x \<Rightarrow> (pionex_exc + native_order list) \<times> 'x"
  pc_spot_open_orders :: "string \<Rightarrow> 'x \<Rightarrow> (pionex_exc + native_order list) \<times> 'x"
  pc_positions :: "'x \<Rightarrow> (pionex_exc + native_position list) \<times> 'x"
  pc_balances :: "bool \<Rightarrow> 'x \<Rightarrow> (pionex_exc + (string \<times> dec option \<times> dec option) list) \<times> 'x"
  pc_set_leverage :: "string \<Rightarrow> dec \<Rightarrow> 'x \<Rightarrow> (pionex_exc + unit) \<times> 'x"
  pc_margin_mode :: "string \<Rightarrow> 'x \<Rightarrow> (pionex_exc + string) \<times> 'x"

definition asking_pionex :: "('x \<Rightarrow> (pionex_exc + 'b) \<times> 'x) \<Rightarrow> ('b \<Rightarrow> 'a answer) \<Rightarrow> 'x \<Rightarrow> 'a answer \<times> 'x" where
  "asking_pionex f g x = (case f x of (Inl e, x1) \<Rightarrow> (Inl (map_pionex_error e), x1) | (Inr b, x1) \<Rightarrow> (g b, x1))"

section \<open>Orders as Pionex reports them\<close>

definition native_status :: "native_order \<Rightarrow> order_status" where
  "native_status raw =
     (let filled = or_zero (no_filled raw); size = or_zero (no_size raw);
          s = (if no_status raw = ''CLOSED'' then (if 0 < filled then FILLED else CANCELLED) else SUBMITTED)
      in if s = SUBMITTED \<and> 0 < filled \<and> filled < size then PARTIALLY_FILLED else s)"

text \<open>The result has the fresh identity \<open>i\<close>, not that of the request.\<close>

definition parse_native_order :: "adapter \<Rightarrow> nat \<Rightarrow> asset_class \<Rightarrow> native_order \<Rightarrow> order_result" where
  "parse_native_order ad i a raw =
     (let filled = or_zero (no_filled raw);
          avg = (if 0 < filled then (case no_amount raw of Some t \<Rightarrow> Some (t / filled) | None \<Rightarrow> None) else None)
      in \<lparr>request_id = i, exchange_order_id = no_id raw, rsymbol = from_pionex_symbol (no_symbol raw) PIONEX a,
          status = native_status raw, filled_quantity = filled,
          average_fill_price = (case nonzero_dec avg of Some p \<Rightarrow> Some p | None \<Rightarrow> no_price raw), fees = or_zero (no_fee raw),
          submitted_at = no_created raw, filled_at = (if 0 < filled then Some (no_updated raw) else None),
          rmode = ad_mode ad, raw_response = no_dict raw\<rparr>)"

definition asset_of :: "adapter \<Rightarrow> asset_class" where
  "asset_of ad = (if ad_futures ad then ASSET_FUTURES else ASSET_SPOT)"

section \<open>Operations\<close>

text \<open>A connection in live mode also reads the balance, which fails at once with wrong credentials.\<close>

definition native_connect :: "adapter \<Rightarrow> 'x pionex_client \<Rightarrow> 'x \<Rightarrow> adapter answer \<times> 'x" where
  "native_connect ad d x =
     (let up = ad\<lparr>ad_connected := True\<rparr> in
      case pc_symbols d x of
        (Inl e, x1) \<Rightarrow> (Inl (map_pionex_error e), x1)
      | (Inr _, x1) \<Rightarrow>
          if ad_mode ad = LIVE then asking_pionex (pc_balances d (ad_futures ad)) (\<lambda>_. Inr up) x1 else (Inr up, x1))"

definition native_market_status :: "'x pionex_client \<Rightarrow> 'x \<Rightarrow> bool answer \<times> 'x" where
  "native_market_status d x = (case pc_symbols d x of (Inl e, x1) \<Rightarrow> (Inl ConnectionError, x1) | (Inr _, x1) \<Rightarrow> (Inr True, x1))"

definition native_position_mode :: "bool answer" where
  "native_position_mode = Inl NotSupportedError"

text \<open>An exception of the client leaves \<open>get_ticker\<close> as it is; the simulation only asks whether there was one.\<close>

definition native_ticker :: "adapter \<Rightarrow> 'x pionex_client \<Rightarrow> string \<Rightarrow> 'x \<Rightarrow> (dec \<times> dec) answer \<times> 'x" where
  "native_ticker ad d s = require_connected ad (asking_pionex (pc_ticker d (to_pionex_symbol s (ad_futures ad)))
     (\<lambda>(close, bid, ask). let l = or_zero close
        in Inr ((case nonzero_dec bid of Some b \<Rightarrow> b | None \<Rightarrow> l), (case nonzero_dec ask of Some a \<Rightarrow> a | None \<Rightarrow> l))))"

definition map_order_type_to_pionex :: "order_type \<Rightarrow> string answer" where
  "map_order_type_to_pionex t =
     (case t of MARKET \<Rightarrow> Inr ''MARKET_QTY'' | LIMIT \<Rightarrow> Inr ''LIMIT'' | _ \<Rightarrow> Inl NotImplementedError)"

definition native_request_of :: "order_request \<Rightarrow> string \<Rightarrow> native_request" where
  "native_request_of ord t = \<lparr>nr_symbol = to_pionex_symbol (ccxt_symbol (osymbol ord)) True,
     nr_side = (if oside ord = BUY then ''BUY'' else ''SELL''), nr_type = t, nr_size = quantity ord,
     nr_price = limit_price ord, nr_reduce = reduce_only ord, nr_client = oid ord\<rparr>"

definition submit_native :: "adapter \<Rightarrow> 'x pionex_client \<Rightarrow> nat \<Rightarrow> order_request \<Rightarrow> string \<Rightarrow> 'x \<Rightarrow> order_result answer \<times> 'x" where
  "submit_native ad d i ord t x =
     (let s = to_pionex_symbol (ccxt_symbol (osymbol ord)) True in
      case pc_by_client d s (oid ord) x of
        (Inr raw, x1) \<Rightarrow> (Inr (parse_native_order ad i ASSET_FUTURES raw), x1)
      | (Inl _, x1) \<Rightarrow>
          (case pc_create d (native_request_of ord t) x1 of
             (Inl e, x2) \<Rightarrow> (Inl (map_pionex_error e), x2)
           | (Inr n, x2) \<Rightarrow>
               asking_pionex (pc_order d s n) (\<lambda>raw. Inr (parse_native_order ad i ASSET_FUTURES raw)) x2))"

definition native_place_order ::
  "adapter \<Rightarrow> 'x pionex_client \<Rightarrow> (dec \<Rightarrow> string) \<Rightarrow> time \<Rightarrow> paper_costs \<Rightarrow> nat \<Rightarrow> order_request \<Rightarrow> 'x \<Rightarrow> order_result answer \<times> 'x"
where
  "native_place_order ad d shown now pc i ord = require_connected ad (\<lambda>x.
     if omode ord = PAPER then simulate_with (native_ticker ad d (ccxt_symbol (osymbol ord))) shown now pc ord x
     else if \<not> ad_futures ad then (Inl NotImplementedError, x)
     else case map_order_type_to_pionex (otype ord) of
            Inl e \<Rightarrow> (Inl e, x)
          | Inr t \<Rightarrow> submit_native ad d i ord t x)"

text \<open>\<open>int(order_id)\<close>; identities of the exchange are numbers written in digits.\<close>

definition numeric_id :: "string \<Rightarrow> nat option" where
  "numeric_id s = (if s \<noteq> [] \<and> list_all is_digit s then Some (number_of s) else None)"

definition native_get_order :: "adapter \<Rightarrow> 'x pionex_client \<Rightarrow> nat \<Rightarrow> string \<Rightarrow> string \<Rightarrow> 'x \<Rightarrow> order_result answer \<times> 'x" where
  "native_get_order ad d i k s x =
     (if ad_mode ad \<noteq> LIVE then (Inl OrderNotFoundError, x)
      else require_connected ad (\<lambda>x. case numeric_id k of
             None \<Rightarrow> (Inl OrderNotFoundError, x)
           | Some n \<Rightarrow> asking_pionex (if ad_futures ad then pc_order d (to_pionex_symbol s True) n else pc_spot_order d n)
               (\<lambda>raw. Inr (parse_native_order ad i (asset_of ad) raw)) x) x)"

definition native_cancel_order :: "adapter \<Rightarrow> 'x pionex_client \<Rightarrow> string \<Rightarrow> string \<Rightarrow> 'x \<Rightarrow> bool answer \<times> 'x" where
  "native_cancel_order ad d k s x =
     (if ad_mode ad \<noteq> LIVE then (Inr True, x)
      else require_connected ad (\<lambda>x.
        if \<not> ad_futures ad then (Inl NotImplementedError, x)
        else case numeric_id k of
               None \<Rightarrow> (Inl OrderNotFoundError, x)
             | Some n \<Rightarrow>
                 (case pc_cancel d (to_pionex_symbol s True) n x of
                    (Inr _, x1) \<Rightarrow> (Inr True, x1)
                  | (Inl e, x1) \<Rightarrow> (if map_pionex_error e = OrderNotFoundError then Inr False else Inl (map_pionex_error e), x1))) x)"

definition native_open_orders ::
  "adapter \<Rightarrow> 'x pionex_client \<Rightarrow> (native_order \<Rightarrow> nat) \<Rightarrow> string option \<Rightarrow> 'x \<Rightarrow> order_result list answer \<times> 'x"
where
  "native_open_orders ad d ids which x =
     (if ad_mode ad \<noteq> LIVE then (Inr [], x)
      else require_connected ad (\<lambda>x.
        let parse = (\<lambda>os. Inr (map (\<lambda>r. parse_native_order ad (ids r) (asset_of ad) r) os)) in
        if ad_futures ad then asking_pionex (pc_open_orders d (map_option (\<lambda>s. to_pionex_symbol s True) which)) parse x
        else case which of
               None \<Rightarrow> (Inl NotImplementedError, x)
             | Some s \<Rightarrow> asking_pionex (pc_spot_open_orders d (to_pionex_symbol s False)) parse x) x)"

fun native_cancel_symbols :: "'x pionex_client \<Rightarrow> order_result list \<Rightarrow> string list \<Rightarrow> 'x \<Rightarrow> nat \<times> 'x" where
  "native_cancel_symbols d os [] x = (0, x)"
| "native_cancel_symbols d os (s # ss) x =
     (case pc_cancel_all d (to_pionex_symbol s True) x of
        (a, x1) \<Rightarrow>
          (case native_cancel_symbols d os ss x1 of
             (n, x2) \<Rightarrow> ((case a of Inl e \<Rightarrow> n
               | Inr _ \<Rightarrow> length (filter (\<lambda>r. ccxt_symbol (rsymbol r) = s) os) + n), x2)))"

text \<open>Every error of the reading becomes a connection error: it is classified once more as something unknown.\<close>

definition native_cancel_all ::
  "adapter \<Rightarrow> 'x pionex_client \<Rightarrow> (native_order \<Rightarrow> nat) \<Rightarrow> string option \<Rightarrow> 'x \<Rightarrow> nat answer \<times> 'x"
where
  "native_cancel_all ad d ids which x =
     (if ad_mode ad \<noteq> LIVE then (Inr 0, x)
      else require_connected ad (\<lambda>x.
        if \<not> ad_futures ad then (Inl NotImplementedError, x)
        else case native_open_orders ad d ids which x of
               (Inl e, x1) \<Rightarrow> (Inl (map_pionex_error OtherException), x1)
             | (Inr os, x1) \<Rightarrow> (case native_cancel_symbols d os (symbols_of os) x1 of (n, x2) \<Rightarrow> (Inr n, x2))) x)"

definition native_position_of :: "adapter \<Rightarrow> nat \<Rightarrow> native_position \<Rightarrow> position" where
  "native_position_of ad i r = \<lparr>pid = i, psymbol = from_pionex_symbol (np_symbol r) PIONEX ASSET_FUTURES,
     pside = (if np_side r = ''LONG'' then LONG else SHORT), pquantity = Dec (rnd_dec \<bar>dval (or_zero (np_net_size r))\<bar>),
     entry_price = or_zero (np_entry r), current_price = or_zero (np_mark r),
     leverage = (case nonzero_dec (np_leverage r) of Some l \<Rightarrow> l | None \<Rightarrow> 1), unrealized_pnl = or_zero (np_unrealized r),
     realized_pnl = 0, opened_at = np_created r, strategy_name = ''unknown'', pmode = ad_mode ad, stop_loss_price = None,
     take_profit_price = None, max_holding_until = None, sl_order_id = None, tp_order_id = None, entry_regime = None\<rparr>"

definition native_get_positions ::
  "adapter \<Rightarrow> 'x pionex_client \<Rightarrow> (native_position \<Rightarrow> nat) \<Rightarrow> 'x \<Rightarrow> position list answer \<times> 'x"
where
  "native_get_positions ad d ids x =
     (if ad_mode ad \<noteq> LIVE \<or> \<not> ad_futures ad then (Inr [], x)
      else require_connected ad (asking_pionex (pc_positions d) (\<lambda>rs.
        Inr (map (\<lambda>r. native_position_of ad (ids r) r) (filter (\<lambda>r. dval (or_zero (np_net_size r)) \<noteq> 0) rs)))) x)"

definition native_set_leverage :: "adapter \<Rightarrow> 'x pionex_client \<Rightarrow> string \<Rightarrow> dec \<Rightarrow> 'x \<Rightarrow> unit answer \<times> 'x" where
  "native_set_leverage ad d s l = require_connected ad (\<lambda>x.
     if \<not> ad_futures ad then (Inl NotSupportedError, x)
     else if ad_mode ad \<noteq> LIVE then (Inl NotImplementedError, x)
     else asking_pionex (pc_set_leverage d (to_pionex_symbol s True) l) Inr x)"

definition ascii_upper :: "string \<Rightarrow> string" where
  "ascii_upper s = map (\<lambda>c. let n = (of_char c :: nat) in if 97 \<le> n \<and> n \<le> 122 then char_of (n - 32) else c) s"

definition native_margin_mode :: "adapter \<Rightarrow> 'x pionex_client \<Rightarrow> string \<Rightarrow> 'x \<Rightarrow> margin_mode answer \<times> 'x" where
  "native_margin_mode ad d s = require_connected ad (\<lambda>x.
     if ad_mode ad \<noteq> LIVE \<or> \<not> ad_futures ad then (Inl NotImplementedError, x)
     else asking_pionex (pc_margin_mode d (to_pionex_symbol s True)) (\<lambda>m.
       if ascii_upper m = ''CROSS'' \<or> ascii_upper m = ''CROSSED'' then Inr CROSS
       else if ascii_upper m = ''ISOLATED'' then Inr ISOLATED
       else Inl (GenericError False)) x)"

text \<open>Rows are the coin with its free and frozen amounts.\<close>

definition native_balance_of :: "(string \<times> dec option \<times> dec option) list \<Rightarrow> balance" where
  "native_balance_of rows =
     (let total = (\<lambda>(k, f, z). or_zero f + or_zero z);
          last = foldl (\<lambda>b r. if fst r = ''USDT'' then Some r else b) None rows
      in \<lparr>b_total = (case last of Some r \<Rightarrow> total r | None \<Rightarrow> 0), b_free = (case last of Some (k, f, z) \<Rightarrow> or_zero f | None \<Rightarrow> 0),
          b_used = (case last of Some (k, f, z) \<Rightarrow> or_zero z | None \<Rightarrow> 0),
          b_assets = foldl (\<lambda>m r. if 0 < total r then AList.update (fst r) (total r) m else m) [] rows\<rparr>)"

definition native_get_balance :: "adapter \<Rightarrow> 'x pionex_client \<Rightarrow> 'x \<Rightarrow> balance answer \<times> 'x" where
  "native_get_balance ad d x =
     (if ad_mode ad \<noteq> LIVE then (Inr \<lparr>b_total = 0, b_free = 0, b_used = 0, b_assets = []\<rparr>, x)
      else require_connected ad (asking_pionex (pc_balances d (ad_futures ad)) (\<lambda>rows. Inr (native_balance_of rows))) x)"

section \<open>Facts\<close>

lemma has_suffix_append: "has_suffix p (s @ p)"
  by (simp add: has_suffix_def)

lemma split_on_none: "k \<notin> set s \<Longrightarrow> split_on k s = [s]"
  by (induction s) auto

lemma takeWhile_upto: "k \<notin> set xs \<Longrightarrow> takeWhile (\<lambda>c. c \<noteq> k) (xs @ k # ys) = xs \<and> dropWhile (\<lambda>c. c \<noteq> k) (xs @ k # ys) = k # ys"
  by (induction xs) auto

lemma suffix_unique:
  assumes "has_suffix perp_suffix (b @ CHR ''_'' # q)" and "CHR ''_'' \<notin> set q"
  shows "q = ''PERP''"
proof -
  let ?s = "b @ CHR ''_'' # q"
  obtain a where a: "?s = a @ CHR ''_'' # ''PERP''"
    using assms(1) append_take_drop_id [of "length ?s - length perp_suffix" ?s] by (metis has_suffix_def perp_suffix_def)
  have "rev q @ CHR ''_'' # rev b = rev ''PERP'' @ CHR ''_'' # rev a"
    using arg_cong [where f = rev, OF a] by simp
  then have "takeWhile (\<lambda>c. c \<noteq> CHR ''_'') (rev q @ CHR ''_'' # rev b) = takeWhile (\<lambda>c. c \<noteq> CHR ''_'') (rev ''PERP'' @ CHR ''_'' # rev a)"
    by (rule arg_cong)
  moreover have "CHR ''_'' \<notin> set (rev q)" "CHR ''_'' \<notin> set (rev ''PERP'')" using assms(2) by simp_all
  ultimately have "rev q = rev ''PERP''" using takeWhile_upto by metis
  then show ?thesis by simp
qed

text \<open>
  The names of symbols survive the way to Pionex and back, for spot and for futures: the symbol that is read from the
  name the adapter writes is the one it was written for, unless base or quote contain one of the separators or the
  quote is called PERP, which the exchange uses for its contracts.
\<close>

theorem pionex_symbols_round_trip:
  assumes "set (base s) \<inter> {CHR '':'', CHR ''/'', CHR ''_''} = {}" and "set (quote s) \<inter> {CHR '':'', CHR ''/'', CHR ''_''} = {}"
    and "quote s \<noteq> ''PERP''"
  shows "from_pionex_symbol (to_pionex_symbol (ccxt_symbol s) futures) x a = s\<lparr>sym_exchange := x, asset := a\<rparr>"
proof -
  let ?f = "\<lambda>c. if c = CHR ''/'' then CHR ''_'' else c"
  let ?t = "base s @ CHR ''_'' # quote s"
  have sep: "CHR '':'' \<notin> set (base s)" "CHR '':'' \<notin> set (quote s)" "CHR ''_'' \<notin> set (base s)" "CHR ''_'' \<notin> set (quote s)"
    "CHR ''/'' \<notin> set (base s)" "CHR ''/'' \<notin> set (quote s)" using assms(1,2) by auto
  have id: "map ?f t = t" if "CHR ''/'' \<notin> set t" for t using that by (induction t) auto
  have h: "split_on (CHR '':'') (ccxt_symbol s) = [ccxt_symbol s]"
    by (rule split_on_none) (simp add: ccxt_symbol_def sep)
  have b: "map ?f (hd (split_on (CHR '':'') (ccxt_symbol s))) = ?t"
    unfolding h using id [OF sep(5)] id [OF sep(6)] by (simp add: ccxt_symbol_def)
  have ns: "\<not> has_suffix perp_suffix ?t" using suffix_unique [OF _ sep(4)] assms(3) by blast
  then have out: "to_pionex_symbol (ccxt_symbol s) futures = (if futures then ?t @ perp_suffix else ?t)"
    unfolding to_pionex_symbol_def b Let_def by simp
  have parts: "takeWhile (\<lambda>c. c \<noteq> CHR ''_'') ?t = base s" "tl (dropWhile (\<lambda>c. c \<noteq> CHR ''_'') ?t) = quote s"
    using takeWhile_upto [OF sep(3), of "quote s"] by simp_all
  show ?thesis
  proof (cases futures)
    case True
    have "has_suffix perp_suffix (?t @ perp_suffix)" by (rule has_suffix_append)
    with True parts show ?thesis unfolding out from_pionex_symbol_def Let_def by simp
  next
    case False
    with ns parts show ?thesis unfolding out from_pionex_symbol_def Let_def by simp
  qed
qed

text \<open>What an order of Pionex counts as: filled exactly when it is closed with a fill, cancelled exactly when it is closed without.\<close>

lemma native_status_exact:
  "native_status raw = FILLED \<longleftrightarrow> no_status raw = ''CLOSED'' \<and> 0 < or_zero (no_filled raw)"
  "native_status raw = CANCELLED \<longleftrightarrow> no_status raw = ''CLOSED'' \<and> \<not> 0 < or_zero (no_filled raw)"
  "ended (native_status raw) \<longleftrightarrow> no_status raw = ''CLOSED''"
  by (auto simp: native_status_def Let_def ended_def)

text \<open>
  C37. A paper order on Pionex may be filled at the price zero. When neither the last price nor the book can be read the
  ticker is zero instead of missing, and the simulation then fills the whole order at zero without a fee, the very fill
  that the simulation means to refuse.
\<close>

theorem unreadable_ticker_fills_at_zero:
  assumes "ad_connected ad" and "omode ord = PAPER"
    and "pc_ticker d (to_pionex_symbol (ccxt_symbol (osymbol ord)) (ad_futures ad)) x = (Inr (None, None, None), y)"
  shows "\<exists>r p. native_place_order ad d shown now pc i ord x = (Inr r, y) \<and> status r = FILLED \<and>
    filled_quantity r = quantity ord \<and> average_fill_price r = Some p \<and> dval p = 0 \<and> dval (fees r) = 0"
proof -
  have t: "native_ticker ad d (ccxt_symbol (osymbol ord)) x = (Inr (0, 0), y)"
    using assms(1,3) by (simp add: native_ticker_def require_connected_def asking_pionex_def or_zero_def nonzero_dec_def)
  define p where "p = (if oside ord = BUY then 0 * (1 + dec_of_float (paper_slippage pc)) else 0 * (1 - dec_of_float (paper_slippage pc)))"
  have p: "dval p = 0" by (simp add: p_def dec.rnd_zero)
  have "native_place_order ad d shown now pc i ord x = (Inr (paper_result shown now pc ord p), y)"
    using assms(1,2) t by (simp add: native_place_order_def require_connected_def simulate_with_def fill_price_of_def p_def Let_def)
  moreover have "status (paper_result shown now pc ord p) = FILLED" "filled_quantity (paper_result shown now pc ord p) = quantity ord"
    "average_fill_price (paper_result shown now pc ord p) = Some p" "dval (fees (paper_result shown now pc ord p)) = 0"
    using p by (simp_all add: paper_result_def dec.rnd_zero)
  ultimately show ?thesis using p by blast
qed

text \<open>
  A long position of an account in one-way mode is read as a short one. The orders of the adapter leave the side of the
  position to the exchange, which is BOTH in this mode, and a position that is reported so counts as short whatever the
  sign of its size.
\<close>

theorem one_way_long_is_read_as_short:
  assumes "ad_connected ad" "ad_mode ad = LIVE" "ad_futures ad"
    and "pc_positions d x = (Inr rs, y)" and "r \<in> set rs" and "np_side r = ''BOTH''" and "0 < dval (or_zero (np_net_size r))"
  shows "\<exists>ps p. native_get_positions ad d ids x = (Inr ps, y) \<and> p \<in> set ps \<and> pside p = SHORT \<and>
    psymbol p = from_pionex_symbol (np_symbol r) PIONEX ASSET_FUTURES \<and> 0 < pquantity p"
proof -
  let ?p = "native_position_of ad (ids r) r"
  have "0 < rnd_dec (dval (or_zero (np_net_size r)))" using rnd_pos(1) [OF assms(7)] .
  then have "pside ?p = SHORT" "0 < pquantity ?p" "psymbol ?p = from_pionex_symbol (np_symbol r) PIONEX ASSET_FUTURES"
    using assms(6,7) by (simp_all add: native_position_of_def abs_of_pos)
  moreover have "native_get_positions ad d ids x = (Inr (map (\<lambda>r. native_position_of ad (ids r) r)
      (filter (\<lambda>r. dval (or_zero (np_net_size r)) \<noteq> 0) rs)), y)"
    using assms(1-4) by (simp add: native_get_positions_def require_connected_def asking_pionex_def)
  moreover have "?p \<in> set (map (\<lambda>r. native_position_of ad (ids r) r) (filter (\<lambda>r. dval (or_zero (np_net_size r)) \<noteq> 0) rs))"
    using assms(5,7) by auto
  ultimately show ?thesis by blast
qed

text \<open>Every answer about an order in live mode carries the fresh identity, also the answer to its own submission.\<close>

lemma live_answers_are_foreign:
  "native_place_order ad d shown now pc i ord x = (Inr r, y) \<Longrightarrow> omode ord = LIVE \<Longrightarrow> request_id r = i"
  "native_get_order ad d i k s x = (Inr r, y) \<Longrightarrow> request_id r = i"
  by (auto simp: native_place_order_def require_connected_def submit_native_def Let_def parse_native_order_def asking_pionex_def
      native_get_order_def split: if_splits sum.splits prod.splits option.splits)

lemma live_spot_sends_nothing:
  "ad_connected ad \<Longrightarrow> \<not> ad_futures ad \<Longrightarrow> omode ord = LIVE \<Longrightarrow> native_place_order ad d shown now pc i ord x = (Inl NotImplementedError, x)"
  by (simp add: native_place_order_def require_connected_def)

text \<open>
  Paper trading of futures on Pionex opens no position. The leverage of a paper account cannot be set, the adapter says
  so with an error that is not the one for a missing feature, and the engine then refuses every opening order before it
  looks for a price.
\<close>

theorem paper_futures_open_nothing:
  assumes "ad_connected ad" "ad_futures ad" "ad_mode ad = PAPER"
    and "\<And>s l. v_set_leverage v s l = to_result (fst (native_set_leverage ad d s l x))"
    and "\<not> reduce_only ord" and "map_of (leverage_cache e) (symbol_str (osymbol ord)) \<noteq> Some (v_default_leverage v)"
    and "execute v ord b e = Inr (r, e')"
  shows "status r = REJECTED \<and> placed e' = placed e"
proof -
  have "v_set_leverage v s l = Inl (ExchangeError 10)" for s l
    using assms(1-3) by (simp add: assms(4) native_set_leverage_def require_connected_def to_result_def)
  with assms(5-7) show ?thesis
    by (auto simp: execute_def execute_opening_def ensure_leverage_def Let_def bind_result_Inr rejected_result_def split: if_splits)
qed

section \<open>Examples\<close>

text \<open>A client without prices, with one long position of an account in one-way mode.\<close>

definition demo_pionex :: "unit pionex_client" where
  "demo_pionex = \<lparr>pc_symbols = (\<lambda>x. (Inr (), x)), pc_ticker = (\<lambda>s x. (Inr (None, None, None), x)),
     pc_by_client = (\<lambda>s i x. (Inl (PionexAPI (Some ''TRADE_ORDER_NOT_EXIST'')), x)), pc_create = (\<lambda>r x. (Inr 9, x)),
     pc_order = (\<lambda>s n x. (Inl OtherException, x)), pc_spot_order = (\<lambda>n x. (Inl OtherException, x)),
     pc_cancel = (\<lambda>s n x. (Inr (), x)), pc_cancel_all = (\<lambda>s x. (Inr (), x)), pc_open_orders = (\<lambda>s x. (Inr [], x)),
     pc_spot_open_orders = (\<lambda>s x. (Inr [], x)),
     pc_positions = (\<lambda>x. (Inr [\<lparr>np_symbol = ''BTC_USDT_PERP'', np_side = ''BOTH'', np_net_size = Some (Dec 2), np_entry = Some (Dec 20),
       np_mark = None, np_leverage = None, np_unrealized = None, np_created = 5\<rparr>], x)),
     pc_balances = (\<lambda>f x. (Inr [], x)), pc_set_leverage = (\<lambda>s l x. (Inr (), x)), pc_margin_mode = (\<lambda>s x. (Inr ''CROSS'', x))\<rparr>"

definition pionex_futures :: "trading_mode \<Rightarrow> adapter" where
  "pionex_futures m = \<lparr>ad_exchange = PIONEX, ad_mode = m, ad_futures = True, ad_connected = True\<rparr>"

theorem pionex_symbols_round_trip_witness:
  "from_pionex_symbol (to_pionex_symbol (ccxt_symbol (osymbol (demo_order LIVE))) True) PIONEX ASSET_SPOT =
     osymbol (demo_order LIVE)\<lparr>sym_exchange := PIONEX, asset := ASSET_SPOT\<rparr>"
  by (rule pionex_symbols_round_trip) (simp_all add: demo_order_def)

theorem unreadable_ticker_fills_at_zero_witness:
  "\<exists>r p. native_place_order (pionex_futures PAPER) demo_pionex (\<lambda>d. []) 3 demo_costs 5 (demo_order PAPER) () = (Inr r, ()) \<and>
     status r = FILLED \<and> filled_quantity r = Dec 2 \<and> average_fill_price r = Some p \<and> dval p = 0"
proof -
  have d: "ad_connected (pionex_futures PAPER)" "omode (demo_order PAPER) = PAPER" "quantity (demo_order PAPER) = Dec 2"
    "pc_ticker demo_pionex (to_pionex_symbol (ccxt_symbol (osymbol (demo_order PAPER))) (ad_futures (pionex_futures PAPER))) ()
      = (Inr (None, None, None), ())" by (simp_all add: pionex_futures_def demo_order_def demo_pionex_def)
  from unreadable_ticker_fills_at_zero [OF d(1,2,4), of "\<lambda>d. []" 3 demo_costs 5] d(3) show ?thesis by auto
qed

theorem one_way_long_is_read_as_short_witness:
  "\<exists>ps p. native_get_positions (pionex_futures LIVE) demo_pionex (\<lambda>r. 4) () = (Inr ps, ()) \<and> p \<in> set ps \<and> pside p = SHORT \<and>
     psymbol p = \<lparr>base = ''BTC'', quote = ''USDT'', sym_exchange = PIONEX, asset = ASSET_FUTURES\<rparr>"
proof -
  define r where "r = \<lparr>np_symbol = ''BTC_USDT_PERP'', np_side = ''BOTH'', np_net_size = Some (Dec 2), np_entry = Some (Dec 20),
       np_mark = None, np_leverage = None, np_unrealized = None, np_created = 5\<rparr>"
  have a: "ad_connected (pionex_futures LIVE)" "ad_mode (pionex_futures LIVE) = LIVE" "ad_futures (pionex_futures LIVE)"
    "pc_positions demo_pionex () = (Inr [r], ())" "r \<in> set [r]" "np_side r = ''BOTH''" "0 < dval (or_zero (np_net_size r))"
    by (simp_all add: pionex_futures_def demo_pionex_def r_def or_zero_def)
  have "from_pionex_symbol (np_symbol r) PIONEX ASSET_FUTURES = \<lparr>base = ''BTC'', quote = ''USDT'', sym_exchange = PIONEX, asset = ASSET_FUTURES\<rparr>"
    by (simp add: r_def from_pionex_symbol_def has_suffix_def perp_suffix_def)
  with one_way_long_is_read_as_short [OF a, of "\<lambda>r. 4"] show ?thesis by auto
qed

theorem paper_futures_open_nothing_witness:
  "\<exists>r. execute ((demo_venue 1)\<lparr>v_set_leverage := (\<lambda>s l. to_result (fst (native_set_leverage (pionex_futures PAPER) demo_pionex s l ())))\<rparr>)
     (demo_order PAPER) False demo_engine = Inr (r, demo_engine) \<and> status r = REJECTED \<and> placed demo_engine = []"
proof -
  let ?v = "(demo_venue 1)\<lparr>v_set_leverage := (\<lambda>s l. to_result (fst (native_set_leverage (pionex_futures PAPER) demo_pionex s l ())))\<rparr>"
  have a: "ad_connected (pionex_futures PAPER)" "ad_futures (pionex_futures PAPER)" "ad_mode (pionex_futures PAPER) = PAPER"
    by (simp_all add: pionex_futures_def)
  have v: "v_set_leverage ?v s l = to_result (fst (native_set_leverage (pionex_futures PAPER) demo_pionex s l ()))" for s l by simp
  have l: "native_set_leverage (pionex_futures PAPER) demo_pionex s l () = (Inl NotImplementedError, ())" for s l
    by (simp add: native_set_leverage_def require_connected_def pionex_futures_def)
  have x: "\<exists>r. execute ?v (demo_order PAPER) False demo_engine = Inr (r, demo_engine)"
    by (simp add: demo_defs execute_def check_live_trading_allowed_def new_kill_switch_def execute_opening_def ensure_leverage_def
        adapter_of_def Let_def ks_init_def l to_result_def)
  have o: "\<not> reduce_only (demo_order PAPER)" by (simp add: demo_order_def)
  have c: "map_of (leverage_cache demo_engine) (symbol_str (osymbol (demo_order PAPER))) \<noteq> Some (v_default_leverage ?v)"
    by (simp add: demo_engine_def)
  from x obtain r where r: "execute ?v (demo_order PAPER) False demo_engine = Inr (r, demo_engine)" ..
  from paper_futures_open_nothing [OF a v o c r] r show ?thesis by (auto simp: demo_engine_def)
qed

end
