(* ===== verification/Spec2Isabelle.thy ===== *)
theory Spec2Isabelle
  imports Symbol_Kill_Switch Circuit_Breaker Recovery Position_Sizer Risk_Engine Execution_Engine
    Portfolio_Recovery Orchestrator Position_Protection Grid_Scheduler Preflight Pionex_Adapter
begin

text \<open>
  Verification of the trading core of SGR (\<open>src/sgr\<close>), a trading system for spot and futures: strategies turn
  market features into signals, a risk engine approves and sizes them, an execution engine brings orders to an
  exchange exactly once, a portfolio books the fills, and kill switches, protective exits, grids of resting levels and a
  recovery after a crash surround that path. The development is a shallow embedding of this path, in the order in which
  the code calls its parts, and proves what keeps money safe: gates that an order must pass, limits that hold in every
  reachable state, books that balance, states that survive a restart, and the cases in which the code does less than it
  promises.

  \<^bold>\<open>Foundations.\<close> \<open>Sgr_Prelude\<close> has the collections of facts (\<open>numeric\<close>, \<open>frame\<close>, \<open>preserves\<close>), dictionaries as
  association lists in insertion order, \<open>'a result\<close> (\<open>Inl\<close> an exception), the locales \<open>stateful\<close> (an invariant of a step
  carries over to runs) and the contracts of the switches. \<open>Py_Numbers\<close> models \<open>Decimal\<close> with 28 digits and rounding half
  to even (\<open>dec\<close>), and \<open>float\<close> with 53 bits and unbounded exponent (\<open>flt\<close>), both as rationals with a rounding after
  each operation; a locale of roundings gives monotonicity and exactness for both. NaN, infinities, overflow and the
  sign of zero are not modelled. \<open>Core_Types\<close> is \<open>core/types.py\<close>; times are microseconds.

  \<^bold>\<open>Switches and recovery.\<close> \<open>Kill_Switch\<close> (\<open>risk/kill_switch.py\<close>: memory, Redis key, channel, events),
  \<open>Symbol_Kill_Switch\<close>, \<open>Circuit_Breaker\<close> and \<open>Recovery\<close> (\<open>core/resilience.py\<close>). Proved: a trigger reaches Redis and the
  exchanges, other processes converge to it, tenants do not share a key, a restart stays stopped.

  \<^bold>\<open>Signals.\<close> \<open>Market_Types\<close>, \<open>Feature_Store\<close>, \<open>Strategies\<close> (five directional strategies in float arithmetic),
  \<open>Strategy_Registry\<close>, \<open>Strategy_Engine\<close> (gate per symbol, aggregation). Proved: a signal fits its strategy, is the most
  confident of its direction, and no asked strategy signalled a direction it gives way to; activations survive a restart.

  \<^bold>\<open>Orders.\<close> \<open>Quantization\<close>, \<open>Position_Sizer\<close>, \<open>Risk_Engine\<close>, \<open>Live_Gates\<close> (live gate and verification profile),
  \<open>Order_Safety\<close> (\<open>execute_safely\<close> as a machine of steps between two awaits, with interleaving and crashes),
  \<open>Execution_Engine\<close> (all gates, monitoring with its timeout as a loop that ends, row and event of a fill),
  \<open>Portfolio_Engine\<close> and \<open>Portfolio_Recovery\<close> (books, hooks, tables, restore), \<open>Orchestrator\<close> (a whole cycle). Proved: no
  order without an approved signal and without passing every gate; at most one submission for each order under the
  discipline of the callers, and two without it; a fill event exactly for what the call itself brought to the exchange
  and got filled; the stored row follows the result but for two cases; what a cycle changes in each engine; sizes below every
  cap; the books balance after every fill; a restored portfolio is the one that was stored.

  \<^bold>\<open>Exits.\<close> \<open>Position_Protection\<close> (levels and the watchdog), \<open>Position_Liquidator\<close> (the emergency close) and \<open>Preflight\<close>
  (\<open>execution/preflight.py\<close>, the validation of every order, over a record \<open>preflight_view\<close> of the answers of the adapter).
  Proved: exits only reduce and only when due; the exact condition under which the live validation lets an order pass;
  and when exits do not work, because the validation sees an active switch or a position whose symbol was restored.

  \<^bold>\<open>Exchanges.\<close> \<open>Ccxt_Adapter\<close> (\<open>exchanges/base.py\<close> and \<open>ccxt_base.py\<close>: the mapping of errors, the retries with their bound,
  submission with the look-up by client id, simulated fills, cancellation, orders, positions, balances, limits) over a
  record \<open>ccxt_client\<close> of the calls of the library, which threads the state of the exchange; and \<open>Pionex_Adapter\<close>
  (\<open>exchanges/pionex.py\<close>: the native calls for ticker, orders and balance). Proved: no request is held twice by the exchange
  while the look-up is truthful, simulated fills are never better than the market, and what the adapters report wrongly.

  \<^bold>\<open>Grids.\<close> \<open>Compliance\<close> (capabilities and rules), \<open>Grid_Types\<close> (parameters, levels, suitability, strategies),
  \<open>Grid_Risk\<close>, \<open>Grid_Limiter\<close>, \<open>Grid_Controller\<close> (open, tick, fill, close, monitor), \<open>Grid_Recovery\<close> (replay of the ledger),
  \<open>Grid_Scheduler\<close> (candles), \<open>Grid_Examples\<close> (concrete grids). Proved: the orders of a tick are the crossings of its price,
  each by its own cell, a restored grid equals the running one, and in every state that a scheduler reaches from an empty
  controller its grids are within the limits and no strategy has two grids on a symbol. The restore of grids at the start
  of the process is \<open>Grid_Recovery\<close>, not a step of the scheduler.

  \<^bold>\<open>How to read it.\<close> A component is a record of its state with one definition for each operation of the code, named as
  in the code; exceptions, refusals and early returns are values. What is outside the repository, and what depends on the
  moment (the exchange, the clock, fresh identifiers, Redis and database calls that may fail), is an argument or a field of
  an environment record such as \<open>venue\<close>, \<open>surroundings\<close> or \<open>grid_env\<close>. Logs and metrics are left out; the texts of
  reasons are constructors. A component that hands several operations to another one is seen through a locale, with an
  interpretation on the definitions of the model. Loops are structural recursions over what they consume; the monitoring
  loop ends by its timeout, and the digit searches of \<open>Py_Numbers\<close> have a fuel that their lemmas show to be enough. A
  property has a witness that applies it to a concrete state, named \<open>_witness\<close>.

  \<^bold>\<open>Not modelled.\<close> The HTTP and websocket interface (\<open>api\<close>, \<open>saas\<close> routers); of the adapters, connecting and the
  market data calls (order book, candles, funding, discovery), the margin mode and signing; the collection of market data
  and the computation of indicators (numpy and pandas), backtesting, machine learning, sentiment, monitoring, encryption
  and configuration loading. They are pure input and output, rest on numeric libraries, or do not decide about orders.
  The foreign keys of the database are left out, the sum of a list of floats is the plain left fold (Python from 3.12 on
  compensates it, which can differ in the last bit), and a simulated order has no nested entry for its fee.
  The manifest lists each with its reason.
\<close>

end
